(* ===== verification/Emu_Prelude.thy ===== *)
theory Emu_Prelude
  imports Main "HOL-Library.Word"
begin

unbundle bit_operations_syntax

text \<open>
  Shared vocabulary of the development.  C's fixed-width unsigned integers are words, C truth
  values of a masked register are \<open>has_flag\<close>, and everything that stops the emulator (a failed
  assertion, an abort, a hardware trap on division by zero, a loop that does not end) is a value of
  the error type \<open>abort\<close>.
\<close>

section \<open>Machine types\<close>

type_synonym u8 = "8 word"
type_synonym u32 = "32 word"
type_synonym u64 = "64 word"

named_theorems flag_simps \<open>reading one status bit back after another was set or cleared\<close>
named_theorems dev_defs \<open>definitions of device operations, unfolded to compute a branch\<close>

section \<open>Errors\<close>

datatype abort = AssertFailed | CpuAbort | DivByZero | NotReached | Diverges

type_synonym 'a res = "abort + 'a"

definition res_bind :: "'a res \<Rightarrow> ('a \<Rightarrow> 'b res) \<Rightarrow> 'b res" where
  "res_bind r k = (case r of Inl e \<Rightarrow> Inl e | Inr x \<Rightarrow> k x)"

definition assert_that :: "bool \<Rightarrow> 'a res \<Rightarrow> 'a res" where
  "assert_that b k = (if b then k else Inl AssertFailed)"

lemma res_bind_simps [simp]:
  "res_bind (Inr x) k = k x" "res_bind (Inl e) k = Inl e"
  by (simp_all add: res_bind_def)

lemma res_bind_eq_Inr:
  "res_bind r k = Inr y \<longleftrightarrow> (\<exists>x. r = Inr x \<and> k x = Inr y)"
  by (cases r) simp_all

lemma assert_that_simps [simp]:
  "assert_that True k = k" "assert_that False k = Inl AssertFailed"
  by (simp_all add: assert_that_def)

lemma assert_that_eq_Inr: "assert_that b k = Inr y \<longleftrightarrow> b \<and> k = Inr y"
  by (simp add: assert_that_def)

text \<open>Returning normally with a result that has a property.\<close>

definition returns :: "('a \<Rightarrow> bool) \<Rightarrow> 'a res \<Rightarrow> bool" where
  "returns P r \<longleftrightarrow> (\<exists>x. r = Inr x \<and> P x)"

lemma returns_Inr [simp]: "returns P (Inr x) \<longleftrightarrow> P x"
  by (simp add: returns_def)

lemma returns_Inl [simp]: "\<not> returns P (Inl e)"
  by (simp add: returns_def)

lemma returns_bind: "\<lbrakk>returns P r; \<And>x. P x \<Longrightarrow> returns Q (k x)\<rbrakk> \<Longrightarrow> returns Q (res_bind r k)"
  by (auto simp: returns_def)

lemma returns_mono: "\<lbrakk>returns P r; \<And>x. P x \<Longrightarrow> Q x\<rbrakk> \<Longrightarrow> returns Q r"
  by (auto simp: returns_def)

lemma returns_assert [simp]: "returns P (assert_that b k) \<longleftrightarrow> b \<and> returns P k"
  by (simp add: assert_that_def)

section \<open>Masked registers\<close>

definition has_flag :: "'a::len word \<Rightarrow> 'a word \<Rightarrow> bool" where
  "has_flag w m \<longleftrightarrow> w AND m \<noteq> 0"

lemma has_flag_0 [simp]: "\<not> has_flag 0 m" "\<not> has_flag w 0"
  by (simp_all add: has_flag_def)

lemma has_flag_or: "has_flag (w OR v) m \<longleftrightarrow> has_flag w m \<or> has_flag v m"
  unfolding has_flag_def by (metis bit.conj_disj_distrib2 word_bw_comms(2) or_eq_0_iff)

lemma has_flag_clear_self [simp]: "\<not> has_flag (w AND NOT m) m"
  by (simp add: has_flag_def bit_eq_iff bit_simps)

lemma has_flag_clear_other: "b AND m = 0 \<Longrightarrow> has_flag (w AND NOT b) m = has_flag w m"
  unfolding has_flag_def by (auto simp: bit_eq_iff bit_simps)

lemma has_flag_iff_bit: "has_flag w m \<longleftrightarrow> (\<exists>n. bit w n \<and> bit m n)"
  by (auto simp: has_flag_def bit_eq_iff bit_and_iff dest: bit_imp_le_length)

lemma has_flag_mono: "has_flag c w \<Longrightarrow> (\<And>n. bit w n \<Longrightarrow> bit v n) \<Longrightarrow> has_flag c v"
  by (auto simp: has_flag_iff_bit)

lemma ucast_u8_u32_u64 [simp]: "ucast (ucast (v :: u64) :: u32) = (ucast v :: u8)"
  by (rule bit_word_eqI) (simp add: bit_ucast_iff)

lemma unat_u32_less: "unat (w :: u32) < 2 ^ 32"
  by (rule order.strict_trans2 [OF unsigned_less]) simp

lemma unat_ucast_u32_u64 [simp]: "unat (ucast (w :: u32) :: u64) = unat w"
  using unat_u32_less [of w] by (simp add: unsigned_ucast_eq take_bit_nat_eq_self_iff)

lemma and_255: "w AND 255 = take_bit 8 w" for w :: "'a::len word"
  by (simp add: take_bit_eq_mask mask_eq_exp_minus_1)

lemma ucast_u8_and_255 [simp]: "(ucast (b :: u8) :: u32) AND 255 = ucast b"
  unfolding and_255
  by (rule bit_word_eqI) (auto simp: bit_take_bit_iff bit_ucast_iff dest: bit_imp_le_length)

lemma ucast_u8_up [simp]: "(ucast (ucast (b :: u8) :: u32) :: u64) = ucast b"
  by (rule bit_word_eqI) (auto simp: bit_ucast_iff dest: bit_imp_le_length)

lemma has_flag_bit: "has_flag w (2 ^ n) \<longleftrightarrow> bit w n"
  by (simp add: has_flag_def and_exp_eq_0_iff_not_bit)

end
