(* ===== verification/Irq_Line.thy ===== *)
theory Irq_Line
  imports Emu_Prelude
begin

text \<open>
  QEMU's interrupt lines (\<^verbatim>\<open>hw/core/irq.c\<close>, \<^verbatim>\<open>include/hw/irq.h\<close>).  An \<open>IRQState\<close> is a
  handler with its opaque data (here the state \<open>'s\<close> it acts on) and a line number; a
  \<^verbatim>\<open>qemu_irq\<close> is a pointer to one and may be null.  A device model keeps the levels it has
  driven on its own line as a list, by connecting the line to a recording handler; replaying
  that list into the interrupt controller's handler is what the board does with it.

  The locale \<open>level_irq\<close> states what the UART and the CAN controller share: a condition on
  the registers, a \<^verbatim>\<open>check_and_set_interrupt\<close> that raises the line when it holds and a
  \<^verbatim>\<open>check_and_clear_interrupt\<close> that lowers the line when it does not.
\<close>

section \<open>The IRQ object\<close>

record 's IRQState =
  handler :: "int \<Rightarrow> int \<Rightarrow> 's \<Rightarrow> 's"
  irq_n :: int

type_synonym 's qemu_irq = "'s IRQState option"

definition qemu_set_irq :: "'s qemu_irq \<Rightarrow> int \<Rightarrow> 's \<Rightarrow> 's" where
  "qemu_set_irq irq level s =
     (case irq of None \<Rightarrow> s | Some i \<Rightarrow> handler i (irq_n i) level s)"

definition qemu_irq_raise :: "'s qemu_irq \<Rightarrow> 's \<Rightarrow> 's" where
  "qemu_irq_raise irq s = qemu_set_irq irq 1 s"

definition qemu_irq_lower :: "'s qemu_irq \<Rightarrow> 's \<Rightarrow> 's" where
  "qemu_irq_lower irq s = qemu_set_irq irq 0 s"

definition qemu_irq_pulse :: "'s qemu_irq \<Rightarrow> 's \<Rightarrow> 's" where
  "qemu_irq_pulse irq s = qemu_set_irq irq 0 (qemu_set_irq irq 1 s)"

definition qemu_irq_is_connected :: "'s qemu_irq \<Rightarrow> bool" where
  "qemu_irq_is_connected irq \<longleftrightarrow> irq \<noteq> None"

definition qemu_allocate_irq :: "(int \<Rightarrow> int \<Rightarrow> 's \<Rightarrow> 's) \<Rightarrow> int \<Rightarrow> 's qemu_irq" where
  "qemu_allocate_irq h n = Some \<lparr>handler = h, irq_n = n\<rparr>"

definition qemu_notirq :: "'s IRQState \<Rightarrow> int \<Rightarrow> int \<Rightarrow> 's \<Rightarrow> 's" where
  "qemu_notirq irq line level s = handler irq (irq_n irq) (if level = 0 then 1 else 0) s"

definition qemu_irq_invert :: "'s IRQState \<Rightarrow> 's \<Rightarrow> 's qemu_irq \<times> 's" where
  "qemu_irq_invert irq s =
     (let s = qemu_irq_raise (Some irq) s
      in (qemu_allocate_irq (qemu_notirq irq) 0, s))"

section \<open>The levels a device has driven\<close>

type_synonym irq_log = "int list"

definition recorder :: "irq_log qemu_irq" where
  "recorder = qemu_allocate_irq (\<lambda>_ level log. log @ [level]) 0"

definition irq_replay :: "'s qemu_irq \<Rightarrow> irq_log \<Rightarrow> 's \<Rightarrow> 's" where
  "irq_replay irq log s = fold (qemu_set_irq irq) log s"

definition line_level :: "irq_log \<Rightarrow> int" where
  "line_level log = (if log = [] then 0 else last log)"

lemma recorder_simps [simp]:
  "qemu_set_irq recorder l log = log @ [l]"
  "qemu_irq_raise recorder log = log @ [1]"
  "qemu_irq_lower recorder log = log @ [0]"
  "qemu_irq_pulse recorder log = log @ [1, 0]"
  by (simp_all add: recorder_def qemu_allocate_irq_def qemu_set_irq_def qemu_irq_raise_def
      qemu_irq_lower_def qemu_irq_pulse_def)

lemma line_level_snoc [simp]: "line_level (log @ [l]) = l"
  by (simp add: line_level_def)

lemma line_level_Nil [simp]: "line_level [] = 0"
  by (simp add: line_level_def)

lemma irq_replay_append: "irq_replay irq (xs @ ys) s = irq_replay irq ys (irq_replay irq xs s)"
  by (simp add: irq_replay_def)

lemma irq_replay_Cons: "irq_replay irq (x # xs) s = irq_replay irq xs (qemu_set_irq irq x s)"
  by (simp add: irq_replay_def)

lemma irq_replay_Nil [simp]: "irq_replay irq [] s = s"
  by (simp add: irq_replay_def)

section \<open>Level-sensitive sources\<close>

locale level_irq =
  fixes cond :: "'s \<Rightarrow> bool"
    and line :: "'s \<Rightarrow> irq_log"
    and chk_set :: "'s \<Rightarrow> 's"
    and chk_clear :: "'s \<Rightarrow> 's"
  assumes line_set: "line (chk_set s) = (if cond s then line s @ [1] else line s)"
    and line_clear: "line (chk_clear s) = (if cond s then line s else line s @ [0])"
    and cond_set: "cond (chk_set s) = cond s"
    and cond_clear: "cond (chk_clear s) = cond s"
begin

definition coherent :: "'s \<Rightarrow> bool" where
  "coherent s \<longleftrightarrow> line_level (line s) = (if cond s then 1 else 0)"

text \<open>Writing the register and running both checks re-establishes coherence from any state.\<close>

lemma coherent_both: "coherent (chk_clear (chk_set s))"
  by (simp add: coherent_def line_set line_clear cond_set cond_clear)

text \<open>A step that can only make the condition true needs the setting check only.\<close>

lemma coherent_grow:
  assumes "coherent s" and "line s' = line s" and "cond s \<Longrightarrow> cond s'"
  shows "coherent (chk_set s')"
  using assms by (auto simp: coherent_def line_set cond_set split: if_splits)

text \<open>A step that can only make the condition false needs the clearing check only.\<close>

lemma coherent_shrink:
  assumes "coherent s" and "line s' = line s" and "cond s' \<Longrightarrow> cond s"
  shows "coherent (chk_clear s')"
  using assms by (auto simp: coherent_def line_clear cond_clear split: if_splits)

lemma coherent_frame:
  assumes "coherent s" and "line s' = line s" and "cond s' = cond s"
  shows "coherent s'"
  using assms by (simp add: coherent_def)

end

end
