(* ===== verification/Mem_Region.thy ===== *)
theory Mem_Region
  imports Irq_Line
begin

text \<open>
  Memory regions of \<open>system/memory.c\<close>: a container lists its subregions in priority order, an alias
  shows part of another region, and \<open>render_memory_region\<close> flattens the tree into a sorted list of
  disjoint ranges, which is what the emulated CPU's accesses are looked up in.

  A region is a tree: \<open>alias\<close> and \<open>subregions\<close> hold the regions the source points to, and a region is
  identified by its owner and its name.  \<open>Int128\<close> values are integers; they stay within 66 bits.  Allocation of RAM
  succeeds, code is translated (TCG) and no migration is tracked.  Reference counts, transactions and
  the dispatch tables built from the flat view are not modelled.
\<close>

section \<open>Address ranges\<close>

record AddrRange =
  ar_start :: int
  ar_size :: int

definition addrrange_make :: "int \<Rightarrow> int \<Rightarrow> AddrRange" where
  "addrrange_make start sz = \<lparr>ar_start = start, ar_size = sz\<rparr>"

definition addrrange_equal :: "AddrRange \<Rightarrow> AddrRange \<Rightarrow> bool" where
  "addrrange_equal r1 r2 \<longleftrightarrow> ar_start r1 = ar_start r2 \<and> ar_size r1 = ar_size r2"

definition addrrange_end :: "AddrRange \<Rightarrow> int" where
  "addrrange_end r = ar_start r + ar_size r"

definition addrrange_shift :: "AddrRange \<Rightarrow> int \<Rightarrow> AddrRange" where
  "addrrange_shift rng delta = rng\<lparr>ar_start := ar_start rng + delta\<rparr>"

definition addrrange_contains :: "AddrRange \<Rightarrow> int \<Rightarrow> bool" where
  "addrrange_contains rng addr \<longleftrightarrow> addr \<ge> ar_start rng \<and> addr < addrrange_end rng"

definition addrrange_intersects :: "AddrRange \<Rightarrow> AddrRange \<Rightarrow> bool" where
  "addrrange_intersects r1 r2 \<longleftrightarrow> addrrange_contains r1 (ar_start r2) \<or> addrrange_contains r2 (ar_start r1)"

definition addrrange_intersection :: "AddrRange \<Rightarrow> AddrRange \<Rightarrow> AddrRange" where
  "addrrange_intersection r1 r2 =
    (let start = max (ar_start r1) (ar_start r2); end = min (addrrange_end r1) (addrrange_end r2)
     in addrrange_make start (end - start))"

lemma addrrange_make_simps [simp]:
  "ar_start (addrrange_make a n) = a" "ar_size (addrrange_make a n) = n" "addrrange_end (addrrange_make a n) = a + n"
  "addrrange_contains (addrrange_make a n) x \<longleftrightarrow> a \<le> x \<and> x < a + n"
  by (simp_all add: addrrange_make_def addrrange_end_def addrrange_contains_def)

lemma contains_intersection [simp]:
  "addrrange_contains (addrrange_intersection r1 r2) a \<longleftrightarrow> addrrange_contains r1 a \<and> addrrange_contains r2 a"
  by (auto simp: addrrange_intersection_def Let_def addrrange_contains_def)

lemma intersection_size:
  "\<lbrakk>addrrange_intersects r1 r2; 0 \<le> ar_size r1; 0 \<le> ar_size r2\<rbrakk> \<Longrightarrow> 0 \<le> ar_size (addrrange_intersection r1 r2)"
  by (auto simp: addrrange_intersects_def addrrange_intersection_def addrrange_contains_def addrrange_end_def Let_def)

lemma not_intersects:
  "\<lbrakk>\<not> addrrange_intersects r1 r2; addrrange_contains r1 a\<rbrakk> \<Longrightarrow> \<not> addrrange_contains r2 a"
  by (auto simp: addrrange_intersects_def addrrange_contains_def addrrange_end_def)

section \<open>Regions\<close>

text \<open>The owning device (empty when there is none) and the name.\<close>

type_synonym mr_id = "string \<times> string"

record MRInfo =
  mr_id :: mr_id
  mr_addr :: int
  mr_size :: int
  mr_enabled :: bool
  mr_readonly :: bool
  mr_nonvolatile :: bool
  mr_unmergeable :: bool
  mr_terminates :: bool
  mr_ram :: bool
  mr_romd_mode :: bool
  mr_dirty_log_mask :: u8
  mr_priority :: int
  mr_alias_offset :: int

datatype MemoryRegion = MemoryRegion (mr_info: MRInfo) (mr_alias: "MemoryRegion option") (mr_subregions: "MemoryRegion list")

definition memory_region_get_dirty_log_mask :: "MRInfo \<Rightarrow> u8" where
  "memory_region_get_dirty_log_mask i = (if mr_ram i then mr_dirty_log_mask i OR 2 ^ 1 else mr_dirty_log_mask i)"

definition memory_region_init :: "string \<Rightarrow> string \<Rightarrow> u64 \<Rightarrow> MemoryRegion" where
  "memory_region_init owner name sz = MemoryRegion \<lparr>mr_id = (owner, name), mr_addr = 0,
     mr_size = (if sz = - 1 then 2 ^ 64 else uint sz), mr_enabled = True, mr_readonly = False, mr_nonvolatile = False,
     mr_unmergeable = False, mr_terminates = False, mr_ram = False, mr_romd_mode = True, mr_dirty_log_mask = 0, mr_priority = 0,
     mr_alias_offset = 0\<rparr> None []"

definition set_info :: "(MRInfo \<Rightarrow> MRInfo) \<Rightarrow> MemoryRegion \<Rightarrow> MemoryRegion" where
  "set_info f mr = MemoryRegion (f (mr_info mr)) (mr_alias mr) (mr_subregions mr)"

definition memory_region_init_io :: "string \<Rightarrow> string \<Rightarrow> u64 \<Rightarrow> MemoryRegion" where
  "memory_region_init_io owner name sz = set_info (\<lambda>i. i\<lparr>mr_terminates := True\<rparr>) (memory_region_init owner name sz)"

definition memory_region_init_ram :: "string \<Rightarrow> string \<Rightarrow> u64 \<Rightarrow> MemoryRegion" where
  "memory_region_init_ram owner name sz = set_info (\<lambda>i. i\<lparr>mr_ram := True, mr_terminates := True\<rparr>) (memory_region_init owner name sz)"

definition memory_region_init_rom :: "string \<Rightarrow> string \<Rightarrow> u64 \<Rightarrow> MemoryRegion" where
  "memory_region_init_rom owner name sz = set_info (\<lambda>i. i\<lparr>mr_readonly := True\<rparr>) (memory_region_init_ram owner name sz)"

definition memory_region_init_alias :: "string \<Rightarrow> string \<Rightarrow> MemoryRegion \<Rightarrow> u64 \<Rightarrow> u64 \<Rightarrow> MemoryRegion" where
  "memory_region_init_alias owner name orig offset sz =
     MemoryRegion ((mr_info (memory_region_init owner name sz))\<lparr>mr_alias_offset := uint offset\<rparr>) (Some orig) []"

definition memory_region_set_enabled :: "bool \<Rightarrow> MemoryRegion \<Rightarrow> MemoryRegion" where
  "memory_region_set_enabled b = set_info (\<lambda>i. i\<lparr>mr_enabled := b\<rparr>)"

text \<open>A new subregion goes in front of the first one whose priority is not greater.\<close>

fun memory_region_update_container_subregions :: "MemoryRegion \<Rightarrow> MemoryRegion list \<Rightarrow> MemoryRegion list" where
  "memory_region_update_container_subregions subregion [] = [subregion]"
| "memory_region_update_container_subregions subregion (other # others) =
     (if mr_priority (mr_info subregion) \<ge> mr_priority (mr_info other) then subregion # other # others
      else other # memory_region_update_container_subregions subregion others)"

definition memory_region_add_subregion_common :: "MemoryRegion \<Rightarrow> u64 \<Rightarrow> MemoryRegion \<Rightarrow> MemoryRegion" where
  "memory_region_add_subregion_common mr offset subregion =
    (let subregion = set_info (\<lambda>i. i\<lparr>mr_addr := uint offset\<rparr>) subregion
     in MemoryRegion (mr_info mr) (mr_alias mr) (memory_region_update_container_subregions subregion (mr_subregions mr)))"

definition memory_region_add_subregion :: "MemoryRegion \<Rightarrow> u64 \<Rightarrow> MemoryRegion \<Rightarrow> MemoryRegion" where
  "memory_region_add_subregion mr offset subregion =
     memory_region_add_subregion_common mr offset (set_info (\<lambda>i. i\<lparr>mr_priority := 0\<rparr>) subregion)"

definition memory_region_add_subregion_overlap :: "MemoryRegion \<Rightarrow> u64 \<Rightarrow> MemoryRegion \<Rightarrow> int \<Rightarrow> MemoryRegion" where
  "memory_region_add_subregion_overlap mr offset subregion p =
     memory_region_add_subregion_common mr offset (set_info (\<lambda>i. i\<lparr>mr_priority := p\<rparr>) subregion)"

section \<open>Flat views\<close>

record FlatRange =
  fr_mr :: MRInfo
  fr_offset_in_region :: int
  fr_addr :: AddrRange
  fr_dirty_log_mask :: u8
  fr_romd_mode :: bool
  fr_readonly :: bool
  fr_nonvolatile :: bool
  fr_unmergeable :: bool

type_synonym FlatView = "FlatRange list"

definition flatrange_equal :: "FlatRange \<Rightarrow> FlatRange \<Rightarrow> bool" where
  "flatrange_equal a b \<longleftrightarrow> fr_mr a = fr_mr b \<and> addrrange_equal (fr_addr a) (fr_addr b) \<and>
     fr_offset_in_region a = fr_offset_in_region b \<and> fr_romd_mode a = fr_romd_mode b \<and>
     fr_readonly a = fr_readonly b \<and> fr_nonvolatile a = fr_nonvolatile b \<and> fr_unmergeable a = fr_unmergeable b"

text \<open>
  The loop that renders a region into the gaps of a view, and the insertion after it.  The list is
  the part of the view from index \<open>i\<close> on; insertions go in front of it.
\<close>

fun render_gaps :: "FlatRange \<Rightarrow> int \<Rightarrow> int \<Rightarrow> int \<Rightarrow> FlatView \<Rightarrow> FlatView" where
  "render_gaps fr base offset remain [] =
     (if remain \<noteq> 0 then [fr\<lparr>fr_offset_in_region := offset, fr_addr := addrrange_make base remain\<rparr>] else [])"
| "render_gaps fr base offset remain (r # rs) =
     (if remain = 0 then r # rs
      else if base \<ge> addrrange_end (fr_addr r) then r # render_gaps fr base offset remain rs
      else
        let now = (if base < ar_start (fr_addr r) then min remain (ar_start (fr_addr r) - base) else 0);
            ins = (if base < ar_start (fr_addr r)
                   then [fr\<lparr>fr_offset_in_region := offset, fr_addr := addrrange_make base now\<rparr>] else []);
            base = base + now; offset = offset + now; remain = remain - now;
            now = min (base + remain) (addrrange_end (fr_addr r)) - base
        in ins @ r # render_gaps fr (base + now) (offset + now) (remain - now) rs)"

fun render_memory_region :: "MemoryRegion \<Rightarrow> int \<Rightarrow> AddrRange \<Rightarrow> bool \<Rightarrow> bool \<Rightarrow> bool \<Rightarrow> FlatView \<Rightarrow> FlatView"
  and render_subregions :: "MemoryRegion list \<Rightarrow> int \<Rightarrow> AddrRange \<Rightarrow> bool \<Rightarrow> bool \<Rightarrow> bool \<Rightarrow> FlatView \<Rightarrow> FlatView" where
  "render_memory_region (MemoryRegion i al subs) base clip readonly nonvolatile unmergeable view =
     (if \<not> mr_enabled i then view
      else
        let base = base + mr_addr i;
            readonly = (readonly \<or> mr_readonly i);
            nonvolatile = (nonvolatile \<or> mr_nonvolatile i);
            unmergeable = (unmergeable \<or> mr_unmergeable i);
            tmp = addrrange_make base (mr_size i)
        in if \<not> addrrange_intersects tmp clip then view
           else
             let clip = addrrange_intersection tmp clip
             in case al of
                  Some m \<Rightarrow> render_memory_region m (base - mr_addr (mr_info m) - mr_alias_offset i) clip
                    readonly nonvolatile unmergeable view
                | None \<Rightarrow>
                    let view = render_subregions subs base clip readonly nonvolatile unmergeable view
                    in if \<not> mr_terminates i then view
                       else render_gaps \<lparr>fr_mr = i, fr_offset_in_region = 0, fr_addr = clip,
                           fr_dirty_log_mask = memory_region_get_dirty_log_mask i, fr_romd_mode = mr_romd_mode i,
                           fr_readonly = readonly, fr_nonvolatile = nonvolatile, fr_unmergeable = unmergeable\<rparr>
                         (ar_start clip) (ar_start clip - base) (ar_size clip) view)"
| "render_subregions [] base clip readonly nonvolatile unmergeable view = view"
| "render_subregions (m # ms) base clip readonly nonvolatile unmergeable view =
     render_subregions ms base clip readonly nonvolatile unmergeable
       (render_memory_region m base clip readonly nonvolatile unmergeable view)"

definition can_merge :: "FlatRange \<Rightarrow> FlatRange \<Rightarrow> bool" where
  "can_merge r1 r2 \<longleftrightarrow> addrrange_end (fr_addr r1) = ar_start (fr_addr r2) \<and> fr_mr r1 = fr_mr r2 \<and>
     fr_offset_in_region r1 + ar_size (fr_addr r1) = fr_offset_in_region r2 \<and>
     fr_dirty_log_mask r1 = fr_dirty_log_mask r2 \<and> fr_romd_mode r1 = fr_romd_mode r2 \<and>
     fr_readonly r1 = fr_readonly r2 \<and> fr_nonvolatile r1 = fr_nonvolatile r2 \<and>
     \<not> fr_unmergeable r1 \<and> \<not> fr_unmergeable r2"

text \<open>The inner loop: the range at index \<open>i\<close> grows while the ranges behind it can be merged.\<close>

fun merge_run :: "FlatRange \<Rightarrow> FlatRange \<Rightarrow> FlatView \<Rightarrow> FlatRange \<times> FlatView" where
  "merge_run acc prev [] = (acc, [])"
| "merge_run acc prev (r # rs) =
     (if can_merge prev r
      then merge_run (acc\<lparr>fr_addr := (fr_addr acc)\<lparr>ar_size := ar_size (fr_addr acc) + ar_size (fr_addr r)\<rparr>\<rparr>) r rs
      else (acc, r # rs))"

lemma length_merge_run: "length (snd (merge_run acc prev rs)) \<le> length rs"
  by (induction acc prev rs rule: merge_run.induct) auto

function flatview_simplify :: "FlatView \<Rightarrow> FlatView" where
  "flatview_simplify [] = []"
| "flatview_simplify (r # rs) = fst (merge_run r r rs) # flatview_simplify (snd (merge_run r r rs))"
  by pat_completeness auto
termination
  by (relation "measure length") (auto simp: le_imp_less_Suc length_merge_run)

definition generate_memory_topology :: "MemoryRegion option \<Rightarrow> FlatView" where
  "generate_memory_topology mr = flatview_simplify (case mr of None \<Rightarrow> []
     | Some mr \<Rightarrow> render_memory_region mr 0 (addrrange_make 0 (2 ^ 64)) False False False [])"

section \<open>Lookup\<close>

definition cmp_flatrange_addr :: "AddrRange \<Rightarrow> FlatRange \<Rightarrow> int" where
  "cmp_flatrange_addr addr fr =
     (if addrrange_end addr \<le> ar_start (fr_addr fr) then -1
      else if ar_start addr \<ge> addrrange_end (fr_addr fr) then 1 else 0)"

text \<open>Binary search of the C library, on the indices from \<open>l\<close> below \<open>u\<close>.\<close>

function bsearch :: "('k \<Rightarrow> 'a \<Rightarrow> int) \<Rightarrow> 'k \<Rightarrow> 'a list \<Rightarrow> nat \<Rightarrow> nat \<Rightarrow> nat option" where
  "bsearch cmp key xs l u =
     (if l < u then
        let idx = (l + u) div 2; c = cmp key (xs ! idx)
        in if c < 0 then bsearch cmp key xs l idx
           else if c > 0 then bsearch cmp key xs (idx + 1) u
           else Some idx
      else None)"
  by pat_completeness auto
termination
  by (relation "measure (\<lambda>(_, _, _, l, u). u - l)") auto

declare bsearch.simps [simp del]

definition flatview_lookup :: "FlatView \<Rightarrow> AddrRange \<Rightarrow> nat option" where
  "flatview_lookup view addr = bsearch cmp_flatrange_addr addr view 0 (length view)"

record MemoryRegionSection =
  sec_mr :: MRInfo
  offset_within_region :: int
  sec_size :: int
  offset_within_address_space :: int
  sec_readonly :: bool
  sec_nonvolatile :: bool

fun find_first :: "FlatView \<Rightarrow> AddrRange \<Rightarrow> nat \<Rightarrow> nat" where
  "find_first view rng 0 = 0"
| "find_first view rng (Suc i) =
     (if addrrange_intersects (fr_addr (view ! i)) rng then find_first view rng i else Suc i)"

text \<open>The part after the address space of the root has been found.\<close>

definition memory_region_find_rcu :: "FlatView \<Rightarrow> u64 \<Rightarrow> u64 \<Rightarrow> MemoryRegionSection option" where
  "memory_region_find_rcu view addr sz =
    (let rng = addrrange_make (uint addr) (uint sz)
     in case flatview_lookup view rng of
          None \<Rightarrow> None
        | Some i \<Rightarrow>
            let fr = view ! find_first view rng i;
                rng = addrrange_intersection rng (fr_addr fr)
            in Some \<lparr>sec_mr = fr_mr fr,
                 offset_within_region = fr_offset_in_region fr + (ar_start rng - ar_start (fr_addr fr)),
                 sec_size = ar_size rng, offset_within_address_space = ar_start rng,
                 sec_readonly = fr_readonly fr, sec_nonvolatile = fr_nonvolatile fr\<rparr>)"

section \<open>What an address shows\<close>

text \<open>
  The reference: the first subregion in list order that shows something at the address, or else the
  region itself when it terminates.
\<close>

record hit =
  hit_mr :: MRInfo
  hit_offset :: int
  hit_readonly :: bool
  hit_nonvolatile :: bool

fun region_at :: "MemoryRegion \<Rightarrow> int \<Rightarrow> bool \<Rightarrow> bool \<Rightarrow> int \<Rightarrow> hit option"
  and subregions_at :: "MemoryRegion list \<Rightarrow> int \<Rightarrow> bool \<Rightarrow> bool \<Rightarrow> int \<Rightarrow> hit option" where
  "region_at (MemoryRegion i al subs) base ro nv a =
     (let base = base + mr_addr i; ro = (ro \<or> mr_readonly i); nv = (nv \<or> mr_nonvolatile i)
      in if \<not> mr_enabled i \<or> \<not> (base \<le> a \<and> a < base + mr_size i) then None
         else case al of
             Some m \<Rightarrow> region_at m (base - mr_addr (mr_info m) - mr_alias_offset i) ro nv a
           | None \<Rightarrow> (case subregions_at subs base ro nv a of
                 Some h \<Rightarrow> Some h
               | None \<Rightarrow> if mr_terminates i
                   then Some \<lparr>hit_mr = i, hit_offset = a - base, hit_readonly = ro, hit_nonvolatile = nv\<rparr>
                   else None))"
| "subregions_at [] base ro nv a = None"
| "subregions_at (m # ms) base ro nv a =
     (case region_at m base ro nv a of Some h \<Rightarrow> Some h | None \<Rightarrow> subregions_at ms base ro nv a)"

definition range_hit :: "FlatRange \<Rightarrow> int \<Rightarrow> hit" where
  "range_hit r a = \<lparr>hit_mr = fr_mr r, hit_offset = fr_offset_in_region r + (a - ar_start (fr_addr r)),
     hit_readonly = fr_readonly r, hit_nonvolatile = fr_nonvolatile r\<rparr>"

definition flat_at :: "FlatView \<Rightarrow> int \<Rightarrow> hit option" where
  "flat_at view a = map_option (\<lambda>r. range_hit r a) (find (\<lambda>r. addrrange_contains (fr_addr r) a) view)"

text \<open>Views are sorted, their ranges disjoint and not empty.\<close>

definition view_ok :: "FlatView \<Rightarrow> bool" where
  "view_ok view \<longleftrightarrow> sorted_wrt (\<lambda>r r'. addrrange_end (fr_addr r) \<le> ar_start (fr_addr r')) view \<and>
     (\<forall>r\<in>set view. 0 < ar_size (fr_addr r))"

lemma flat_at_simps [simp]:
  "flat_at [] a = None"
  "flat_at (r # rs) a = (if addrrange_contains (fr_addr r) a then Some (range_hit r a) else flat_at rs a)"
  by (simp_all add: flat_at_def)

lemma view_ok_Nil [simp]: "view_ok []"
  by (simp add: view_ok_def)

lemma view_ok_Cons:
  "view_ok (r # rs) \<longleftrightarrow> 0 < ar_size (fr_addr r) \<and> view_ok rs \<and>
     (\<forall>r'\<in>set rs. addrrange_end (fr_addr r) \<le> ar_start (fr_addr r'))"
  by (auto simp: view_ok_def)

lemma view_ok_Cons_Cons:
  "view_ok (p # r # rs) \<longleftrightarrow> 0 < ar_size (fr_addr p) \<and> addrrange_end (fr_addr p) \<le> ar_start (fr_addr r) \<and> view_ok (r # rs)"
  by (fastforce simp: view_ok_Cons addrrange_end_def)

lemma flat_at_below:
  "\<forall>r\<in>set view. b \<le> ar_start (fr_addr r) \<Longrightarrow> a < b \<Longrightarrow> flat_at view a = None"
  by (induction view) (auto simp: addrrange_contains_def)

section \<open>Rendering into gaps\<close>

lemma render_gaps_0 [simp]: "render_gaps fr base offset 0 view = view"
  by (cases view) simp_all

text \<open>One round of the loop, by the position of the remaining part relative to the range.\<close>

lemma render_gaps_Cons:
  fixes fr r :: FlatRange and base offset remain :: int
  assumes "0 < ar_size (fr_addr r)" and "0 < remain"
  defines "piece \<equiv> \<lambda>n. fr\<lparr>fr_offset_in_region := offset, fr_addr := addrrange_make base n\<rparr>"
    and "s \<equiv> ar_start (fr_addr r)" and "e \<equiv> addrrange_end (fr_addr r)"
  shows "render_gaps fr base offset remain (r # rs) =
    (if base \<ge> e then r # render_gaps fr base offset remain rs
     else if base + remain \<le> s then piece remain # r # rs
     else (if base < s then [piece (s - base)] else []) @ r #
       (if base + remain \<le> e then rs else render_gaps fr e (offset + (e - base)) (base + remain - e) rs))"
proof -
  have se: "s < e" using assms(1) by (simp add: s_def e_def addrrange_end_def)
  consider "base \<ge> e" | "base < e" "base + remain \<le> s" | "base < s" "s < base + remain" "base + remain \<le> e"
    | "base < s" "e < base + remain" | "s \<le> base" "base < e" "base + remain \<le> e" | "s \<le> base" "base < e" "e < base + remain"
    using se by linarith
  then show ?thesis
  proof cases
    case 2
    then have "base < s" using assms(2) by linarith
    with 2 assms(2) se show ?thesis by (simp add: Let_def piece_def s_def e_def min_absorb1)
  next
    case 3
    then show ?thesis using se assms(2) by (simp add: Let_def piece_def s_def e_def min_absorb1 min_absorb2)
  next
    case 4
    then show ?thesis using se assms(2)
      by (simp add: Let_def piece_def s_def e_def min_absorb1 min_absorb2 algebra_simps)
  qed (use se assms(2) in \<open>simp_all add: Let_def piece_def s_def e_def min_absorb1 min_absorb2 algebra_simps\<close>)
qed

lemma set_render_gaps:
  assumes "view_ok view" and "0 \<le> remain" and "\<forall>r\<in>set view. b \<le> ar_start (fr_addr r)" and "b \<le> base"
  shows "\<forall>r\<in>set (render_gaps fr base offset remain view). b \<le> ar_start (fr_addr r)"
  using assms
proof (induction view arbitrary: base offset remain)
  case (Cons r rs)
  then have r: "0 < ar_size (fr_addr r)" "view_ok rs" "b \<le> addrrange_end (fr_addr r)"
    by (auto simp: view_ok_Cons addrrange_end_def)
  show ?case
  proof (cases "remain = 0")
    case False
    with Cons.prems(2) have "0 < remain" by simp
    moreover have "\<forall>r\<in>set (render_gaps fr base' offset' remain' rs). b \<le> ar_start (fr_addr r)"
      if "0 \<le> remain'" "b \<le> base'" for base' offset' remain'
      using Cons.IH [OF r(2) that(1) _ that(2)] Cons.prems(3) by simp
    from this [of remain base offset] this [of "base + remain - addrrange_end (fr_addr r)" "addrrange_end (fr_addr r)"
      "offset + (addrrange_end (fr_addr r) - base)"]
    show ?thesis using Cons.prems r(3) unfolding render_gaps_Cons [OF r(1) \<open>0 < remain\<close>]
      by (simp add: ball_Un del: render_gaps.simps)
  qed (use Cons.prems in simp)
qed simp

lemma render_gaps_spec:
  assumes "view_ok view" and "0 \<le> remain"
  shows "view_ok (render_gaps fr base offset remain view)"
    and "flat_at (render_gaps fr base offset remain view) a =
      (case flat_at view a of Some h \<Rightarrow> Some h
       | None \<Rightarrow> if base \<le> a \<and> a < base + remain
           then Some \<lparr>hit_mr = fr_mr fr, hit_offset = offset + (a - base), hit_readonly = fr_readonly fr,
             hit_nonvolatile = fr_nonvolatile fr\<rparr> else None)"
  using assms
proof (induction view arbitrary: base offset remain)
  case Nil
  {
    case 1 then show ?case by (simp add: view_ok_Cons)
  next
    case 2 then show ?case by (simp add: range_hit_def)
  }
next
  case (Cons r rs)
  let ?s = "ar_start (fr_addr r)" and ?e = "addrrange_end (fr_addr r)"
  let ?rest = "render_gaps fr ?e (offset + (?e - base)) (base + remain - ?e) rs"
  {
    case 1
    then have r: "0 < ar_size (fr_addr r)" "view_ok rs" "\<forall>r'\<in>set rs. ?e \<le> ar_start (fr_addr r')" "?s < ?e"
      by (simp_all add: view_ok_Cons addrrange_end_def)
    show ?case
    proof (cases "remain = 0")
      case False
      with 1 have pos: "0 < remain" by simp
      have later: "view_ok (r # render_gaps fr b off n rs)" if "?e \<le> b" "0 \<le> n" for b off n
        using Cons.IH(1) [OF r(2) that(2)] set_render_gaps [OF r(2) that(2) r(3) that(1)] r(1) by (simp add: view_ok_Cons)
      from later [of base remain offset] later [of ?e "base + remain - ?e" "offset + (?e - base)"] 1 r pos show ?thesis
        unfolding render_gaps_Cons [OF r(1) pos]
        by (simp add: view_ok_Cons_Cons del: render_gaps.simps)
    qed (use 1 in simp)
  next
    case 2
    then have r: "0 < ar_size (fr_addr r)" "view_ok rs" "\<forall>r'\<in>set rs. ?e \<le> ar_start (fr_addr r')" "?s < ?e"
      by (simp_all add: view_ok_Cons addrrange_end_def)
    have none: "flat_at rs a = None" if "a < ?e" using flat_at_below [OF r(3) that] .
    show ?case
    proof (cases "remain = 0")
      case False
      with 2 have pos: "0 < remain" by simp
      show ?thesis
        unfolding render_gaps_Cons [OF r(1) pos]
        using r pos none Cons.IH(2) [OF r(2)]
        by (auto simp: range_hit_def addrrange_contains_def simp del: render_gaps.simps split: option.split)
    qed (use 2 in \<open>auto split: option.split\<close>)
  }
qed
section \<open>The flat view of a tree\<close>

fun region_sized :: "MemoryRegion \<Rightarrow> bool"
  and regions_sized :: "MemoryRegion list \<Rightarrow> bool" where
  "region_sized (MemoryRegion i al subs) \<longleftrightarrow> 0 \<le> mr_size i \<and> mr_size i \<le> 2 ^ 64 \<and> (case al of None \<Rightarrow> True | Some m \<Rightarrow> region_sized m) \<and>
     regions_sized subs"
| "regions_sized [] \<longleftrightarrow> True"
| "regions_sized (m # ms) \<longleftrightarrow> region_sized m \<and> regions_sized ms"

definition shows_over :: "FlatView \<Rightarrow> AddrRange \<Rightarrow> (int \<Rightarrow> hit option) \<Rightarrow> FlatView \<Rightarrow> bool" where
  "shows_over view clip at view' \<longleftrightarrow> view_ok view' \<and>
     (\<forall>a. flat_at view' a = (case flat_at view a of Some h \<Rightarrow> Some h | None \<Rightarrow> if addrrange_contains clip a then at a else None))"

lemma shows_over_refl:
  "view_ok view \<Longrightarrow> (\<And>a. addrrange_contains clip a \<Longrightarrow> at a = None) \<Longrightarrow> shows_over view clip at view"
  by (auto simp: shows_over_def split: option.split)

lemma shows_over_trans:
  assumes "shows_over view clip f view'" and "shows_over view' clip g view''"
  shows "shows_over view clip (\<lambda>a. case f a of Some h \<Rightarrow> Some h | None \<Rightarrow> g a) view''"
  using assms by (auto simp: shows_over_def split: option.splits)

lemma shows_over_clip:
  assumes "shows_over view (addrrange_intersection tmp clip) f view'"
    and "\<And>a. addrrange_contains clip a \<Longrightarrow> g a = (if addrrange_contains tmp a then f a else None)"
  shows "shows_over view clip g view'"
  using assms by (auto simp: shows_over_def split: option.splits)

lemma shows_over_render_gaps:
  assumes "view_ok view" and "0 \<le> ar_size clip"
  shows "shows_over view clip
    (\<lambda>a. Some \<lparr>hit_mr = fr_mr fr, hit_offset = a - base, hit_readonly = fr_readonly fr, hit_nonvolatile = fr_nonvolatile fr\<rparr>)
    (render_gaps fr (ar_start clip) (ar_start clip - base) (ar_size clip) view)"
  using render_gaps_spec [OF assms]
  by (auto simp: shows_over_def addrrange_contains_def addrrange_end_def split: option.split)

lemma render_subregions_shows:
  assumes "\<And>m base clip ro nv um view. \<lbrakk>m \<in> set ms; view_ok view; 0 \<le> ar_size clip; region_sized m\<rbrakk> \<Longrightarrow>
      shows_over view clip (region_at m base ro nv) (render_memory_region m base clip ro nv um view)"
    and "view_ok view" and "0 \<le> ar_size clip" and "regions_sized ms"
  shows "shows_over view clip (subregions_at ms base ro nv) (render_subregions ms base clip ro nv um view)"
  using assms
proof (induction ms arbitrary: view)
  case (Cons m ms)
  then have first: "shows_over view clip (region_at m base ro nv) (render_memory_region m base clip ro nv um view)" by simp
  then have "view_ok (render_memory_region m base clip ro nv um view)" by (simp add: shows_over_def)
  with Cons have "shows_over (render_memory_region m base clip ro nv um view) clip (subregions_at ms base ro nv)
    (render_subregions ms base clip ro nv um (render_memory_region m base clip ro nv um view))" by simp
  from shows_over_trans [OF first this] show ?case by (simp add: subregions_at.simps(2) [abs_def] cong: option.case_cong)
qed (simp add: shows_over_refl)

lemma render_shows:
  "\<lbrakk>view_ok view; 0 \<le> ar_size clip; region_sized mr\<rbrakk> \<Longrightarrow>
     shows_over view clip (region_at mr base ro nv) (render_memory_region mr base clip ro nv um view)"
proof (induction mr arbitrary: base clip ro nv um view)
  case (MemoryRegion i al subs)
  let ?b = "base + mr_addr i" and ?ro = "ro \<or> mr_readonly i" and ?nv = "nv \<or> mr_nonvolatile i"
  let ?tmp = "addrrange_make ?b (mr_size i)"
  let ?clip = "addrrange_intersection ?tmp clip"
  let ?subs = "render_subregions subs ?b ?clip ?ro ?nv (um \<or> mr_unmergeable i) view"
  show ?case
  proof (cases "mr_enabled i \<and> addrrange_intersects ?tmp clip")
    case False
    then have "region_at (MemoryRegion i al subs) base ro nv a = None" if "addrrange_contains clip a" for a
      using not_intersects [of ?tmp clip a] that by (auto simp: Let_def)
    with False MemoryRegion.prems(1) show ?thesis by (auto intro: shows_over_refl simp: Let_def)
  next
    case True
    then have on: "mr_enabled i" "addrrange_intersects ?tmp clip" by simp_all
    with MemoryRegion.prems have sz: "0 \<le> ar_size ?clip" by (auto intro: intersection_size)
    show ?thesis
    proof (cases al)
      case (Some m)
      with MemoryRegion.IH(1) [of m] MemoryRegion.prems sz
      have "shows_over view ?clip (region_at m (?b - mr_addr (mr_info m) - mr_alias_offset i) ?ro ?nv)
        (render_memory_region m (?b - mr_addr (mr_info m) - mr_alias_offset i) ?clip ?ro ?nv (um \<or> mr_unmergeable i) view)" by simp
      from shows_over_clip [OF this] on Some show ?thesis by (simp add: Let_def)
    next
      case None
      from MemoryRegion.IH(2) MemoryRegion.prems sz
      have subs: "shows_over view ?clip (subregions_at subs ?b ?ro ?nv) ?subs"
        by (intro render_subregions_shows) simp_all
      then have "view_ok ?subs" by (simp add: shows_over_def)
      note gaps = shows_over_trans [OF subs shows_over_render_gaps [OF this sz, where base = ?b]]
      from shows_over_clip [OF subs] shows_over_clip [OF gaps] on None show ?thesis
        by (simp add: Let_def split: option.split)
    qed
  qed
qed

section \<open>Merging neighbours\<close>

text \<open>While ranges are merged, the grown range and the last one merged show the same things.\<close>

definition same_run :: "FlatRange \<Rightarrow> FlatRange \<Rightarrow> bool" where
  "same_run acc prev \<longleftrightarrow> range_hit acc = range_hit prev \<and> addrrange_end (fr_addr acc) = addrrange_end (fr_addr prev)"

lemma same_run_refl [simp]: "same_run r r"
  by (simp add: same_run_def)

lemma range_hit_eq_iff:
  "range_hit r = range_hit r' \<longleftrightarrow> fr_mr r = fr_mr r' \<and> fr_readonly r = fr_readonly r' \<and> fr_nonvolatile r = fr_nonvolatile r' \<and>
     fr_offset_in_region r - ar_start (fr_addr r) = fr_offset_in_region r' - ar_start (fr_addr r')"
  by (auto simp: range_hit_def fun_eq_iff)

lemma merge_one:
  fixes acc prev r :: FlatRange
  assumes "same_run acc prev" and "can_merge prev r" and "view_ok (acc # r # rs)"
  defines "acc' \<equiv> acc\<lparr>fr_addr := (fr_addr acc)\<lparr>ar_size := ar_size (fr_addr acc) + ar_size (fr_addr r)\<rparr>\<rparr>"
  shows "same_run acc' r" and "view_ok (acc' # rs)" and "flat_at (acc' # rs) a = flat_at (acc # r # rs) a"
    and "ar_start (fr_addr acc') = ar_start (fr_addr acc)"
proof -
  have hits: "range_hit acc' = range_hit r" "range_hit acc' = range_hit acc"
    using assms(1,2) by (auto simp: same_run_def can_merge_def range_hit_eq_iff acc'_def addrrange_end_def)
  have ends: "addrrange_end (fr_addr acc) = ar_start (fr_addr r)" "addrrange_end (fr_addr acc') = addrrange_end (fr_addr r)"
    using assms(1,2) by (auto simp: same_run_def can_merge_def acc'_def addrrange_end_def)
  show "same_run acc' r" using hits ends by (simp add: same_run_def)
  show start: "ar_start (fr_addr acc') = ar_start (fr_addr acc)" by (simp add: acc'_def)
  show "view_ok (acc' # rs)" using assms(3) ends by (auto simp: view_ok_Cons acc'_def)
  show "flat_at (acc' # rs) a = flat_at (acc # r # rs) a"
    using hits ends start assms(3) by (auto simp: addrrange_contains_def view_ok_Cons addrrange_end_def)
qed

lemma merge_run_spec:
  assumes "same_run acc prev" and "view_ok (acc # rs)"
  shows "view_ok (fst (merge_run acc prev rs) # snd (merge_run acc prev rs)) \<and>
    flat_at (fst (merge_run acc prev rs) # snd (merge_run acc prev rs)) a = flat_at (acc # rs) a \<and>
    ar_start (fr_addr (fst (merge_run acc prev rs))) = ar_start (fr_addr acc) \<and>
    set (snd (merge_run acc prev rs)) \<subseteq> set rs"
  using assms
proof (induction acc prev rs rule: merge_run.induct)
  case (2 acc prev r rs)
  show ?case
  proof (cases "can_merge prev r")
    case True
    note m = merge_one [OF "2.prems"(1) True "2.prems"(2)]
    from "2.IH" [OF True m(1,2)] m(3,4) True show ?thesis by (auto simp del: flat_at_simps)
  qed (use 2 in simp)
qed simp

lemma flatview_simplify_starts:
  "view_ok view \<Longrightarrow> (\<lambda>r. ar_start (fr_addr r)) ` set (flatview_simplify view) \<subseteq> (\<lambda>r. ar_start (fr_addr r)) ` set view"
proof (induction view rule: flatview_simplify.induct)
  case (2 r rs)
  note m = merge_run_spec [OF same_run_refl "2.prems"]
  then have "view_ok (snd (merge_run r r rs))" by (simp add: view_ok_Cons)
  from "2.IH" [OF this] have "(\<lambda>r. ar_start (fr_addr r)) ` set (flatview_simplify (snd (merge_run r r rs))) \<subseteq>
    (\<lambda>r. ar_start (fr_addr r)) ` set rs" using m by (meson image_mono order_trans)
  with m show ?case by auto
qed simp

lemma flatview_simplify_spec:
  "view_ok view \<Longrightarrow> view_ok (flatview_simplify view) \<and> flat_at (flatview_simplify view) a = flat_at view a"
proof (induction view rule: flatview_simplify.induct)
  case (2 r rs)
  note m = merge_run_spec [OF same_run_refl "2.prems", of a]
  then have rest: "view_ok (snd (merge_run r r rs))" by (simp add: view_ok_Cons)
  have "addrrange_end (fr_addr (fst (merge_run r r rs))) \<le> ar_start (fr_addr r')" if "r' \<in> set (flatview_simplify (snd (merge_run r r rs)))" for r'
    using flatview_simplify_starts [OF rest] that m by (force simp: view_ok_Cons)
  with "2.IH" [OF rest] m show ?case by (simp add: view_ok_Cons split: if_splits)
qed simp

theorem generate_memory_topology_shows:
  assumes "region_sized mr"
  shows "view_ok (generate_memory_topology (Some mr))"
    and "flat_at (generate_memory_topology (Some mr)) a = (if 0 \<le> a \<and> a < 2 ^ 64 then region_at mr 0 False False a else None)"
proof -
  have "shows_over [] (addrrange_make 0 (2 ^ 64)) (region_at mr 0 False False)
    (render_memory_region mr 0 (addrrange_make 0 (2 ^ 64)) False False False [])"
    using assms by (intro render_shows) simp_all
  then show "view_ok (generate_memory_topology (Some mr))"
    and "flat_at (generate_memory_topology (Some mr)) a = (if 0 \<le> a \<and> a < 2 ^ 64 then region_at mr 0 False False a else None)"
    using flatview_simplify_spec by (auto simp: shows_over_def generate_memory_topology_def)
qed

section \<open>Binary search\<close>

lemma bsearch_spec:
  assumes "\<And>i j. \<lbrakk>i < j; j < length xs; cmp key (xs ! j) > 0\<rbrakk> \<Longrightarrow> cmp key (xs ! i) > 0"
    and "\<And>i j. \<lbrakk>i < j; j < length xs; cmp key (xs ! i) < 0\<rbrakk> \<Longrightarrow> cmp key (xs ! j) < 0"
    and "u \<le> length xs"
  shows "case bsearch cmp key xs l u of
      Some i \<Rightarrow> l \<le> i \<and> i < u \<and> cmp key (xs ! i) = 0
    | None \<Rightarrow> \<forall>i. l \<le> i \<and> i < u \<longrightarrow> cmp key (xs ! i) \<noteq> 0"
  using assms(3)
proof (induction "u - l" arbitrary: l u rule: less_induct)
  case less
  let ?idx = "(l + u) div 2" and ?c = "cmp key (xs ! ((l + u) div 2))"
  show ?case
  proof (cases "l < u")
    case True
    then have idx: "l \<le> ?idx" "?idx < u" by auto
    consider "?c < 0" | "?c > 0" | "?c = 0" by linarith
    then show ?thesis
    proof cases
      case 1
      have "cmp key (xs ! i) \<noteq> 0" if "?idx \<le> i" "i < u" for i
        using assms(2) [of ?idx i] 1 that less.prems by (cases "i = ?idx") auto
      moreover have "bsearch cmp key xs l u = bsearch cmp key xs l ?idx"
        using True 1 by (simp add: bsearch.simps [of cmp key xs l u] Let_def)
      moreover have "case bsearch cmp key xs l ?idx of Some i \<Rightarrow> l \<le> i \<and> i < ?idx \<and> cmp key (xs ! i) = 0
          | None \<Rightarrow> \<forall>i. l \<le> i \<and> i < ?idx \<longrightarrow> cmp key (xs ! i) \<noteq> 0"
        using less.hyps [of ?idx l] less.prems idx by simp
      ultimately show ?thesis using idx by (auto split: option.splits) (meson not_le)
    next
      case 2
      have "cmp key (xs ! i) \<noteq> 0" if "l \<le> i" "i < ?idx + 1" for i
        using assms(1) [of i ?idx] 2 that less.prems idx by (cases "i = ?idx") auto
      moreover have "bsearch cmp key xs l u = bsearch cmp key xs (?idx + 1) u"
        using True 2 by (simp add: bsearch.simps [of cmp key xs l u] Let_def)
      moreover have "case bsearch cmp key xs (?idx + 1) u of Some i \<Rightarrow> ?idx + 1 \<le> i \<and> i < u \<and> cmp key (xs ! i) = 0
          | None \<Rightarrow> \<forall>i. ?idx + 1 \<le> i \<and> i < u \<longrightarrow> cmp key (xs ! i) \<noteq> 0"
        using less.hyps [of u "?idx + 1"] less.prems idx by simp
      ultimately show ?thesis using idx by (auto split: option.splits) (metis leI)
    qed (use True idx in \<open>simp add: bsearch.simps [of cmp key xs l u] Let_def\<close>)
  qed (simp add: bsearch.simps [of cmp key xs l u])
qed

text \<open>On a view that is in order, the search for a range finds one that intersects it, if there is one.\<close>

lemma view_ok_nth:
  assumes "view_ok view" and "i < j" and "j < length view"
  shows "addrrange_end (fr_addr (view ! i)) \<le> ar_start (fr_addr (view ! j))"
    and "ar_start (fr_addr (view ! i)) < ar_start (fr_addr (view ! j))"
    and "addrrange_end (fr_addr (view ! i)) < addrrange_end (fr_addr (view ! j))"
proof -
  have pos: "0 < ar_size (fr_addr (view ! i))" "0 < ar_size (fr_addr (view ! j))"
    using assms by (auto simp: view_ok_def)
  show le: "addrrange_end (fr_addr (view ! i)) \<le> ar_start (fr_addr (view ! j))"
    using assms by (auto simp: view_ok_def sorted_wrt_iff_nth_less)
  then show "ar_start (fr_addr (view ! i)) < ar_start (fr_addr (view ! j))"
    and "addrrange_end (fr_addr (view ! i)) < addrrange_end (fr_addr (view ! j))"
    using pos by (auto simp: addrrange_end_def)
qed

lemma cmp_zero_iff:
  "\<lbrakk>0 < ar_size rng; 0 < ar_size (fr_addr fr)\<rbrakk> \<Longrightarrow> cmp_flatrange_addr rng fr = 0 \<longleftrightarrow> addrrange_intersects (fr_addr fr) rng"
  by (auto simp: cmp_flatrange_addr_def addrrange_intersects_def addrrange_contains_def addrrange_end_def)

lemma flatview_lookup_spec:
  assumes "view_ok view" and "0 < ar_size rng"
  shows "case flatview_lookup view rng of
      Some i \<Rightarrow> i < length view \<and> addrrange_intersects (fr_addr (view ! i)) rng
    | None \<Rightarrow> \<forall>r\<in>set view. \<not> addrrange_intersects (fr_addr r) rng"
proof -
  have zero: "cmp_flatrange_addr rng (view ! i) = 0 \<longleftrightarrow> addrrange_intersects (fr_addr (view ! i)) rng" if "i < length view" for i
    using assms that by (intro cmp_zero_iff) (auto simp: view_ok_def)
  have "case flatview_lookup view rng of Some i \<Rightarrow> 0 \<le> i \<and> i < length view \<and> cmp_flatrange_addr rng (view ! i) = 0
    | None \<Rightarrow> \<forall>i. 0 \<le> i \<and> i < length view \<longrightarrow> cmp_flatrange_addr rng (view ! i) \<noteq> 0"
    unfolding flatview_lookup_def
  proof (rule bsearch_spec)
    fix i j assume ij: "i < j" "j < length view"
    note v = view_ok_nth [OF assms(1) ij]
    show "cmp_flatrange_addr rng (view ! j) > 0 \<Longrightarrow> cmp_flatrange_addr rng (view ! i) > 0"
      and "cmp_flatrange_addr rng (view ! i) < 0 \<Longrightarrow> cmp_flatrange_addr rng (view ! j) < 0"
      using v assms(2) by (auto simp: cmp_flatrange_addr_def addrrange_end_def split: if_splits)
  qed simp
  with zero show ?thesis by (auto simp: in_set_conv_nth split: option.splits)
qed

lemma flat_at_nth:
  assumes "view_ok view" and "i < length view" and "addrrange_contains (fr_addr (view ! i)) a"
  shows "flat_at view a = Some (range_hit (view ! i) a)"
  using assms
proof (induction view arbitrary: i)
  case (Cons r rs)
  show ?case
  proof (cases i)
    case (Suc k)
    with Cons.prems have "\<not> addrrange_contains (fr_addr r) a" by (fastforce simp: view_ok_Cons addrrange_contains_def dest: bspec [OF _ nth_mem [of k rs]])
    with Cons Suc show ?thesis by (simp add: view_ok_Cons)
  qed (use Cons in simp)
qed simp

lemma flat_at_None: "flat_at view a = None \<longleftrightarrow> (\<forall>r\<in>set view. \<not> addrrange_contains (fr_addr r) a)"
  by (induction view) auto

lemma intersects_byte [simp]: "0 < ar_size r \<Longrightarrow> addrrange_intersects r (addrrange_make a 1) \<longleftrightarrow> addrrange_contains r a"
  by (auto simp: addrrange_intersects_def addrrange_contains_def addrrange_end_def)

lemma find_first_byte:
  assumes "view_ok view" and "i < length view" and "addrrange_contains (fr_addr (view ! i)) a"
  shows "find_first view (addrrange_make a 1) i = i"
proof (cases i)
  case (Suc k)
  with view_ok_nth(1) [OF assms(1), of k i] assms have "\<not> addrrange_contains (fr_addr (view ! k)) a"
    by (auto simp: addrrange_contains_def)
  moreover have "0 < ar_size (fr_addr (view ! k))" using assms Suc by (simp add: view_ok_def)
  ultimately show ?thesis using Suc by simp
qed simp

definition hit_section :: "int \<Rightarrow> hit \<Rightarrow> MemoryRegionSection" where
  "hit_section a h = \<lparr>sec_mr = hit_mr h, offset_within_region = hit_offset h, sec_size = 1, offset_within_address_space = a,
     sec_readonly = hit_readonly h, sec_nonvolatile = hit_nonvolatile h\<rparr>"

lemma memory_region_find_byte:
  assumes "view_ok view"
  shows "memory_region_find_rcu view a 1 = map_option (hit_section (uint a)) (flat_at view (uint a))"
proof (cases "flatview_lookup view (addrrange_make (uint a) 1)")
  case None
  with flatview_lookup_spec [OF assms, of "addrrange_make (uint a) 1"] assms have "flat_at view (uint a) = None"
    by (auto simp: flat_at_None view_ok_def)
  with None show ?thesis by (simp add: memory_region_find_rcu_def)
next
  case (Some i)
  with flatview_lookup_spec [OF assms, of "addrrange_make (uint a) 1"] assms
  have i: "i < length view" "addrrange_contains (fr_addr (view ! i)) (uint a)" by (auto simp: view_ok_def)
  then have "ar_start (addrrange_intersection (addrrange_make (uint a) 1) (fr_addr (view ! i))) = uint a"
    and "ar_size (addrrange_intersection (addrrange_make (uint a) 1) (fr_addr (view ! i))) = 1"
    by (auto simp: addrrange_intersection_def addrrange_contains_def Let_def)
  with Some i assms show ?thesis
    by (simp add: memory_region_find_rcu_def find_first_byte flat_at_nth Let_def hit_section_def range_hit_def)
qed


section \<open>Trees built by the board code\<close>

lemma region_sized_set_info [simp]:
  "(\<And>i. mr_size (f i) = mr_size i) \<Longrightarrow> region_sized (set_info f mr) \<longleftrightarrow> region_sized mr"
  by (cases mr) (simp add: set_info_def)

lemma regions_sized_update [simp]:
  "regions_sized (memory_region_update_container_subregions m ms) \<longleftrightarrow> region_sized m \<and> regions_sized ms"
  by (induction ms) auto

lemma uint_le_64: "uint (w :: u64) \<le> 18446744073709551616"
  using uint_lt2p [of w] by simp

lemma region_sized_init [simp]:
  "region_sized (memory_region_init owner name sz)" "region_sized (memory_region_init_io owner name sz)"
  "region_sized (memory_region_init_ram owner name sz)" "region_sized (memory_region_init_rom owner name sz)"
  "region_sized (memory_region_init_alias owner name orig offset sz) \<longleftrightarrow> region_sized orig"
  by (simp_all add: memory_region_init_def memory_region_init_io_def memory_region_init_ram_def memory_region_init_rom_def
      memory_region_init_alias_def uint_le_64)

lemma region_sized_add [simp]:
  "region_sized (memory_region_add_subregion_overlap mr offset m p) \<longleftrightarrow> region_sized mr \<and> region_sized m"
  "region_sized (memory_region_add_subregion mr offset m) \<longleftrightarrow> region_sized mr \<and> region_sized m"
  by (cases mr; auto simp: memory_region_add_subregion_overlap_def memory_region_add_subregion_def
      memory_region_add_subregion_common_def Let_def)+

text \<open>Subregions stay ordered by falling priority.\<close>

abbreviation region_priority :: "MemoryRegion \<Rightarrow> int" where
  "region_priority m \<equiv> mr_priority (mr_info m)"

lemma set_update_container [simp]:
  "set (memory_region_update_container_subregions m ms) = insert m (set ms)"
  by (induction ms) auto

lemma priority_sorted_update:
  "sorted_wrt (\<lambda>m m'. region_priority m \<ge> region_priority m') ms \<Longrightarrow>
   sorted_wrt (\<lambda>m m'. region_priority m \<ge> region_priority m') (memory_region_update_container_subregions m ms)"
  by (induction ms) fastforce+

lemma priority_sorted_add:
  "sorted_wrt (\<lambda>m m'. region_priority m \<ge> region_priority m') (mr_subregions mr) \<Longrightarrow>
   sorted_wrt (\<lambda>m m'. region_priority m \<ge> region_priority m') (mr_subregions (memory_region_add_subregion_overlap mr offset m p))"
  by (simp add: memory_region_add_subregion_overlap_def memory_region_add_subregion_common_def priority_sorted_update Let_def)

lemma subregions_at_Some:
  assumes "sorted_wrt (\<lambda>m m'. region_priority m \<ge> region_priority m') ms" and "subregions_at ms base ro nv a = Some h"
  shows "\<exists>m\<in>set ms. region_at m base ro nv a = Some h \<and>
    (\<forall>m'\<in>set ms. region_at m' base ro nv a \<noteq> None \<longrightarrow> region_priority m' \<le> region_priority m)"
  using assms
proof (induction ms)
  case (Cons m ms)
  show ?case
  proof (cases "region_at m base ro nv a")
    case None
    with Cons obtain m' where "m' \<in> set ms" "region_at m' base ro nv a = Some h"
      "\<forall>m''\<in>set ms. region_at m'' base ro nv a \<noteq> None \<longrightarrow> region_priority m'' \<le> region_priority m'" by auto
    with None show ?thesis by (intro bexI [of _ m']) simp_all
  qed (use Cons.prems in auto)
qed simp

definition add_all :: "MemoryRegion \<Rightarrow> (u64 \<times> MemoryRegion \<times> int) list \<Rightarrow> MemoryRegion" where
  "add_all mr adds = foldl (\<lambda>c (offset, m, p). memory_region_add_subregion_overlap c offset m p) mr adds"

lemma priority_sorted_add_all:
  "sorted_wrt (\<lambda>m m'. region_priority m \<ge> region_priority m') (mr_subregions mr) \<Longrightarrow>
   sorted_wrt (\<lambda>m m'. region_priority m \<ge> region_priority m') (mr_subregions (add_all mr adds))"
  unfolding add_all_def by (induction adds arbitrary: mr) (auto simp: priority_sorted_add)

section \<open>Correctness of the flat view\<close>

definition demo_tree :: MemoryRegion where
  "demo_tree = memory_region_add_subregion
     (memory_region_add_subregion_overlap (memory_region_init '''' ''sys'' (- 1)) 0x2000
       (memory_region_init_alias '''' ''window'' (memory_region_init_ram '''' ''ram'' 0x4000) 0x1000 0x1000) (- 1))
     0x2800 (memory_region_init_io '''' ''uart'' 0x100)"

lemmas tree_defs = memory_region_add_subregion_overlap_def memory_region_add_subregion_def memory_region_add_subregion_common_def
  memory_region_init_def memory_region_init_io_def memory_region_init_ram_def memory_region_init_rom_def
  memory_region_init_alias_def memory_region_set_enabled_def set_info_def Let_def

text \<open>
  C12: At every address the flattened view of a tree shows the region, the offset in it and the
  protection that the tree shows there: the first subregion in priority order that is enabled and
  covers the address, followed through aliases, and the container itself only where no subregion
  does.  The view is sorted, its ranges are not empty and do not overlap.
\<close>

theorem memory_flat_view_shows_tree:
  assumes "region_sized mr"
  shows "view_ok (generate_memory_topology (Some mr)) \<and>
    flat_at (generate_memory_topology (Some mr)) a = (if 0 \<le> a \<and> a < 2 ^ 64 then region_at mr 0 False False a else None)"
  using generate_memory_topology_shows [OF assms] by blast

abbreviation place :: "hit \<Rightarrow> string \<times> int" where
  "place h \<equiv> (snd (mr_id (hit_mr h)), hit_offset h)"

theorem memory_flat_view_shows_tree_witness:
  "map_option place (flat_at (generate_memory_topology (Some demo_tree)) 0x2400) = Some (''ram'', 0x1400) \<and>
   map_option place (flat_at (generate_memory_topology (Some demo_tree)) 0x2810) = Some (''uart'', 0x10)"
  using memory_flat_view_shows_tree [of demo_tree "0x2400"] memory_flat_view_shows_tree [of demo_tree "0x2810"]
  by (simp add: demo_tree_def) (simp add: tree_defs)

text \<open>
  C13: Looking up one byte by binary search in the flattened view finds the region the tree shows at
  that address, with the offset in it, and finds nothing exactly where the tree shows nothing.
\<close>

theorem memory_find_byte_of_tree:
  assumes "region_sized mr"
  shows "memory_region_find_rcu (generate_memory_topology (Some mr)) a 1 =
    map_option (hit_section (uint a)) (region_at mr 0 False False (uint a))"
proof -
  have "uint a < 2 ^ 64" using uint_lt2p [of a] by simp
  then show ?thesis
    using generate_memory_topology_shows [OF assms] by (simp add: memory_region_find_byte)
qed

theorem memory_find_byte_of_tree_witness:
  "map_option (\<lambda>sec. (mr_id (sec_mr sec), offset_within_region sec))
     (memory_region_find_rcu (generate_memory_topology (Some demo_tree)) 0x28ff 1) = Some (('''', ''uart''), 0xff) \<and>
   memory_region_find_rcu (generate_memory_topology (Some demo_tree)) 0x3000 1 = None"
  using memory_find_byte_of_tree [of demo_tree "0x28ff"] memory_find_byte_of_tree [of demo_tree "0x3000"]
  by (simp add: demo_tree_def) (simp add: tree_defs hit_section_def)

text \<open>
  C14: Where several subregions of a container cover an address, in whatever order and with whatever
  priorities they were added, the one that shows has the greatest priority of those that would show
  something there.
\<close>

theorem memory_greatest_priority_shows:
  assumes "subregions_at (mr_subregions (add_all (memory_region_init owner name sz) adds)) base ro nv a = Some h"
  shows "\<exists>m\<in>set (mr_subregions (add_all (memory_region_init owner name sz) adds)). region_at m base ro nv a = Some h \<and>
    (\<forall>m'\<in>set (mr_subregions (add_all (memory_region_init owner name sz) adds)).
      region_at m' base ro nv a \<noteq> None \<longrightarrow> region_priority m' \<le> region_priority m)"
proof -
  have "mr_subregions (memory_region_init owner name sz) = []" by (simp add: memory_region_init_def)
  with priority_sorted_add_all [of "memory_region_init owner name sz" adds] assms show ?thesis
    by (intro subregions_at_Some) simp_all
qed

theorem memory_greatest_priority_shows_witness:
  "\<exists>m\<in>set (mr_subregions (add_all (memory_region_init '''' ''c'' 16)
      [(0, memory_region_init_ram '''' ''b'' 8, 1), (0, memory_region_init_ram '''' ''a'' 8, 0)])).
     map_option place (region_at m 0 False False 5) = Some (''b'', 5)"
proof -
  have "map_option place (subregions_at (mr_subregions (add_all (memory_region_init '''' ''c'' 16)
      [(0, memory_region_init_ram '''' ''b'' 8, 1), (0, memory_region_init_ram '''' ''a'' 8, 0)])) 0 False False 5) = Some (''b'', 5)"
    by (simp add: add_all_def tree_defs)
  then obtain h where "subregions_at (mr_subregions (add_all (memory_region_init '''' ''c'' 16)
      [(0, memory_region_init_ram '''' ''b'' 8, 1), (0, memory_region_init_ram '''' ''a'' 8, 0)])) 0 False False 5 = Some h"
    "place h = (''b'', 5)" by auto
  from memory_greatest_priority_shows [OF this(1)] this(2) show ?thesis by force
qed

end
