(* ===== verification/Mem_Dispatch.thy ===== *)
theory Mem_Dispatch
  imports Mem_Region
begin

text \<open>
  How an access to a region reaches the device behind it (\<open>system/memory.c\<close>): the checks of
  \<open>memory_region_access_valid\<close>, the splitting of an access into parts of the size the device
  implements, and the byte order.

  \<open>MemoryRegionOps\<close> holds the callbacks of a device; \<open>read\<close> and \<open>write\<close> stand for either kind of
  callback, the one without attributes reporting \<open>MEMTX_OK\<close>.  The target is little-endian.  The callbacks of a region
  are given by a function on regions.  There are no eventfds (\<open>ioeventfd_nb\<close> is 0) and no callback issues
  a memory access, so the guard against re-entrant accesses is a fixed value during an access.
\<close>

section \<open>Results and attributes\<close>

record MemTxAttrs =
  at_secure :: bool
  at_user :: bool

type_synonym MemTxResult = u32

definition MEMTX_OK :: MemTxResult where "MEMTX_OK = 0"
definition MEMTX_ERROR :: MemTxResult where "MEMTX_ERROR = 1"
definition MEMTX_DECODE_ERROR :: MemTxResult where "MEMTX_DECODE_ERROR = 2"
definition MEMTX_ACCESS_ERROR :: MemTxResult where "MEMTX_ACCESS_ERROR = 4"

lemma MEMTX_distinct [simp]:
  "MEMTX_OK \<noteq> MEMTX_ERROR" "MEMTX_ERROR \<noteq> MEMTX_OK" "MEMTX_OK \<noteq> MEMTX_DECODE_ERROR" "MEMTX_DECODE_ERROR \<noteq> MEMTX_OK"
  "MEMTX_OK \<noteq> MEMTX_ACCESS_ERROR" "MEMTX_ACCESS_ERROR \<noteq> MEMTX_OK"
  by (simp_all add: MEMTX_OK_def MEMTX_ERROR_def MEMTX_DECODE_ERROR_def MEMTX_ACCESS_ERROR_def)

lemma MEMTX_OK_or [simp]: "MEMTX_OK OR r = r" "r OR MEMTX_OK = r"
  by (simp_all add: MEMTX_OK_def)

section \<open>Callbacks of a device\<close>

datatype device_endian = DEVICE_NATIVE_ENDIAN | DEVICE_BIG_ENDIAN | DEVICE_LITTLE_ENDIAN

record 's MemoryRegionOps =
  ops_read :: "u64 \<Rightarrow> nat \<Rightarrow> MemTxAttrs \<Rightarrow> 's \<Rightarrow> (MemTxResult \<times> u64 \<times> 's) res"
  ops_write :: "u64 \<Rightarrow> u64 \<Rightarrow> nat \<Rightarrow> MemTxAttrs \<Rightarrow> 's \<Rightarrow> (MemTxResult \<times> 's) res"
  endianness :: device_endian
  valid_min_access_size :: nat
  valid_max_access_size :: nat
  valid_unaligned :: bool
  valid_accepts :: "(u64 \<Rightarrow> nat \<Rightarrow> bool \<Rightarrow> MemTxAttrs \<Rightarrow> bool) option"
  impl_min_access_size :: nat
  impl_max_access_size :: nat
  impl_unaligned :: bool

definition devend_big_endian :: "device_endian \<Rightarrow> bool" where
  "devend_big_endian e \<longleftrightarrow> (if e = DEVICE_NATIVE_ENDIAN then False else e = DEVICE_BIG_ENDIAN)"

definition unassigned_mem_read :: "u64 \<Rightarrow> nat \<Rightarrow> u64" where
  "unassigned_mem_read addr sz = 0"

definition unassigned_mem_accepts :: "u64 \<Rightarrow> nat \<Rightarrow> bool \<Rightarrow> MemTxAttrs \<Rightarrow> bool" where
  "unassigned_mem_accepts addr sz is_write attrs \<longleftrightarrow> False"

definition unassigned_mem_ops :: "'s MemoryRegionOps" where
  "unassigned_mem_ops = \<lparr>ops_read = \<lambda>_ _ _ s. Inr (MEMTX_OK, 0, s), ops_write = \<lambda>_ _ _ _ s. Inr (MEMTX_OK, s),
     endianness = DEVICE_NATIVE_ENDIAN, valid_min_access_size = 0, valid_max_access_size = 0, valid_unaligned = False,
     valid_accepts = Some unassigned_mem_accepts, impl_min_access_size = 0, impl_max_access_size = 0,
     impl_unaligned = False\<rparr>"

section \<open>One access\<close>

definition memory_region_access_valid :: "'s MemoryRegionOps \<Rightarrow> u64 \<Rightarrow> nat \<Rightarrow> bool \<Rightarrow> MemTxAttrs \<Rightarrow> bool" where
  "memory_region_access_valid ops addr sz is_write attrs \<longleftrightarrow>
     (if (case valid_accepts ops of Some acc \<Rightarrow> \<not> acc addr sz is_write attrs | None \<Rightarrow> False) then False
      else if \<not> valid_unaligned ops \<and> addr AND (word_of_nat sz - 1) \<noteq> 0 then False
      else if valid_max_access_size ops = 0 then True
      else if sz > valid_max_access_size ops \<or> sz < valid_min_access_size ops then False
      else True)"

definition memory_region_shift_read_access :: "u64 \<Rightarrow> int \<Rightarrow> u64 \<Rightarrow> u64 \<Rightarrow> u64" where
  "memory_region_shift_read_access v shift msk tmp =
     (if shift \<ge> 0 then v OR push_bit (nat shift) (tmp AND msk) else v OR drop_bit (nat (- shift)) (tmp AND msk))"

definition memory_region_shift_write_access :: "u64 \<Rightarrow> int \<Rightarrow> u64 \<Rightarrow> u64" where
  "memory_region_shift_write_access v shift msk =
     (if shift \<ge> 0 then drop_bit (nat shift) v AND msk else push_bit (nat (- shift)) v AND msk)"

text \<open>An accessor: address, value, size, shift and mask to the result, the value and the new state.\<close>

type_synonym 's accessor = "u64 \<Rightarrow> u64 \<Rightarrow> nat \<Rightarrow> int \<Rightarrow> u64 \<Rightarrow> 's \<Rightarrow> (MemTxResult \<times> u64 \<times> 's) res"

definition memory_region_read_with_attrs_accessor :: "'s MemoryRegionOps \<Rightarrow> MemTxAttrs \<Rightarrow> 's accessor" where
  "memory_region_read_with_attrs_accessor ops attrs addr v sz shift msk s =
     res_bind (ops_read ops addr sz attrs s) (\<lambda>(r, tmp, s). Inr (r, memory_region_shift_read_access v shift msk tmp, s))"

definition memory_region_write_with_attrs_accessor :: "'s MemoryRegionOps \<Rightarrow> MemTxAttrs \<Rightarrow> 's accessor" where
  "memory_region_write_with_attrs_accessor ops attrs addr v sz shift msk s =
     res_bind (ops_write ops addr (memory_region_shift_write_access v shift msk) sz attrs s) (\<lambda>(r, s). Inr (r, v, s))"

text \<open>The loop over the parts of an access, on the list of the offsets it visits.\<close>

fun access_loop :: "'s accessor \<Rightarrow> (nat \<Rightarrow> int) \<Rightarrow> u64 \<Rightarrow> nat \<Rightarrow> u64 \<Rightarrow> nat list \<Rightarrow> MemTxResult \<Rightarrow> u64 \<Rightarrow> 's \<Rightarrow>
    (MemTxResult \<times> u64 \<times> 's) res" where
  "access_loop fn shift addr sz msk [] r v s = Inr (r, v, s)"
| "access_loop fn shift addr sz msk (i # is) r v s =
     res_bind (fn (addr + word_of_nat i) v sz (shift i) msk s)
       (\<lambda>(r', v, s). access_loop fn shift addr sz msk is (r OR r') v s)"

definition access_offsets :: "nat \<Rightarrow> nat \<Rightarrow> nat list" where
  "access_offsets sz access_size = map (\<lambda>k. k * access_size) [0..<(sz + access_size - 1) div access_size]"

definition access_with_adjusted_size :: "bool \<Rightarrow> 's MemoryRegionOps \<Rightarrow> u64 \<Rightarrow> u64 \<Rightarrow> nat \<Rightarrow> nat \<Rightarrow> nat \<Rightarrow> 's accessor \<Rightarrow> 's \<Rightarrow>
    (MemTxResult \<times> u64 \<times> 's) res" where
  "access_with_adjusted_size engaged_in_io ops addr v sz access_size_min access_size_max access_fn s =
    (let access_size_min = (if access_size_min = 0 then 1 else access_size_min);
         access_size_max = (if access_size_max = 0 then 4 else access_size_max)
     in if engaged_in_io then Inr (MEMTX_ACCESS_ERROR, v, s)
        else
          let access_size = max (min sz access_size_max) access_size_min;
              access_mask = mask (access_size * 8);
              shift = (\<lambda>i. if devend_big_endian (endianness ops) then (int sz - int access_size - int i) * 8 else int i * 8)
          in access_loop access_fn shift addr access_size access_mask (access_offsets sz access_size) MEMTX_OK v s)"

definition bswap :: "nat \<Rightarrow> u64 \<Rightarrow> u64" where
  "bswap n w = foldl (\<lambda>acc i. acc OR push_bit (8 * (n - 1 - i)) (take_bit 8 (drop_bit (8 * i) w))) 0 [0..<n]"

text \<open>The operation has the size of the access in bytes and whether it is big-endian.\<close>

definition adjust_endianness :: "'s MemoryRegionOps \<Rightarrow> nat \<Rightarrow> bool \<Rightarrow> u64 \<Rightarrow> u64 res" where
  "adjust_endianness ops sz be d =
     (if be \<noteq> devend_big_endian (endianness ops)
      then if sz = 1 then Inr d else if sz \<in> {2, 4, 8} then Inr (bswap sz d) else Inl NotReached
      else Inr d)"

fun memory_region_dispatch_read :: "bool \<Rightarrow> (MRInfo \<Rightarrow> 's MemoryRegionOps) \<Rightarrow> MemoryRegion \<Rightarrow> u64 \<Rightarrow> nat \<Rightarrow> bool \<Rightarrow> MemTxAttrs \<Rightarrow> 's \<Rightarrow>
    (MemTxResult \<times> u64 \<times> 's) res" where
  "memory_region_dispatch_read engaged ops_of (MemoryRegion i al subs) addr sz be attrs s =
     (case al of
        Some m \<Rightarrow> memory_region_dispatch_read engaged ops_of m (word_of_int (mr_alias_offset i) + addr) sz be attrs s
      | None \<Rightarrow>
          let ops = ops_of i
          in if \<not> memory_region_access_valid ops addr sz False attrs
             then Inr (MEMTX_DECODE_ERROR, unassigned_mem_read addr sz, s)
             else res_bind (access_with_adjusted_size engaged ops addr 0 sz (impl_min_access_size ops)
                 (impl_max_access_size ops) (memory_region_read_with_attrs_accessor ops attrs) s)
               (\<lambda>(r, v, s). res_bind (adjust_endianness ops sz be v) (\<lambda>v. Inr (r, v, s))))"

fun memory_region_dispatch_write :: "bool \<Rightarrow> (MRInfo \<Rightarrow> 's MemoryRegionOps) \<Rightarrow> MemoryRegion \<Rightarrow> u64 \<Rightarrow> u64 \<Rightarrow> nat \<Rightarrow> bool \<Rightarrow> MemTxAttrs \<Rightarrow> 's \<Rightarrow>
    (MemTxResult \<times> 's) res" where
  "memory_region_dispatch_write engaged ops_of (MemoryRegion i al subs) addr d sz be attrs s =
     (case al of
        Some m \<Rightarrow> memory_region_dispatch_write engaged ops_of m (word_of_int (mr_alias_offset i) + addr) d sz be attrs s
      | None \<Rightarrow>
          let ops = ops_of i
          in if \<not> memory_region_access_valid ops addr sz True attrs then Inr (MEMTX_DECODE_ERROR, s)
             else res_bind (adjust_endianness ops sz be d)
               (\<lambda>d. res_bind (access_with_adjusted_size engaged ops addr d sz (impl_min_access_size ops)
                   (impl_max_access_size ops) (memory_region_write_with_attrs_accessor ops attrs) s)
                 (\<lambda>(r, _, s). Inr (r, s))))"

section \<open>Devices with the default sizes\<close>

text \<open>
  The devices of the board leave the sizes open and their byte order is the target's: words go to the
  callback in one piece, a double word in two.
\<close>

definition plain_ops :: "'s MemoryRegionOps \<Rightarrow> bool" where
  "plain_ops ops \<longleftrightarrow> valid_accepts ops = None \<and> \<not> valid_unaligned ops \<and> valid_max_access_size ops = 0 \<and>
     impl_min_access_size ops = 0 \<and> impl_max_access_size ops = 0 \<and> endianness ops \<noteq> DEVICE_BIG_ENDIAN"

definition aligned :: "u64 \<Rightarrow> nat \<Rightarrow> bool" where
  "aligned addr sz \<longleftrightarrow> addr AND (word_of_nat sz - 1) = 0"

lemma plain_access_valid: "plain_ops ops \<Longrightarrow> memory_region_access_valid ops addr sz w attrs \<longleftrightarrow> aligned addr sz"
  by (auto simp: plain_ops_def memory_region_access_valid_def aligned_def)

lemma plain_little: "plain_ops ops \<Longrightarrow> \<not> devend_big_endian (endianness ops)"
  by (simp add: plain_ops_def devend_big_endian_def)

lemma access_offsets_word: "sz \<in> {1, 2, 4} \<Longrightarrow> access_offsets sz sz = [0]"
  by (auto simp: access_offsets_def)

lemma access_offsets_double: "access_offsets 8 4 = [0, 4]"
  by (simp add: access_offsets_def upt_rec)

lemma plain_misaligned:
  assumes "plain_ops (ops_of i)" and "\<not> aligned addr sz"
  shows "memory_region_dispatch_read engaged ops_of (MemoryRegion i None subs) addr sz False attrs s = Inr (MEMTX_DECODE_ERROR, 0, s)"
    and "memory_region_dispatch_write engaged ops_of (MemoryRegion i None subs) addr d sz False attrs s = Inr (MEMTX_DECODE_ERROR, s)"
  using assms by (simp_all add: plain_access_valid unassigned_mem_read_def)

lemma plain_word:
  assumes "plain_ops (ops_of i)" and "aligned addr sz" and "sz \<in> {1, 2, 4}"
  shows "memory_region_dispatch_read False ops_of (MemoryRegion i None subs) addr sz False attrs s =
      res_bind (ops_read (ops_of i) addr sz attrs s) (\<lambda>(r, v, s). Inr (r, take_bit (sz * 8) v, s))"
    and "memory_region_dispatch_write False ops_of (MemoryRegion i None subs) addr d sz False attrs s =
      ops_write (ops_of i) addr (take_bit (sz * 8) d) sz attrs s"
proof -
  have sz: "max (min sz 4) (Suc 0) = sz" using assms(3) by auto
  note p = plain_access_valid [OF assms(1)] plain_little [OF assms(1)]
  note defs = access_with_adjusted_size_def adjust_endianness_def memory_region_read_with_attrs_accessor_def
    memory_region_write_with_attrs_accessor_def memory_region_shift_read_access_def memory_region_shift_write_access_def
  have impl: "impl_min_access_size (ops_of i) = 0" "impl_max_access_size (ops_of i) = 0"
    using assms(1) by (simp_all add: plain_ops_def)
  have sum: "res_bind r (\<lambda>p. case p of (r, s) \<Rightarrow> Inr (r, s)) = r" for r :: "(MemTxResult \<times> 's) res"
    by (cases r) simp_all
  show "memory_region_dispatch_read False ops_of (MemoryRegion i None subs) addr sz False attrs s =
      res_bind (ops_read (ops_of i) addr sz attrs s) (\<lambda>(r, v, s). Inr (r, take_bit (sz * 8) v, s))"
    using assms(2) by (cases "ops_read (ops_of i) addr sz attrs s")
      (auto simp: p impl defs sz access_offsets_word [OF assms(3)] take_bit_eq_mask and.commute Let_def)
  show "memory_region_dispatch_write False ops_of (MemoryRegion i None subs) addr d sz False attrs s =
      ops_write (ops_of i) addr (take_bit (sz * 8) d) sz attrs s"
    using assms(2) by (cases "ops_write (ops_of i) addr (d AND mask (sz * 8)) sz attrs s")
      (auto simp: p impl defs sz access_offsets_word [OF assms(3)] take_bit_eq_mask Let_def)
qed

lemma plain_double_write:
  assumes "plain_ops (ops_of i)" and "aligned addr 8"
  shows "memory_region_dispatch_write False ops_of (MemoryRegion i None subs) addr d 8 False attrs s =
    res_bind (ops_write (ops_of i) addr (take_bit 32 d) 4 attrs s) (\<lambda>(r, s).
      res_bind (ops_write (ops_of i) (addr + 4) (drop_bit 32 d) 4 attrs s) (\<lambda>(r', s). Inr (r OR r', s)))"
proof -
  have high: "drop_bit 32 d AND mask 32 = drop_bit 32 d" for d :: u64
    by (rule bit_word_eqI) (auto simp: bit_simps dest: bit_imp_le_length)
  have impl: "impl_min_access_size (ops_of i) = 0" "impl_max_access_size (ops_of i) = 0"
    using assms(1) by (simp_all add: plain_ops_def)
  show ?thesis using assms(2)
    by (auto simp: plain_access_valid [OF assms(1)] plain_little [OF assms(1)] impl access_with_adjusted_size_def adjust_endianness_def
        memory_region_write_with_attrs_accessor_def memory_region_shift_write_access_def access_offsets_double Let_def
        take_bit_eq_mask high res_bind_def split: sum.split)
qed

end
