(* ===== verification/Mem_Access.thy ===== *)
theory Mem_Access
  imports Mem_Dispatch
begin

text \<open>
  Accesses to an address space (\<open>system/physmem.c\<close>, \<open>system/memory_ldst.c.inc\<close>): the region at an
  address is found in the flat view, RAM is copied directly and everything else goes through the
  callbacks of the region, piece by piece.

  The state is the content of the RAM blocks, by region, and the state of the devices.  The radix tree
  that the source builds from the flat view is replaced by a search of the view; the tree splits
  sections at page boundaries, which here no RAM region crosses unaligned.  Attributes have no \<open>debug\<close>
  and no \<open>memory\<close> flag set, there is no IOMMU, no ROM device and no RAM device, and the host is
  little-endian.  Locks, dirty bitmaps and translated code are left out.
\<close>

section \<open>State\<close>

record 's system =
  ram_block :: "mr_id \<Rightarrow> nat \<Rightarrow> u8"
  devs :: 's

definition io_mem_unassigned :: MRInfo where
  "io_mem_unassigned = mr_info (memory_region_init_io '''' '''' (- 1))"

text \<open>RAM and ROM keep the callbacks every region starts with.\<close>

definition region_ops :: "(mr_id \<Rightarrow> 's MemoryRegionOps) \<Rightarrow> MRInfo \<Rightarrow> 's MemoryRegionOps" where
  "region_ops dev_ops i = (if mr_ram i \<or> i = io_mem_unassigned then unassigned_mem_ops else dev_ops (mr_id i))"

section \<open>Bytes\<close>

definition ldn_le_p :: "u8 list \<Rightarrow> u64" where
  "ldn_le_p bs = foldr (\<lambda>b acc. ucast b OR push_bit 8 acc) bs 0"

definition stn_le_p :: "nat \<Rightarrow> u64 \<Rightarrow> u8 list" where
  "stn_le_p n v = map (\<lambda>i. ucast (drop_bit (8 * i) v)) [0..<n]"

definition ram_read :: "mr_id \<Rightarrow> nat \<Rightarrow> nat \<Rightarrow> (mr_id \<Rightarrow> nat \<Rightarrow> u8) \<Rightarrow> u8 list" where
  "ram_read r off n ram = map (\<lambda>i. ram r (off + i)) [0..<n]"

definition ram_write :: "mr_id \<Rightarrow> nat \<Rightarrow> u8 list \<Rightarrow> (mr_id \<Rightarrow> nat \<Rightarrow> u8) \<Rightarrow> mr_id \<Rightarrow> nat \<Rightarrow> u8" where
  "ram_write r off bs ram = ram(r := (\<lambda>k. if off \<le> k \<and> k < off + length bs then bs ! (k - off) else ram r k))"

section \<open>Finding the region\<close>

definition memory_region_supports_direct_access :: "MRInfo \<Rightarrow> bool" where
  "memory_region_supports_direct_access i \<longleftrightarrow> mr_ram i"

definition memory_access_is_direct :: "MRInfo \<Rightarrow> bool \<Rightarrow> bool" where
  "memory_access_is_direct i is_write \<longleftrightarrow>
     (if \<not> memory_region_supports_direct_access i then False else if is_write then \<not> mr_readonly i else True)"

definition address_space_lookup_region :: "FlatView \<Rightarrow> u64 \<Rightarrow> FlatRange option" where
  "address_space_lookup_region view addr = find (\<lambda>r. addrrange_contains (fr_addr r) (uint addr)) view"

definition flatview_translate :: "FlatView \<Rightarrow> u64 \<Rightarrow> nat \<Rightarrow> MRInfo \<times> u64 \<times> nat" where
  "flatview_translate view addr plen =
     (case address_space_lookup_region view addr of
        None \<Rightarrow> (io_mem_unassigned, addr, plen)
      | Some r \<Rightarrow>
          let a = uint addr - ar_start (fr_addr r); xlat = word_of_int (a + fr_offset_in_region r);
              plen = (if mr_ram (fr_mr r) then nat (min (ar_size (fr_addr r) - a) (int plen)) else plen)
          in (fr_mr r, xlat, plen))"

fun pow2floor :: "nat \<Rightarrow> nat" where
  "pow2floor n = (if n \<le> 1 then n else 2 * pow2floor (n div 2))"

declare pow2floor.simps [simp del]

definition memory_access_size :: "'s MemoryRegionOps \<Rightarrow> nat \<Rightarrow> u64 \<Rightarrow> nat" where
  "memory_access_size ops l addr =
    (let access_size_max = (if valid_max_access_size ops = 0 then 4 else valid_max_access_size ops);
         align_size_max = unat (ucast (addr AND - addr) :: u32);
         access_size_max = (if \<not> impl_unaligned ops \<and> align_size_max \<noteq> 0 \<and> align_size_max < access_size_max
                            then align_size_max else access_size_max);
         l = (if l > access_size_max then access_size_max else l)
     in pow2floor l)"

section \<open>Writing and reading byte strings\<close>

type_synonym 's as_ops = "mr_id \<Rightarrow> 's MemoryRegionOps"

definition dispatch_read :: "'s as_ops \<Rightarrow> MRInfo \<Rightarrow> u64 \<Rightarrow> nat \<Rightarrow> bool \<Rightarrow> MemTxAttrs \<Rightarrow> 's system \<Rightarrow> (MemTxResult \<times> u64 \<times> 's system) res" where
  "dispatch_read dev_ops mr addr sz be attrs s =
     res_bind (memory_region_dispatch_read False (region_ops dev_ops) (MemoryRegion mr None []) addr sz be attrs (devs s))
       (\<lambda>(r, v, d). Inr (r, v, s\<lparr>devs := d\<rparr>))"

definition dispatch_write :: "'s as_ops \<Rightarrow> MRInfo \<Rightarrow> u64 \<Rightarrow> u64 \<Rightarrow> nat \<Rightarrow> bool \<Rightarrow> MemTxAttrs \<Rightarrow> 's system \<Rightarrow> (MemTxResult \<times> 's system) res" where
  "dispatch_write dev_ops mr addr v sz be attrs s =
     res_bind (memory_region_dispatch_write False (region_ops dev_ops) (MemoryRegion mr None []) addr v sz be attrs (devs s))
       (\<lambda>(r, d). Inr (r, s\<lparr>devs := d\<rparr>))"

definition flatview_write_continue_step :: "'s as_ops \<Rightarrow> MemTxAttrs \<Rightarrow> u8 list \<Rightarrow> u64 \<Rightarrow> nat \<Rightarrow> MRInfo \<Rightarrow> 's system \<Rightarrow>
    (MemTxResult \<times> nat \<times> 's system) res" where
  "flatview_write_continue_step dev_ops attrs buf maddr l mr s =
     (if \<not> memory_access_is_direct mr True
      then let l = memory_access_size (region_ops dev_ops mr) l maddr
           in res_bind (dispatch_write dev_ops mr maddr (ldn_le_p (take l buf)) l False attrs s) (\<lambda>(r, s). Inr (r, l, s))
      else Inr (MEMTX_OK, l, s\<lparr>ram_block := ram_write (mr_id mr) (unat maddr) (take l buf) (ram_block s)\<rparr>))"

definition flatview_read_continue_step :: "'s as_ops \<Rightarrow> MemTxAttrs \<Rightarrow> u64 \<Rightarrow> nat \<Rightarrow> MRInfo \<Rightarrow> 's system \<Rightarrow>
    (MemTxResult \<times> u8 list \<times> 's system) res" where
  "flatview_read_continue_step dev_ops attrs maddr l mr s =
     (if \<not> memory_access_is_direct mr False
      then let l = memory_access_size (region_ops dev_ops mr) l maddr
           in res_bind (dispatch_read dev_ops mr maddr l False attrs s) (\<lambda>(r, v, s). Inr (r, stn_le_p l v, s))
      else Inr (MEMTX_OK, ram_read (mr_id mr) (unat maddr) l (ram_block s), s))"


section \<open>The loops\<close>

lemma res_bind_cong [fundef_cong]:
  "\<lbrakk>r = r'; \<And>x. r' = Inr x \<Longrightarrow> k x = k' x\<rbrakk> \<Longrightarrow> res_bind r k = res_bind r' k'"
  by (cases r') simp_all

lemma pow2floor_bounds: "0 < n \<Longrightarrow> 0 < pow2floor n \<and> pow2floor n \<le> n"
  by (induction n rule: pow2floor.induct) (subst (1 2) pow2floor.simps, auto)

lemma memory_access_size_bounds: "0 < l \<Longrightarrow> 0 < memory_access_size ops l addr \<and> memory_access_size ops l addr \<le> l"
  using pow2floor_bounds [of l] pow2floor_bounds [of "valid_max_access_size ops"] pow2floor_bounds [of 4]
    pow2floor_bounds [of "unat (ucast (addr AND - addr) :: u32)"]
  by (auto simp: memory_access_size_def Let_def)

lemma translate_bounds:
  assumes "flatview_translate view addr n = (mr, maddr, l)" and "0 < n"
  shows "0 < l \<and> l \<le> n"
  using assms
  by (auto simp: flatview_translate_def address_space_lookup_region_def find_Some_iff addrrange_contains_def addrrange_end_def
      Let_def split: option.splits if_splits)

lemma write_step_bounds:
  "\<lbrakk>flatview_write_continue_step dev_ops attrs buf maddr l mr s = Inr (r, l', s'); 0 < l\<rbrakk> \<Longrightarrow> 0 < l' \<and> l' \<le> l"
  using memory_access_size_bounds [of l "region_ops dev_ops mr" maddr]
  by (auto simp: flatview_write_continue_step_def res_bind_eq_Inr Let_def split: if_splits)

lemma read_step_bounds:
  "\<lbrakk>flatview_read_continue_step dev_ops attrs maddr l mr s = Inr (r, bs, s'); 0 < l\<rbrakk> \<Longrightarrow> 0 < length bs \<and> length bs \<le> l"
  using memory_access_size_bounds [of l "region_ops dev_ops mr" maddr]
  by (auto simp: flatview_read_continue_step_def res_bind_eq_Inr Let_def stn_le_p_def ram_read_def split: if_splits)

text \<open>
  The first translation is part of the loop: each round translates the address, does one step and
  continues behind it.
\<close>

function flatview_write_continue :: "'s as_ops \<Rightarrow> FlatView \<Rightarrow> u64 \<Rightarrow> MemTxAttrs \<Rightarrow> u8 list \<Rightarrow> MemTxResult \<Rightarrow> 's system \<Rightarrow>
    (MemTxResult \<times> 's system) res" where
  "flatview_write_continue dev_ops view addr attrs buf result s =
     (if buf = [] then Inr (result, s)
      else
        let (mr, maddr, l) = flatview_translate view addr (length buf)
        in res_bind (flatview_write_continue_step dev_ops attrs buf maddr l mr s)
          (\<lambda>(r, l, s). flatview_write_continue dev_ops view (addr + word_of_nat l) attrs (drop l buf) (result OR r) s))"
  by pat_completeness auto
termination
proof (relation "measure (\<lambda>(_, _, _, _, buf, _, _). length buf)")
qed (auto dest!: write_step_bounds translate_bounds [OF sym])

function flatview_read_continue :: "'s as_ops \<Rightarrow> FlatView \<Rightarrow> u64 \<Rightarrow> MemTxAttrs \<Rightarrow> nat \<Rightarrow> MemTxResult \<Rightarrow> u8 list \<Rightarrow> 's system \<Rightarrow>
    (MemTxResult \<times> u8 list \<times> 's system) res" where
  "flatview_read_continue dev_ops view addr attrs len result buf s =
     (if len = 0 then Inr (result, buf, s)
      else
        let (mr, maddr, l) = flatview_translate view addr len
        in res_bind (flatview_read_continue_step dev_ops attrs maddr l mr s)
          (\<lambda>(r, bs, s). flatview_read_continue dev_ops view (addr + word_of_nat (length bs)) attrs (len - length bs)
            (result OR r) (buf @ bs) s))"
  by pat_completeness auto
termination
proof (relation "measure (\<lambda>(_, _, _, _, len, _, _, _). len)")
qed (auto dest!: read_step_bounds translate_bounds [OF sym])

declare flatview_write_continue.simps [simp del] flatview_read_continue.simps [simp del]

definition address_space_write :: "'s as_ops \<Rightarrow> FlatView \<Rightarrow> u64 \<Rightarrow> MemTxAttrs \<Rightarrow> u8 list \<Rightarrow> 's system \<Rightarrow> (MemTxResult \<times> 's system) res" where
  "address_space_write dev_ops view addr attrs buf s =
     (if length buf > 0 then flatview_write_continue dev_ops view addr attrs buf MEMTX_OK s else Inr (MEMTX_OK, s))"

definition address_space_read_full :: "'s as_ops \<Rightarrow> FlatView \<Rightarrow> u64 \<Rightarrow> MemTxAttrs \<Rightarrow> nat \<Rightarrow> 's system \<Rightarrow> (MemTxResult \<times> u8 list \<times> 's system) res" where
  "address_space_read_full dev_ops view addr attrs len s =
     (if len > 0 then flatview_read_continue dev_ops view addr attrs len MEMTX_OK [] s else Inr (MEMTX_OK, [], s))"

text \<open>Loading of images: RAM and ROM are written, everything else is skipped.\<close>

function address_space_write_rom :: "'s as_ops \<Rightarrow> FlatView \<Rightarrow> u64 \<Rightarrow> u8 list \<Rightarrow> 's system \<Rightarrow> 's system" where
  "address_space_write_rom dev_ops view addr buf s =
     (if buf = [] then s
      else
        let (mr, addr1, l) = flatview_translate view addr (length buf);
            (l, s) = (if \<not> memory_region_supports_direct_access mr then (memory_access_size (region_ops dev_ops mr) l addr1, s)
                      else (l, s\<lparr>ram_block := ram_write (mr_id mr) (unat addr1) (take l buf) (ram_block s)\<rparr>))
        in address_space_write_rom dev_ops view (addr + word_of_nat l) (drop l buf) s)"
  by pat_completeness auto
termination
proof (relation "measure (\<lambda>(_, _, _, buf, _). length buf)")
qed (auto dest!: translate_bounds [OF sym] simp: memory_access_size_bounds split: if_splits)

declare address_space_write_rom.simps [simp del]


section \<open>Loads and stores of one value\<close>

definition address_space_ld :: "'s as_ops \<Rightarrow> FlatView \<Rightarrow> nat \<Rightarrow> bool \<Rightarrow> u64 \<Rightarrow> MemTxAttrs \<Rightarrow> 's system \<Rightarrow> (MemTxResult \<times> u64 \<times> 's system) res" where
  "address_space_ld dev_ops view n be addr attrs s =
    (let (mr, addr1, l) = flatview_translate view addr n
     in if l < n \<or> \<not> memory_access_is_direct mr False
        then dispatch_read dev_ops mr addr1 n be attrs s
        else let bs = ram_read (mr_id mr) (unat addr1) n (ram_block s)
             in Inr (MEMTX_OK, ldn_le_p (if be then rev bs else bs), s))"

definition address_space_st :: "'s as_ops \<Rightarrow> FlatView \<Rightarrow> nat \<Rightarrow> bool \<Rightarrow> u64 \<Rightarrow> u64 \<Rightarrow> MemTxAttrs \<Rightarrow> 's system \<Rightarrow> (MemTxResult \<times> 's system) res" where
  "address_space_st dev_ops view n be addr v attrs s =
    (let (mr, addr1, l) = flatview_translate view addr n
     in if l < n \<or> \<not> memory_access_is_direct mr True
        then dispatch_write dev_ops mr addr1 v n be attrs s
        else let bs = stn_le_p n v
             in Inr (MEMTX_OK, s\<lparr>ram_block := ram_write (mr_id mr) (unat addr1) (if be then rev bs else bs) (ram_block s)\<rparr>))"

section \<open>Views whose offsets fit\<close>

definition ranges_ok :: "FlatView \<Rightarrow> bool" where
  "ranges_ok view \<longleftrightarrow> view_ok view \<and> (\<forall>r\<in>set view. 0 \<le> ar_start (fr_addr r) \<and> addrrange_end (fr_addr r) \<le> 2 ^ 64 \<and>
     0 \<le> fr_offset_in_region r \<and> fr_offset_in_region r + ar_size (fr_addr r) \<le> 2 ^ 64)"

lemma region_at_offset:
  "region_sized mr \<Longrightarrow> region_at mr base ro nv a = Some h \<Longrightarrow> 0 \<le> hit_offset h \<and> hit_offset h < mr_size (hit_mr h) \<and> mr_size (hit_mr h) \<le> 2 ^ 64"
proof (induction mr arbitrary: base ro nv)
  case (MemoryRegion i al subs)
  have subs: "0 \<le> hit_offset h \<and> hit_offset h < mr_size (hit_mr h) \<and> mr_size (hit_mr h) \<le> 2 ^ 64"
    if "subregions_at ms base ro nv a = Some h" "set ms \<subseteq> set subs" "regions_sized ms" for ms base ro nv
    using that MemoryRegion.IH(2) by (induction ms) (auto split: option.splits)
  from MemoryRegion.prems MemoryRegion.IH(1) subs [OF _ order_refl] show ?case
    by (auto simp: Let_def split: if_splits option.splits)
qed

lemma generate_ranges_ok:
  assumes "region_sized mr"
  shows "ranges_ok (generate_memory_topology (Some mr))"
proof -
  let ?view = "generate_memory_topology (Some mr)"
  note g = generate_memory_topology_shows [OF assms]
  have "0 \<le> ar_start (fr_addr r) \<and> addrrange_end (fr_addr r) \<le> 2 ^ 64 \<and>
     0 \<le> fr_offset_in_region r \<and> fr_offset_in_region r + ar_size (fr_addr r) \<le> 2 ^ 64" if "r \<in> set ?view" for r
  proof -
    from that obtain k where k: "k < length ?view" "?view ! k = r" by (auto simp: in_set_conv_nth)
    from g(1) that have pos: "0 < ar_size (fr_addr r)" by (simp add: view_ok_def)
    have shown: "0 \<le> a \<and> a < 2 ^ 64 \<and> 0 \<le> fr_offset_in_region r + (a - ar_start (fr_addr r)) \<and>
      fr_offset_in_region r + (a - ar_start (fr_addr r)) < 2 ^ 64" if "addrrange_contains (fr_addr r) a" for a
      using flat_at_nth [OF g(1) k(1), of a] that k(2) g(2) [of a] region_at_offset [OF assms, of 0 False False a "range_hit r a"]
      by (auto simp: range_hit_def split: if_splits)
    from shown [of "ar_start (fr_addr r)"] shown [of "addrrange_end (fr_addr r) - 1"] pos show ?thesis
      by (auto simp: addrrange_contains_def addrrange_end_def)
  qed
  with g(1) show ?thesis by (simp add: ranges_ok_def)
qed


section \<open>RAM, byte by byte\<close>

definition byte_of :: "FlatRange \<Rightarrow> u64 \<Rightarrow> mr_id \<times> nat" where
  "byte_of r addr = (mr_id (fr_mr r), nat (uint addr - ar_start (fr_addr r) + fr_offset_in_region r))"

definition ram_byte :: "FlatView \<Rightarrow> bool \<Rightarrow> u64 \<Rightarrow> (mr_id \<times> nat) option" where
  "ram_byte view w addr =
     (case address_space_lookup_region view addr of
        Some r \<Rightarrow> if memory_access_is_direct (fr_mr r) w then Some (byte_of r addr) else None
      | None \<Rightarrow> None)"

definition set_byte :: "mr_id \<times> nat \<Rightarrow> u8 \<Rightarrow> (mr_id \<Rightarrow> nat \<Rightarrow> u8) \<Rightarrow> mr_id \<Rightarrow> nat \<Rightarrow> u8" where
  "set_byte p b ram = ram(fst p := (ram (fst p))(snd p := b))"

fun write_bytes :: "FlatView \<Rightarrow> u64 \<Rightarrow> u8 list \<Rightarrow> (mr_id \<Rightarrow> nat \<Rightarrow> u8) \<Rightarrow> mr_id \<Rightarrow> nat \<Rightarrow> u8" where
  "write_bytes view addr [] ram = ram"
| "write_bytes view addr (b # bs) ram = write_bytes view (addr + 1) bs (set_byte (the (ram_byte view True addr)) b ram)"

definition read_bytes :: "FlatView \<Rightarrow> u64 \<Rightarrow> nat \<Rightarrow> (mr_id \<Rightarrow> nat \<Rightarrow> u8) \<Rightarrow> u8 list" where
  "read_bytes view addr n ram = map (\<lambda>i. case_prod ram (the (ram_byte view False (addr + word_of_nat i)))) [0..<n]"

definition ram_span :: "FlatView \<Rightarrow> bool \<Rightarrow> u64 \<Rightarrow> nat \<Rightarrow> bool" where
  "ram_span view w addr n \<longleftrightarrow> uint addr + int n \<le> 2 ^ 64 \<and> (\<forall>i<n. ram_byte view w (addr + word_of_nat i) \<noteq> None)"

lemma write_bytes_append:
  "write_bytes view addr (xs @ ys) ram = write_bytes view (addr + word_of_nat (length xs)) ys (write_bytes view addr xs ram)"
  by (induction xs arbitrary: addr ram) (simp_all add: add.assoc add.commute)

lemma read_bytes_append:
  "read_bytes view addr (m + n) ram = read_bytes view addr m ram @ read_bytes view (addr + word_of_nat m) n ram"
  unfolding read_bytes_def
  by (rule nth_equalityI) (auto simp: nth_append algebra_simps)

lemma uint_add_nat:
  assumes "uint (addr :: u64) + int n < 2 ^ 64"
  shows "uint (addr + word_of_nat n) = uint addr + int n"
proof -
  from assms have "int n < 2 ^ 64" using uint_ge_0 [of addr] by linarith
  then have "n < 2 ^ 64" by simp
  then have "uint (word_of_nat n :: u64) = int n" by (simp add: unsigned_of_nat take_bit_nat_eq_self)
  with assms show ?thesis using uint_ge_0 [of addr] by (simp add: uint_word_ariths)
qed

lemma unat_of_int: "0 \<le> x \<Longrightarrow> x < 2 ^ 64 \<Longrightarrow> unat (word_of_int x :: u64) = nat x"
  by (simp add: unsigned_of_int take_bit_int_eq_self)

lemma lookup_in_range:
  assumes "view_ok view" and "r \<in> set view" and "addrrange_contains (fr_addr r) (uint addr)"
  shows "address_space_lookup_region view addr = Some r"
  using assms
proof (induction view)
  case (Cons x xs)
  show ?case
  proof (cases "x = r")
    case False
    with Cons.prems have "addrrange_end (fr_addr x) \<le> ar_start (fr_addr r)" "r \<in> set xs" by (auto simp: view_ok_Cons)
    then have "\<not> addrrange_contains (fr_addr x) (uint addr)" using Cons.prems(3) by (auto simp: addrrange_contains_def)
    with Cons False show ?thesis by (auto simp: address_space_lookup_region_def view_ok_Cons)
  qed (use Cons in \<open>simp add: address_space_lookup_region_def\<close>)
qed (simp add: address_space_lookup_region_def)

lemma lookup_Some:
  "address_space_lookup_region view addr = Some r \<Longrightarrow> r \<in> set view \<and> addrrange_contains (fr_addr r) (uint addr)"
  by (auto simp: address_space_lookup_region_def find_Some_iff)

text \<open>The first piece of a span in RAM lies in one range.\<close>

lemma translate_ram_span:
  assumes "ranges_ok view" and "ram_span view w addr n" and "0 < n"
  obtains r l where "flatview_translate view addr n = (fr_mr r, word_of_int (uint addr - ar_start (fr_addr r) + fr_offset_in_region r), l)"
    and "memory_access_is_direct (fr_mr r) w" and "0 < l" and "l \<le> n"
    and "unat (word_of_int (uint addr - ar_start (fr_addr r) + fr_offset_in_region r) :: u64) = snd (byte_of r addr)"
    and "\<And>i. i < l \<Longrightarrow> ram_byte view w (addr + word_of_nat i) = Some (fst (byte_of r addr), snd (byte_of r addr) + i)"
proof -
  from assms(2,3) have "ram_byte view w addr \<noteq> None" by (auto simp: ram_span_def dest: spec [of _ 0])
  then obtain r where r: "address_space_lookup_region view addr = Some r" "memory_access_is_direct (fr_mr r) w"
    by (auto simp: ram_byte_def split: option.splits if_splits)
  then have ram: "mr_ram (fr_mr r)" by (simp add: memory_access_is_direct_def memory_region_supports_direct_access_def split: if_splits)
  define l where "l = nat (min (ar_size (fr_addr r) - (uint addr - ar_start (fr_addr r))) (int n))"
  from lookup_Some [OF r(1)] have c: "r \<in> set view" "addrrange_contains (fr_addr r) (uint addr)" by simp_all
  with assms(1) have ok: "0 \<le> ar_start (fr_addr r)" "addrrange_end (fr_addr r) \<le> 2 ^ 64" "0 \<le> fr_offset_in_region r"
      "fr_offset_in_region r + ar_size (fr_addr r) \<le> 2 ^ 64" by (auto simp: ranges_ok_def)
  have l: "0 < l" "l \<le> n" "int l \<le> addrrange_end (fr_addr r) - uint addr"
    using c(2) assms(3) by (auto simp: l_def addrrange_contains_def addrrange_end_def)
  have off: "0 \<le> uint addr - ar_start (fr_addr r) + fr_offset_in_region r" "uint addr - ar_start (fr_addr r) + fr_offset_in_region r < 2 ^ 64"
    using c(2) ok by (auto simp: addrrange_contains_def addrrange_end_def)
  show thesis
  proof (rule that [of r l])
    show "flatview_translate view addr n = (fr_mr r, word_of_int (uint addr - ar_start (fr_addr r) + fr_offset_in_region r), l)"
      by (simp add: flatview_translate_def r(1) ram Let_def l_def)
    show "unat (word_of_int (uint addr - ar_start (fr_addr r) + fr_offset_in_region r) :: u64) = snd (byte_of r addr)"
      using unat_of_int [OF off] by (simp only: byte_of_def snd_conv)
    fix i assume i: "i < l"
    have u: "uint (addr + word_of_nat i) = uint addr + int i"
      by (rule uint_add_nat) (use i l ok in linarith)
    have "address_space_lookup_region view (addr + word_of_nat i) = Some r"
      using assms(1) c i l by (intro lookup_in_range) (auto simp: ranges_ok_def u addrrange_contains_def)
    then show "ram_byte view w (addr + word_of_nat i) = Some (fst (byte_of r addr), snd (byte_of r addr) + i)"
      using r(2) off by (auto simp: ram_byte_def byte_of_def u)
  qed (use r l in simp_all)
qed

lemma ram_write_bytes:
  assumes "\<And>i. i < length bs \<Longrightarrow> ram_byte view True (addr + word_of_nat i) = Some (m, k + i)"
  shows "ram_write m k bs ram = write_bytes view addr bs ram"
  using assms
proof (induction bs arbitrary: addr k ram)
  case Nil
  show ?case by (auto simp: ram_write_def fun_eq_iff)
next
  case (Cons b bs)
  have "ram_byte view True (addr + 1 + word_of_nat i) = Some (m, Suc k + i)" if "i < length bs" for i
    using Cons.prems [of "Suc i"] that by (simp add: add.assoc)
  from Cons.IH [OF this] Cons.prems [of 0]
  have "write_bytes view addr (b # bs) ram = ram_write m (Suc k) bs (set_byte (m, k) b ram)" by simp
  also have "\<dots> = ram_write m k (b # bs) ram"
    by (intro ext) (auto simp: ram_write_def set_byte_def nth_Cons')
  finally show ?case ..
qed

lemma ram_read_bytes:
  assumes "\<And>i. i < n \<Longrightarrow> ram_byte view False (addr + word_of_nat i) = Some (m, k + i)"
  shows "ram_read m k n ram = read_bytes view addr n ram"
  using assms by (simp add: ram_read_def read_bytes_def)


lemma ram_span_drop: "ram_span view w addr n \<Longrightarrow> l \<le> n \<Longrightarrow> 0 < n - l \<Longrightarrow> ram_span view w (addr + word_of_nat l) (n - l)"
  unfolding ram_span_def
proof (elim conjE, intro conjI allI impI)
  assume a: "l \<le> n" "0 < n - l" "uint addr + int n \<le> 2 ^ 64" "\<forall>i<n. ram_byte view w (addr + word_of_nat i) \<noteq> None"
  have "uint (addr + word_of_nat l) = uint addr + int l" by (rule uint_add_nat) (use a in linarith)
  with a show "uint (addr + word_of_nat l) + int (n - l) \<le> 2 ^ 64" by simp
  fix i assume "i < n - l"
  with a(4) [rule_format, of "l + i"] show "ram_byte view w (addr + word_of_nat l + word_of_nat i) \<noteq> None"
    by (simp add: add.assoc)
qed

lemma write_continue_ram:
  assumes "ranges_ok view" and "ram_span view True addr (length buf)"
  shows "flatview_write_continue dev_ops view addr attrs buf result s =
    Inr (result, s\<lparr>ram_block := write_bytes view addr buf (ram_block s)\<rparr>)"
  using assms(2)
proof (induction "length buf" arbitrary: addr buf s rule: less_induct)
  case less
  show ?case
  proof (cases "buf = []")
    case True
    then show ?thesis by (simp add: flatview_write_continue.simps)
  next
    case False
    then obtain r l where t: "flatview_translate view addr (length buf) =
        (fr_mr r, word_of_int (uint addr - ar_start (fr_addr r) + fr_offset_in_region r), l)"
      "memory_access_is_direct (fr_mr r) True" "0 < l" "l \<le> length buf"
      "unat (word_of_int (uint addr - ar_start (fr_addr r) + fr_offset_in_region r) :: u64) = snd (byte_of r addr)"
      "\<And>i. i < l \<Longrightarrow> ram_byte view True (addr + word_of_nat i) = Some (fst (byte_of r addr), snd (byte_of r addr) + i)"
      using translate_ram_span [OF assms(1) less.prems] by auto
    let ?s = "s\<lparr>ram_block := write_bytes view addr (take l buf) (ram_block s)\<rparr>"
    have "ram_write (mr_id (fr_mr r)) (snd (byte_of r addr)) (take l buf) (ram_block s) = write_bytes view addr (take l buf) (ram_block s)"
      using t(4,6) by (intro ram_write_bytes) (simp add: byte_of_def)
    then have step: "flatview_write_continue dev_ops view addr attrs buf result s =
      flatview_write_continue dev_ops view (addr + word_of_nat l) attrs (drop l buf) result ?s"
      using False t by (simp add: flatview_write_continue.simps [of dev_ops view addr] flatview_write_continue_step_def)
    have "flatview_write_continue dev_ops view (addr + word_of_nat l) attrs (drop l buf) result ?s =
      Inr (result, ?s\<lparr>ram_block := write_bytes view (addr + word_of_nat l) (drop l buf) (ram_block ?s)\<rparr>)"
    proof (cases "l = length buf")
      case True
      then show ?thesis by (simp add: flatview_write_continue.simps)
    next
      case F: False
      with less.prems t(3,4) show ?thesis by (intro less.hyps) (simp_all add: ram_span_drop)
    qed
    with step t(4) write_bytes_append [of view addr "take l buf" "drop l buf" "ram_block s"] show ?thesis
      by (simp add: min_absorb2)
  qed
qed

lemma read_continue_ram:
  assumes "ranges_ok view" and "ram_span view False addr n"
  shows "flatview_read_continue dev_ops view addr attrs n result buf s = Inr (result, buf @ read_bytes view addr n (ram_block s), s)"
  using assms(2)
proof (induction n arbitrary: addr buf rule: less_induct)
  case (less n)
  show ?case
  proof (cases "n = 0")
    case True
    then show ?thesis by (simp add: flatview_read_continue.simps read_bytes_def)
  next
    case False
    then obtain r l where t: "flatview_translate view addr n =
        (fr_mr r, word_of_int (uint addr - ar_start (fr_addr r) + fr_offset_in_region r), l)"
      "memory_access_is_direct (fr_mr r) False" "0 < l" "l \<le> n"
      "unat (word_of_int (uint addr - ar_start (fr_addr r) + fr_offset_in_region r) :: u64) = snd (byte_of r addr)"
      "\<And>i. i < l \<Longrightarrow> ram_byte view False (addr + word_of_nat i) = Some (fst (byte_of r addr), snd (byte_of r addr) + i)"
      using translate_ram_span [OF assms(1) less.prems] by auto
    have "ram_read (mr_id (fr_mr r)) (snd (byte_of r addr)) l (ram_block s) = read_bytes view addr l (ram_block s)"
      using t(6) by (intro ram_read_bytes) (simp add: byte_of_def)
    moreover have "length (read_bytes view addr l (ram_block s)) = l" by (simp add: read_bytes_def)
    ultimately have step: "flatview_read_continue dev_ops view addr attrs n result buf s =
      flatview_read_continue dev_ops view (addr + word_of_nat l) attrs (n - l) result (buf @ read_bytes view addr l (ram_block s)) s"
      using False t by (simp add: flatview_read_continue.simps [of dev_ops view addr] flatview_read_continue_step_def)
    show ?thesis
    proof (cases "l = n")
      case True
      then show ?thesis using step by (simp add: flatview_read_continue.simps)
    next
      case F: False
      with less.prems t(3,4) have "flatview_read_continue dev_ops view (addr + word_of_nat l) attrs (n - l) result (buf @ read_bytes view addr l (ram_block s)) s =
        Inr (result, (buf @ read_bytes view addr l (ram_block s)) @ read_bytes view (addr + word_of_nat l) (n - l) (ram_block s), s)"
        by (intro less.IH) (simp_all add: ram_span_drop)
      with step read_bytes_append [of view addr l "n - l" "ram_block s"] t(4) show ?thesis by simp
    qed
  qed
qed

lemma set_byte_get: "case_prod (set_byte p b ram) q = (if q = p then b else case_prod ram q)"
  by (cases p; cases q) (simp add: set_byte_def)

text \<open>Reading back what was written, where no two addresses of the span are the same byte of RAM.\<close>

lemma write_bytes_nth:
  assumes "inj_on (\<lambda>i. the (ram_byte view True (addr + word_of_nat i))) {..<length bs}" and "i < length bs"
  shows "case_prod (write_bytes view addr bs ram) (the (ram_byte view True (addr + word_of_nat i))) = bs ! i"
  using assms
proof (induction bs arbitrary: i rule: rev_induct)
  case (snoc b bs)
  let ?p = "\<lambda>i. the (ram_byte view True (addr + word_of_nat i))"
  have inj: "inj_on ?p {..<length bs}" using snoc.prems(1) by (rule inj_on_subset) auto
  show ?case
  proof (cases "i < length bs")
    case True
    then have "?p i \<noteq> ?p (length bs)" using inj_onD [OF snoc.prems(1), of i "length bs"] by auto
    with snoc.IH [OF inj True] True show ?thesis
      by (simp add: write_bytes_append set_byte_get nth_append)
  next
    case False
    with snoc.prems(2) have "i = length bs" by simp
    then show ?thesis by (simp add: write_bytes_append set_byte_get nth_append)
  qed
qed simp

lemma ram_byte_writable: "ram_byte view True addr = Some p \<Longrightarrow> ram_byte view False addr = Some p"
  by (auto simp: ram_byte_def memory_access_is_direct_def split: option.splits if_splits)

lemma read_bytes_write_bytes:
  assumes "ram_span view True addr (length bs)" and "inj_on (\<lambda>i. the (ram_byte view True (addr + word_of_nat i))) {..<length bs}"
  shows "read_bytes view addr (length bs) (write_bytes view addr bs ram) = bs"
proof (rule nth_equalityI)
  fix i assume "i < length (read_bytes view addr (length bs) (write_bytes view addr bs ram))"
  then have i: "i < length bs" by (simp add: read_bytes_def)
  with assms(1) obtain p where "ram_byte view True (addr + word_of_nat i) = Some p" by (auto simp: ram_span_def)
  with write_bytes_nth [OF assms(2) i, of ram] ram_byte_writable [OF this] i
  show "read_bytes view addr (length bs) (write_bytes view addr bs ram) ! i = bs ! i" by (simp add: read_bytes_def)
qed (simp add: read_bytes_def)

lemma ram_span_writable: "ram_span view True addr n \<Longrightarrow> ram_span view False addr n"
  unfolding ram_span_def using ram_byte_writable by fastforce


section \<open>RAM of a tree\<close>

lemma lookup_of_tree:
  assumes "region_sized mr"
  shows "map_option (\<lambda>r. range_hit r (uint addr)) (address_space_lookup_region (generate_memory_topology (Some mr)) addr) =
    region_at mr 0 False False (uint addr)"
  using generate_memory_topology_shows(2) [OF assms, of "uint addr"] uint_lt2p [of addr]
  by (simp add: flat_at_def address_space_lookup_region_def)

lemma ram_byte_of_tree:
  assumes "region_sized mr"
  shows "ram_byte (generate_memory_topology (Some mr)) w addr =
    (case region_at mr 0 False False (uint addr) of None \<Rightarrow> None
     | Some h \<Rightarrow> if memory_access_is_direct (hit_mr h) w then Some (mr_id (hit_mr h), nat (hit_offset h)) else None)"
  unfolding lookup_of_tree [OF assms, symmetric]
  by (auto simp: ram_byte_def byte_of_def range_hit_def algebra_simps split: option.split)

abbreviation demo_view :: FlatView where "demo_view \<equiv> generate_memory_topology (Some demo_tree)"
abbreviation plain_attrs :: MemTxAttrs where "plain_attrs \<equiv> \<lparr>at_secure = False, at_user = False\<rparr>"
abbreviation demo_system :: "unit system" where "demo_system \<equiv> \<lparr>ram_block = \<lambda>_ _. 0, devs = ()\<rparr>"

lemma demo_tree_sized: "region_sized demo_tree"
  by (simp add: demo_tree_def)

lemma demo_ram_byte:
  assumes "i < 2"
  shows "ram_byte demo_view True (0x2010 + word_of_nat i) = Some (('''', ''ram''), 0x1010 + i)"
proof -
  from assms consider "i = 0" | "i = 1" by linarith
  then show ?thesis
    by cases (simp_all add: ram_byte_of_tree [OF demo_tree_sized],
        simp_all add: demo_tree_def tree_defs memory_access_is_direct_def memory_region_supports_direct_access_def)
qed

section \<open>Properties\<close>

text \<open>
  C15: Writing a byte string to addresses that are writable RAM, over however many ranges of the flat
  view, succeeds and has the effect of writing its bytes one after the other, each to the byte of RAM
  its address stands for; the devices are not involved.  Reading a span of RAM delivers the bytes of
  its addresses and changes nothing.
\<close>

theorem ram_access_is_bytewise:
  assumes "region_sized mr" and "view = generate_memory_topology (Some mr)"
  shows "(ram_span view True addr (length buf) \<longrightarrow>
      address_space_write dev_ops view addr attrs buf s =
        Inr (MEMTX_OK, s\<lparr>ram_block := write_bytes view addr buf (ram_block s)\<rparr>)) \<and>
    (ram_span view False addr n \<longrightarrow>
      address_space_read_full dev_ops view addr attrs n s = Inr (MEMTX_OK, read_bytes view addr n (ram_block s), s))"
  using generate_ranges_ok [OF assms(1)] assms(2)
  by (auto simp: address_space_write_def address_space_read_full_def write_continue_ram read_continue_ram read_bytes_def)

text \<open>
  C16: A byte string written to a span of RAM in which no two addresses stand for the same byte reads
  back unchanged.
\<close>

theorem ram_write_read_round_trip:
  assumes "region_sized mr" and "view = generate_memory_topology (Some mr)" and "ram_span view True addr (length buf)"
    and "inj_on (\<lambda>i. the (ram_byte view True (addr + word_of_nat i))) {..<length buf}"
  shows "\<exists>s'. address_space_write dev_ops view addr attrs buf s = Inr (MEMTX_OK, s') \<and>
    address_space_read_full dev_ops view addr attrs (length buf) s' = Inr (MEMTX_OK, buf, s') \<and> devs s' = devs s"
proof -
  have ok: "ranges_ok view" using generate_ranges_ok [OF assms(1)] assms(2) by simp
  let ?s = "s\<lparr>ram_block := write_bytes view addr buf (ram_block s)\<rparr>"
  have "address_space_write dev_ops view addr attrs buf s = Inr (MEMTX_OK, ?s)"
    using write_continue_ram [OF ok assms(3)] by (auto simp: address_space_write_def)
  moreover have "address_space_read_full dev_ops view addr attrs (length buf) ?s = Inr (MEMTX_OK, buf, ?s)"
    by (auto simp: address_space_read_full_def read_continue_ram [OF ok ram_span_writable [OF assms(3)]]
        read_bytes_write_bytes [OF assms(3,4)])
  ultimately show ?thesis by (intro exI [of _ ?s]) simp
qed

theorem ram_access_is_bytewise_witness:
  "address_space_write (\<lambda>_. unassigned_mem_ops) demo_view 0x2010 plain_attrs [7, 8] demo_system =
   Inr (MEMTX_OK, demo_system\<lparr>ram_block := write_bytes demo_view 0x2010 [7, 8] (\<lambda>_ _. 0)\<rparr>)"
  using ram_access_is_bytewise [of demo_tree demo_view "0x2010" "[7, 8]" "\<lambda>_. unassigned_mem_ops" plain_attrs demo_system]
    demo_ram_byte by (simp add: ram_span_def demo_tree_sized)

theorem ram_write_read_round_trip_witness:
  "\<exists>s'. address_space_write (\<lambda>_. unassigned_mem_ops) demo_view 0x2010 plain_attrs [7, 8] demo_system = Inr (MEMTX_OK, s') \<and>
    address_space_read_full (\<lambda>_. unassigned_mem_ops) demo_view 0x2010 plain_attrs 2 s' = Inr (MEMTX_OK, [7, 8], s')"
proof -
  have inj: "inj_on (\<lambda>i. the (ram_byte demo_view True (0x2010 + word_of_nat i))) {..<length [7 :: u8, 8]}"
  proof (rule inj_onI)
    fix i j assume "i \<in> {..<length [7 :: u8, 8]}" "j \<in> {..<length [7 :: u8, 8]}"
      "the (ram_byte demo_view True (0x2010 + word_of_nat i)) = the (ram_byte demo_view True (0x2010 + word_of_nat j))"
    then show "i = j" using demo_ram_byte [of i] demo_ram_byte [of j] by simp
  qed
  have span: "ram_span demo_view True 0x2010 (length [7 :: u8, 8])"
    using demo_ram_byte by (simp add: ram_span_def)
  from ram_write_read_round_trip [OF demo_tree_sized refl span inj, of "\<lambda>_. unassigned_mem_ops" plain_attrs demo_system]
  obtain s' where "address_space_write (\<lambda>_. unassigned_mem_ops) demo_view 0x2010 plain_attrs [7, 8] demo_system = Inr (MEMTX_OK, s')"
    "address_space_read_full (\<lambda>_. unassigned_mem_ops) demo_view 0x2010 plain_attrs (length [7 :: u8, 8]) s' = Inr (MEMTX_OK, [7, 8], s')"
    by blast
  then show ?thesis by (intro exI [of _ s'] conjI) (simp_all only: list.size add_0_right add_Suc_right numeral_2_eq_2)
qed

end
