(* ===== verification/Can_Bus.thy ===== *)
theory Can_Bus
  imports Emu_Prelude
begin

text \<open>
  The emulated CAN bus of \<open>net/can/can_core.c\<close> and \<open>include/net/can_emu.h\<close>: frames, data length
  codes, identifier filters, and the bus that hands a frame to every client but its sender.
  Buses and clients are numbered; the pointers \<open>client->bus\<close> and the queues \<open>bus->clients\<close> are
  the two fields of a record.  The callbacks in a client's \<open>info\<close> are arguments of the send
  operation; the locale at the end states what the bus needs of them.
\<close>

section \<open>Frames\<close>

type_synonym qemu_canid_t = u32

record qemu_can_frame =
  can_id :: qemu_canid_t
  can_dlc :: u8
  flags :: u8
  data :: "u8 list"

definition QEMU_CAN_EFF_FLAG :: u32 where "QEMU_CAN_EFF_FLAG = 2 ^ 31"
definition QEMU_CAN_RTR_FLAG :: u32 where "QEMU_CAN_RTR_FLAG = 2 ^ 30"
definition QEMU_CAN_ERR_FLAG :: u32 where "QEMU_CAN_ERR_FLAG = 2 ^ 29"
definition QEMU_CAN_SFF_MASK :: u32 where "QEMU_CAN_SFF_MASK = mask 11"
definition QEMU_CAN_EFF_MASK :: u32 where "QEMU_CAN_EFF_MASK = mask 29"
definition QEMU_CAN_INV_FILTER :: u32 where "QEMU_CAN_INV_FILTER = 2 ^ 29"

lemma QEMU_CAN_masks_numerals:
  "QEMU_CAN_EFF_FLAG = 0x80000000" "QEMU_CAN_RTR_FLAG = 0x40000000" "QEMU_CAN_ERR_FLAG = 0x20000000"
  "QEMU_CAN_SFF_MASK = 0x7FF" "QEMU_CAN_EFF_MASK = 0x1FFFFFFF" "QEMU_CAN_INV_FILTER = 0x20000000"
  by (simp_all add: QEMU_CAN_EFF_FLAG_def QEMU_CAN_RTR_FLAG_def QEMU_CAN_ERR_FLAG_def
      QEMU_CAN_SFF_MASK_def QEMU_CAN_EFF_MASK_def QEMU_CAN_INV_FILTER_def mask_eq_exp_minus_1)

lemma QEMU_CAN_flag_bits [flag_simps]:
  "has_flag w QEMU_CAN_EFF_FLAG \<longleftrightarrow> bit w 31" "has_flag w QEMU_CAN_RTR_FLAG \<longleftrightarrow> bit w 30"
  "has_flag w QEMU_CAN_ERR_FLAG \<longleftrightarrow> bit w 29" "has_flag w QEMU_CAN_INV_FILTER \<longleftrightarrow> bit w 29"
  "bit QEMU_CAN_EFF_FLAG n \<longleftrightarrow> n = 31" "bit QEMU_CAN_RTR_FLAG n \<longleftrightarrow> n = 30"
  "bit QEMU_CAN_SFF_MASK n \<longleftrightarrow> n < 11" "bit QEMU_CAN_EFF_MASK n \<longleftrightarrow> n < 29"
  unfolding QEMU_CAN_EFF_FLAG_def QEMU_CAN_RTR_FLAG_def QEMU_CAN_ERR_FLAG_def
    QEMU_CAN_SFF_MASK_def QEMU_CAN_EFF_MASK_def QEMU_CAN_INV_FILTER_def has_flag_bit bit_exp_iff
    bit_mask_iff
  by auto

section \<open>Data length codes\<close>

definition dlc2len :: "u8 list" where
  "dlc2len = [0, 1, 2, 3, 4, 5, 6, 7, 8, 12, 16, 20, 24, 32, 48, 64]"

definition can_dlc2len :: "u8 \<Rightarrow> u8" where
  "can_dlc2len dlc = dlc2len ! unat (dlc AND 0x0F)"

definition len2dlc :: "u8 list" where
  "len2dlc = [0, 1, 2, 3, 4, 5, 6, 7, 8,
    9, 9, 9, 9,
    10, 10, 10, 10,
    11, 11, 11, 11,
    12, 12, 12, 12,
    13, 13, 13, 13, 13, 13, 13, 13,
    14, 14, 14, 14, 14, 14, 14, 14,
    14, 14, 14, 14, 14, 14, 14, 14,
    15, 15, 15, 15, 15, 15, 15, 15,
    15, 15, 15, 15, 15, 15, 15, 15]"

definition can_len2dlc :: "u8 \<Rightarrow> u8" where
  "can_len2dlc len = (if 64 < len then 0xF else len2dlc ! unat len)"

section \<open>Buses and clients\<close>

record CanNet =
  client_bus :: "nat \<Rightarrow> nat option"
  clients :: "nat \<Rightarrow> nat list"

definition can_bus_instance_init :: "nat \<Rightarrow> CanNet \<Rightarrow> CanNet" where
  "can_bus_instance_init b n = n\<lparr>clients := (clients n)(b := [])\<rparr>"

definition can_bus_insert_client :: "nat \<Rightarrow> nat \<Rightarrow> CanNet \<Rightarrow> int \<times> CanNet" where
  "can_bus_insert_client b c n =
     (0, n\<lparr>client_bus := (client_bus n)(c := Some b), clients := (clients n)(b := clients n b @ [c])\<rparr>)"

definition can_bus_remove_client :: "nat \<Rightarrow> CanNet \<Rightarrow> int \<times> CanNet" where
  "can_bus_remove_client c n =
     (case client_bus n c of
        None \<Rightarrow> (0, n)
      | Some b \<Rightarrow>
          (1, n\<lparr>client_bus := (client_bus n)(c := None), clients := (clients n)(b := remove1 c (clients n b))\<rparr>))"

text \<open>
  The callbacks of a peer: \<open>can_receive\<close> is a test of the world \<open>'w\<close>, \<open>receive\<close> changes it and
  returns a count.  The argument \<open>peers\<close> of the loop is the part of the queue still to be visited.
\<close>
fun send_loop :: "(nat \<Rightarrow> 'w \<Rightarrow> bool) \<Rightarrow> (nat \<Rightarrow> qemu_can_frame list \<Rightarrow> 'w \<Rightarrow> int \<times> 'w) \<Rightarrow>
    nat \<Rightarrow> qemu_can_frame list \<Rightarrow> nat list \<Rightarrow> int \<Rightarrow> 'w \<Rightarrow> int \<times> 'w" where
  "send_loop can_rx rx c frames [] ret w = (ret, w)"
| "send_loop can_rx rx c frames (peer # peers) ret w =
     (if can_rx peer w then
        if peer = c then send_loop can_rx rx c frames peers ret w
        else
          let (k, w') = rx peer frames w
          in send_loop can_rx rx c frames peers (if k > 0 then 1 else ret) w'
      else send_loop can_rx rx c frames peers ret w)"

definition can_bus_client_send :: "(nat \<Rightarrow> 'w \<Rightarrow> bool) \<Rightarrow>
    (nat \<Rightarrow> qemu_can_frame list \<Rightarrow> 'w \<Rightarrow> int \<times> 'w) \<Rightarrow>
    CanNet \<Rightarrow> nat \<Rightarrow> qemu_can_frame list \<Rightarrow> 'w \<Rightarrow> int \<times> 'w" where
  "can_bus_client_send can_rx rx n c frames w =
     (case client_bus n c of
        None \<Rightarrow> (-1, w)
      | Some b \<Rightarrow> send_loop can_rx rx c frames (clients n b) 0 w)"

section \<open>Filters\<close>

record qemu_can_filter =
  filter_id :: qemu_canid_t
  filter_mask :: qemu_canid_t

definition can_bus_filter_match :: "qemu_can_filter \<Rightarrow> qemu_canid_t \<Rightarrow> bool" where
  "can_bus_filter_match f cid =
     (if has_flag (cid OR filter_mask f) QEMU_CAN_ERR_FLAG
      then has_flag (filter_mask f) QEMU_CAN_ERR_FLAG
      else
        let m = (cid AND filter_mask f = filter_id f AND filter_mask f)
        in if has_flag (filter_id f) QEMU_CAN_INV_FILTER then \<not> m else m)"

definition can_bus_client_set_filters :: "nat \<Rightarrow> qemu_can_filter list \<Rightarrow> CanNet \<Rightarrow> int \<times> CanNet" where
  "can_bus_client_set_filters c fs n = (0, n)"

section \<open>Lemmas on the bus\<close>

text \<open>The queues and the back pointers agree, and no client is queued twice.\<close>

definition net_wf :: "CanNet \<Rightarrow> bool" where
  "net_wf n \<longleftrightarrow> (\<forall>b c. c \<in> set (clients n b) \<longleftrightarrow> client_bus n c = Some b) \<and> (\<forall>b. distinct (clients n b))"

definition empty_net :: CanNet where
  "empty_net = \<lparr>client_bus = (\<lambda>_. None), clients = (\<lambda>_. [])\<rparr>"

lemma net_wf_empty: "net_wf empty_net"
  by (simp add: net_wf_def empty_net_def)

lemma net_wf_insert:
  "\<lbrakk>net_wf n; client_bus n c = None\<rbrakk> \<Longrightarrow> net_wf (snd (can_bus_insert_client b c n))"
  by (auto simp: net_wf_def can_bus_insert_client_def)

lemma net_wf_remove: "net_wf n \<Longrightarrow> net_wf (snd (can_bus_remove_client c n))"
  by (auto simp: net_wf_def can_bus_remove_client_def split: option.split)

text \<open>
  What the bus may assume of the clients' callbacks: a receive changes the receiver's own state
  only, as a function of that state, and the readiness test reads only that state.
\<close>

locale bus_client =
  fixes can_rx :: "nat \<Rightarrow> 'w \<Rightarrow> bool"
    and rx :: "nat \<Rightarrow> qemu_can_frame list \<Rightarrow> 'w \<Rightarrow> int \<times> 'w"
    and st :: "'w \<Rightarrow> nat \<Rightarrow> 's"
    and ready :: "'s \<Rightarrow> bool"
    and recv :: "qemu_can_frame list \<Rightarrow> 's \<Rightarrow> 's"
  assumes can_rx_ready: "can_rx p w \<longleftrightarrow> ready (st w p)"
    and st_rx: "st (snd (rx p fs w)) q = (if q = p then recv fs (st w p) else st w q)"
begin

text \<open>The loop over a queue without repetitions updates each ready peer once, and nothing else.\<close>

lemma st_send_loop:
  assumes "distinct peers"
  shows "st (snd (send_loop can_rx rx c fs peers ret w)) q =
    (if q \<in> set peers \<and> q \<noteq> c \<and> ready (st w q) then recv fs (st w q) else st w q)"
  using assms
proof (induction peers arbitrary: ret w)
  case (Cons p peers)
  show ?case
  proof (cases "can_rx p w \<and> p \<noteq> c")
    case True
    obtain k w' where kw: "rx p fs w = (k, w')" by fastforce
    then have "st w' r = (if r = p then recv fs (st w p) else st w r)" for r
      using st_rx [of p fs w r] by simp
    with True kw Cons show ?thesis by (auto simp: can_rx_ready)
  next
    case False
    with Cons show ?thesis by (auto simp: can_rx_ready)
  qed
qed simp

lemma st_send:
  assumes "net_wf n" and "client_bus n c = Some b"
  shows "st (snd (can_bus_client_send can_rx rx n c fs w)) q =
    (if client_bus n q = Some b \<and> q \<noteq> c \<and> ready (st w q) then recv fs (st w q) else st w q)"
  using assms by (simp add: can_bus_client_send_def st_send_loop net_wf_def)

end

section \<open>Properties of the bus\<close>

lemma and_15: "d AND 0x0F = take_bit 4 d" for d :: u8
  by (simp add: take_bit_eq_mask mask_eq_exp_minus_1)

lemma unat_and_15: "unat (d AND 0x0F :: u8) < 16"
  unfolding and_15 by (simp add: unsigned_take_bit_eq take_bit_nat_less_exp [of 4, simplified])

lemma u8_cases_below:
  fixes d :: u8
  assumes "unat d < k"
  obtains n where "n < k" and "d = word_of_nat n"
  using assms that [of "unat d"] by simp

lemma can_dlc2len_and_15: "can_dlc2len (d AND 0x0F) = can_dlc2len d"
  by (simp add: can_dlc2len_def and_15)

lemma dlc_tables:
  "\<forall>l\<in>set [0..<65]. (word_of_nat l :: u8) \<le> can_dlc2len (can_len2dlc (word_of_nat l))"
  "\<forall>d\<in>set [0..<16]. can_len2dlc (can_dlc2len (word_of_nat d)) = word_of_nat d"
  "\<forall>l\<in>set [0..<65]. \<forall>d\<in>set [0..<16].
     (word_of_nat l :: u8) \<le> can_dlc2len (word_of_nat d) \<longrightarrow> can_len2dlc (word_of_nat l) \<le> word_of_nat d"
  by code_simp+

text \<open>
  C35.  \<open>can_len2dlc\<close> chooses the smallest data length code whose length holds the given number of
  bytes, for every length of a CAN FD frame, and a code survives the way to its length and back.
\<close>
theorem can_len2dlc_least:
  assumes "len \<le> 64"
  shows "len \<le> can_dlc2len (can_len2dlc len) \<and>
    (\<forall>d. len \<le> can_dlc2len d \<longrightarrow> can_len2dlc len \<le> d AND 0x0F) \<and>
    (\<forall>d. can_len2dlc (can_dlc2len d) = d AND 0x0F)"
proof -
  have "unat len < 65" using assms by (simp add: word_le_nat_alt)
  then obtain l where l: "l \<in> set [0..<65]" "len = word_of_nat l"
    by (rule u8_cases_below) simp
  have d: "\<exists>n\<in>set [0..<16]. d AND 0x0F = word_of_nat n" for d :: u8
    by (rule u8_cases_below [OF unat_and_15 [of d]]) (auto intro: bexI)
  have "can_len2dlc len \<le> d AND 0x0F" if "len \<le> can_dlc2len d" for d
    using d [of d] dlc_tables(3) l that can_dlc2len_and_15 [of d] by metis
  moreover have "can_len2dlc (can_dlc2len d) = d AND 0x0F" for d
    using d [of d] dlc_tables(2) can_dlc2len_and_15 [of d] by metis
  ultimately show ?thesis using dlc_tables(1) l by blast
qed

theorem can_len2dlc_least_witness: "(13 :: u8) \<le> 64 \<and> 13 \<le> can_dlc2len (can_len2dlc 13)"
  using can_len2dlc_least [of 13] by simp

text \<open>
  A filter without the error flag in its mask rejects every error frame, and takes a data frame
  exactly when the identifier agrees on the mask, or disagrees if the filter is inverted.
\<close>
lemma can_bus_filter_match_data:
  assumes "\<not> has_flag (filter_mask f) QEMU_CAN_ERR_FLAG"
  shows "can_bus_filter_match f cid \<longleftrightarrow> \<not> has_flag cid QEMU_CAN_ERR_FLAG \<and>
    ((\<forall>n. bit (filter_mask f) n \<longrightarrow> bit cid n = bit (filter_id f) n) \<noteq>
     has_flag (filter_id f) QEMU_CAN_INV_FILTER)"
proof -
  have "(cid AND filter_mask f = filter_id f AND filter_mask f) \<longleftrightarrow>
      (\<forall>n. bit (filter_mask f) n \<longrightarrow> bit cid n = bit (filter_id f) n)"
    by (rule iffI, metis bit_and_iff) (rule bit_word_eqI, auto simp: bit_and_iff)
  with assms show ?thesis by (auto simp: can_bus_filter_match_def has_flag_or)
qed

end
