(* ===== verification/Can_Device.thy ===== *)
theory Can_Device
  imports Irq_Line Can_Bus
begin

text \<open>
  The CAN controller of \<open>hw/net/can/can.c\<close> and \<open>include/hw/net/can.h\<close>.  A device is a record of
  its registers and the log of its interrupt line; the operations that send on the bus work on a
  world of numbered devices and the bus of \<open>Can_Bus\<close>, whose client numbers are the device numbers.
\<close>

section \<open>Registers\<close>

definition NREG :: nat where "NREG = 11"

definition TFI :: u64 where "TFI = 0x00"
definition TID :: u64 where "TID = 0x04"
definition TDA :: u64 where "TDA = 0x08"
definition TDB :: u64 where "TDB = 0x0C"
definition RFI :: u64 where "RFI = 0x10"
definition RID :: u64 where "RID = 0x14"
definition RDA :: u64 where "RDA = 0x18"
definition RDB :: u64 where "RDB = 0x1C"
definition SR :: u64 where "SR = 0x20"
definition CMR :: u64 where "CMR = 0x24"
definition IER :: u64 where "IER = 0x28"

definition DLC_POS :: nat where "DLC_POS = 16"
definition DLC_MASK :: u32 where "DLC_MASK = push_bit DLC_POS (mask 4)"
definition RTR :: u32 where "RTR = 2 ^ 30"
definition FF :: u32 where "FF = 2 ^ 31"

definition IDS :: u32 where "IDS = mask 11"
definition IDE :: u32 where "IDE = mask 29"

definition RBS :: u32 where "RBS = 2 ^ 0"
definition DOS :: u32 where "DOS = 2 ^ 1"
definition TBS :: u32 where "TBS = 2 ^ 2"
definition TCS :: u32 where "TCS = 2 ^ 3"

definition TR :: u32 where "TR = 2 ^ 0"
definition RRB :: u32 where "RRB = 2 ^ 2"
definition CDO :: u32 where "CDO = 2 ^ 3"

definition RIE :: u32 where "RIE = 2 ^ 0"
definition TIE :: u32 where "TIE = 2 ^ 1"
definition DOIE :: u32 where "DOIE = 2 ^ 3"

record CanState =
  tfi :: u32
  tid :: u32
  tda :: u32
  tdb :: u32
  rfi :: u32
  rid :: u32
  rda :: u32
  rdb :: u32
  sr :: u32
  cmr :: u32
  ier :: u32
  irq :: irq_log
  canbus :: "nat option"

lemma can_reg_distinct [simp]:
  "TFI \<noteq> TID" "TFI \<noteq> TDA" "TFI \<noteq> TDB" "TFI \<noteq> CMR" "TFI \<noteq> IER"
  "TID \<noteq> TFI" "TID \<noteq> TDA" "TID \<noteq> TDB" "TID \<noteq> CMR" "TID \<noteq> IER"
  "TDA \<noteq> TFI" "TDA \<noteq> TID" "TDA \<noteq> TDB" "TDA \<noteq> CMR" "TDA \<noteq> IER"
  "TDB \<noteq> TFI" "TDB \<noteq> TID" "TDB \<noteq> TDA" "TDB \<noteq> CMR" "TDB \<noteq> IER"
  "CMR \<noteq> TFI" "CMR \<noteq> TID" "CMR \<noteq> TDA" "CMR \<noteq> TDB" "CMR \<noteq> IER"
  "IER \<noteq> TFI" "IER \<noteq> TID" "IER \<noteq> TDA" "IER \<noteq> TDB" "IER \<noteq> CMR"
  by (simp_all add: TFI_def TID_def TDA_def TDB_def CMR_def IER_def)

lemma can_masks [flag_simps]:
  "has_flag w RTR \<longleftrightarrow> bit w 30" "has_flag w FF \<longleftrightarrow> bit w 31"
  "has_flag w RBS \<longleftrightarrow> bit w 0" "has_flag w DOS \<longleftrightarrow> bit w 1" "has_flag w TCS \<longleftrightarrow> bit w 3"
  "has_flag w TR \<longleftrightarrow> bit w 0" "has_flag w RRB \<longleftrightarrow> bit w 2" "has_flag w CDO \<longleftrightarrow> bit w 3"
  "has_flag w RIE \<longleftrightarrow> bit w 0" "has_flag w TIE \<longleftrightarrow> bit w 1" "has_flag w DOIE \<longleftrightarrow> bit w 3"
  unfolding RTR_def FF_def RBS_def DOS_def TCS_def TR_def RRB_def CDO_def RIE_def TIE_def DOIE_def
    has_flag_bit
  by (rule refl)+

lemma can_mask_bits [flag_simps]:
  "bit RTR n \<longleftrightarrow> n = 30" "bit FF n \<longleftrightarrow> n = 31" "bit IDS n \<longleftrightarrow> n < 11" "bit IDE n \<longleftrightarrow> n < 29"
  "bit RBS n \<longleftrightarrow> n = 0" "bit DOS n \<longleftrightarrow> n = 1" "bit TBS n \<longleftrightarrow> n = 2" "bit TCS n \<longleftrightarrow> n = 3"
  "bit TR n \<longleftrightarrow> n = 0" "bit RRB n \<longleftrightarrow> n = 2" "bit CDO n \<longleftrightarrow> n = 3"
  "bit RIE n \<longleftrightarrow> n = 0" "bit TIE n \<longleftrightarrow> n = 1" "bit DOIE n \<longleftrightarrow> n = 3"
  "bit DLC_MASK n \<longleftrightarrow> 16 \<le> n \<and> n < 20"
  unfolding RTR_def FF_def IDS_def IDE_def RBS_def DOS_def TBS_def TCS_def TR_def RRB_def CDO_def
    RIE_def TIE_def DOIE_def DLC_MASK_def DLC_POS_def bit_exp_iff bit_mask_iff bit_push_bit_iff
  by auto

section \<open>Interrupt line and status bits\<close>

definition can_check_and_set_interrupt :: "CanState \<Rightarrow> CanState" where
  "can_check_and_set_interrupt s =
     (if (ier s AND RIE) AND (sr s AND RBS) \<noteq> 0 \<or> (ier s AND DOIE) AND (sr s AND DOS) \<noteq> 0
      then s\<lparr>irq := qemu_irq_raise recorder (irq s)\<rparr>
      else if (ier s AND TIE) AND (sr s AND TCS) \<noteq> 0
      then s\<lparr>irq := qemu_irq_pulse recorder (irq s)\<rparr>
      else s)"

definition can_check_and_clear_interrupt :: "CanState \<Rightarrow> CanState" where
  "can_check_and_clear_interrupt s =
     (if \<not> ((ier s AND RIE) AND (sr s AND RBS) \<noteq> 0 \<or>
            (ier s AND TIE) AND (sr s AND TCS) \<noteq> 0 \<or>
            (ier s AND DOIE) AND (sr s AND DOS) \<noteq> 0)
      then s\<lparr>irq := qemu_irq_lower recorder (irq s)\<rparr>
      else s)"

definition can_set_status_bit :: "u32 \<Rightarrow> CanState \<Rightarrow> CanState" where
  "can_set_status_bit b s = can_check_and_set_interrupt (s\<lparr>sr := sr s OR b\<rparr>)"

definition can_reset_status_bit :: "u32 \<Rightarrow> CanState \<Rightarrow> CanState" where
  "can_reset_status_bit b s = can_check_and_clear_interrupt (s\<lparr>sr := sr s AND NOT b\<rparr>)"

section \<open>Receiving\<close>

text \<open>
  A world: the devices by number and the bus.  \<open>container_of\<close> recovers the device from its
  bus client; here both have the same number.
\<close>

record CanWorld =
  net :: CanNet
  dev :: "nat \<Rightarrow> CanState"

definition upd_dev :: "nat \<Rightarrow> (CanState \<Rightarrow> CanState) \<Rightarrow> CanWorld \<Rightarrow> CanWorld" where
  "upd_dev i f w = w\<lparr>dev := (dev w)(i := f (dev w i))\<rparr>"

definition can_can_receive :: "nat \<Rightarrow> CanWorld \<Rightarrow> bool" where
  "can_can_receive i w \<longleftrightarrow> True"

text \<open>The two data registers after the copying loop, whose bound is the smaller of the DLC and 8.\<close>

definition rx_data :: "u8 list \<Rightarrow> nat \<Rightarrow> u32 \<times> u32" where
  "rx_data d dlc = foldl (\<lambda>(a, b) i.
      if i < 4 then (a OR push_bit (i * 8) (ucast (d ! i)), b)
      else (a, b OR push_bit ((i - 4) * 8) (ucast (d ! i)))) (0, 0) [0..<min dlc 8]"

definition can_receive_frame :: "qemu_can_frame \<Rightarrow> CanState \<Rightarrow> CanState" where
  "can_receive_frame fr s =
    (let s1 = (if has_flag (sr s) RBS then can_set_status_bit DOS s else s);
         s2 = s1\<lparr>rid := can_id fr AND QEMU_CAN_EFF_MASK,
           rfi := (can_id fr AND QEMU_CAN_EFF_FLAG) OR (can_id fr AND QEMU_CAN_RTR_FLAG) OR
             (push_bit DLC_POS (ucast (can_dlc fr)) AND DLC_MASK)\<rparr>;
         (a, b) = rx_data (data fr) (unat (can_dlc fr))
     in can_set_status_bit RBS (s2\<lparr>rda := a, rdb := b\<rparr>))"

definition can_receive :: "nat \<Rightarrow> qemu_can_frame list \<Rightarrow> CanWorld \<Rightarrow> int \<times> CanWorld" where
  "can_receive i buf w = (0, upd_dev i (can_receive_frame (hd buf)) w)"

section \<open>Register reads\<close>

definition can_read :: "u64 \<Rightarrow> CanState \<Rightarrow> u64" where
  "can_read addr s = ucast (
     if addr = TFI then 0
     else if addr = TID then 0
     else if addr = TDA then 0
     else if addr = TDB then 0
     else if addr = RFI then rfi s
     else if addr = RID then rid s
     else if addr = RDA then rda s
     else if addr = RDB then rdb s
     else if addr = SR then sr s
     else if addr = CMR then cmr s
     else if addr = IER then ier s
     else (0 :: u32))"

section \<open>Transmission\<close>

text \<open>The data bytes of the frame: the loop fills the zero-initialised array of 64 bytes.\<close>

definition tx_data :: "u32 \<Rightarrow> u32 \<Rightarrow> nat \<Rightarrow> u8 list" where
  "tx_data a b dlc = foldl (\<lambda>d i.
      if i < 4 then d[i := ucast (drop_bit (i * 8) a AND 0xFF)]
      else d[i := ucast (drop_bit ((i - 4) * 8) b AND 0xFF)]) (replicate 64 0) [0..<min dlc 8]"

definition can_frame :: "CanState \<Rightarrow> qemu_can_frame" where
  "can_frame s =
    (let cid = (tfi s AND RTR) OR (tfi s AND FF);
         cid = (if has_flag (tfi s) FF then cid OR (tid s AND IDS) else cid OR (tid s AND IDE));
         dlc = (if \<not> has_flag (tfi s) RTR then ucast (drop_bit DLC_POS (tfi s AND DLC_MASK)) else 0 :: u8)
     in \<lparr>can_id = cid, can_dlc = dlc, flags = 0, data = tx_data (tda s) (tdb s) (unat dlc)\<rparr>)"

definition can_transmit :: "nat \<Rightarrow> CanWorld \<Rightarrow> CanWorld" where
  "can_transmit i w =
    (let w = snd (can_bus_client_send can_can_receive can_receive (net w) i [can_frame (dev w i)] w)
     in upd_dev i (can_set_status_bit TCS) w)"

section \<open>Register writes\<close>

definition can_write_IER :: "u64 \<Rightarrow> CanState \<Rightarrow> CanState" where
  "can_write_IER val s =
     can_check_and_clear_interrupt (can_check_and_set_interrupt (s\<lparr>ier := ucast (val AND 0x0F)\<rparr>))"

definition can_write_CMR :: "nat \<Rightarrow> u64 \<Rightarrow> CanWorld \<Rightarrow> CanWorld" where
  "can_write_CMR i val w =
    (let w = (if has_flag val (ucast RRB)
              then upd_dev i (\<lambda>s. let s = can_reset_status_bit RBS s in s\<lparr>cmr := cmr s AND NOT RRB\<rparr>) w
              else w);
         w = (if has_flag val (ucast CDO)
              then upd_dev i (\<lambda>s. let s = can_reset_status_bit DOS s in s\<lparr>cmr := cmr s AND NOT CDO\<rparr>) w
              else w)
     in if has_flag val (ucast TR)
        then can_transmit i (upd_dev i (\<lambda>s. can_reset_status_bit TCS (s\<lparr>cmr := cmr s AND NOT TR\<rparr>)) w)
        else w)"

definition can_write :: "nat \<Rightarrow> u64 \<Rightarrow> u64 \<Rightarrow> CanWorld \<Rightarrow> CanWorld" where
  "can_write i addr val w =
    (if addr = TFI then upd_dev i (\<lambda>s. s\<lparr>tfi := ucast val\<rparr>) w
     else if addr = TID then upd_dev i (\<lambda>s. s\<lparr>tid := ucast val\<rparr>) w
     else if addr = TDA then upd_dev i (\<lambda>s. s\<lparr>tda := ucast val\<rparr>) w
     else if addr = TDB then upd_dev i (\<lambda>s. s\<lparr>tdb := ucast val\<rparr>) w
     else if addr = RFI \<or> addr = RID \<or> addr = RDA \<or> addr = RDB \<or> addr = SR then w
     else if addr = CMR then can_write_CMR i val w
     else if addr = IER then upd_dev i (can_write_IER val) w
     else w)"

section \<open>Reset and set-up\<close>

definition can_reset :: "CanState \<Rightarrow> CanState" where
  "can_reset s = (let s = s\<lparr>tfi := 0, tid := 0, tda := 0, tdb := 0, rfi := 0, rid := 0, rda := 0, rdb := 0,
      sr := 0, cmr := 0, ier := 0\<rparr> in s\<lparr>irq := qemu_irq_lower recorder (irq s)\<rparr>)"

definition can_can_connect_to_bus :: "nat \<Rightarrow> nat \<Rightarrow> CanWorld \<Rightarrow> int \<times> CanWorld" where
  "can_can_connect_to_bus i b w =
    (let (r, n) = can_bus_insert_client b i (net w); w = w\<lparr>net := n\<rparr>
     in if r < 0 then (-1, w) else (0, w))"

definition can_realize :: "nat \<Rightarrow> CanWorld \<Rightarrow> CanWorld" where
  "can_realize i w = (case canbus (dev w i) of None \<Rightarrow> w | Some b \<Rightarrow> snd (can_can_connect_to_bus i b w))"

text \<open>A freshly allocated object is zero-filled; its \<open>canbus\<close> link is a property set by the machine.\<close>

definition can_init :: "nat option \<Rightarrow> CanState" where
  "can_init bus = \<lparr>tfi = 0, tid = 0, tda = 0, tdb = 0, rfi = 0, rid = 0, rda = 0, rdb = 0,
     sr = 0, cmr = 0, ier = 0, irq = [], canbus = bus\<rparr>"

section \<open>Runs\<close>

text \<open>
  What may happen to the world: guest accesses and resets of any device, and frames sent by a bus
  client that is not one of the devices (a host interface).
\<close>

datatype can_event =
    CanRead nat u64
  | CanWrite nat u64 u64
  | CanReset nat
  | BusFrame nat qemu_can_frame

definition can_exec :: "can_event \<Rightarrow> CanWorld \<Rightarrow> CanWorld" where
  "can_exec e w = (case e of
      CanRead i addr \<Rightarrow> w
    | CanWrite i addr val \<Rightarrow> can_write i addr val w
    | CanReset i \<Rightarrow> upd_dev i can_reset w
    | BusFrame c fr \<Rightarrow> snd (can_bus_client_send can_can_receive can_receive (net w) c [fr] w))"

fun can_run :: "can_event list \<Rightarrow> CanWorld \<Rightarrow> CanWorld" where
  "can_run [] w = w"
| "can_run (e # es) w = can_run es (can_exec e w)"

section \<open>Basic lemmas\<close>

lemma can_cmd_flags [flag_simps]:
  "has_flag (v :: u64) (ucast RRB) \<longleftrightarrow> bit v 2" "has_flag v (ucast CDO) \<longleftrightarrow> bit v 3"
  "has_flag v (ucast TR) \<longleftrightarrow> bit v 0" "has_flag v (ucast RIE) \<longleftrightarrow> bit v 0"
  by (auto simp: has_flag_iff_bit bit_ucast_iff can_mask_bits)

lemma upd_dev_simps [simp]:
  "dev (upd_dev i f w) j = (if j = i then f (dev w i) else dev w j)" "net (upd_dev i f w) = net w"
  by (simp_all add: upd_dev_def)

text \<open>The receive condition of the interrupt; the other two conditions compare different bits.\<close>

definition rx_pending :: "CanState \<Rightarrow> bool" where
  "rx_pending s \<longleftrightarrow> has_flag (ier s) RIE \<and> has_flag (sr s) RBS"

lemma and_masks_eq_0: "(\<And>n. bit m n \<Longrightarrow> bit k n \<Longrightarrow> False) \<Longrightarrow> (a AND m) AND (b AND k) = 0"
  for a b m k :: "'a::len word"
  by (rule bit_word_eqI) (auto simp: bit_and_iff)

lemma can_irq_conditions:
  "(ier s AND RIE) AND (sr s AND RBS) \<noteq> 0 \<longleftrightarrow> rx_pending s"
  "(ier s AND TIE) AND (sr s AND TCS) = 0" "(ier s AND DOIE) AND (sr s AND DOS) = 0"
proof -
  have "(ier s AND RIE) AND (sr s AND RBS) = (ier s AND sr s) AND 2 ^ 0"
    unfolding RIE_def RBS_def by (rule bit_word_eqI) (auto simp: bit_and_iff)
  then have "(ier s AND RIE) AND (sr s AND RBS) \<noteq> 0 \<longleftrightarrow> has_flag (ier s AND sr s) (2 ^ 0)"
    by (simp only: has_flag_def)
  then show "(ier s AND RIE) AND (sr s AND RBS) \<noteq> 0 \<longleftrightarrow> rx_pending s"
    unfolding has_flag_bit rx_pending_def can_masks bit_and_iff .
qed (auto intro!: and_masks_eq_0 simp: can_mask_bits)

lemma can_check_simps:
  "can_check_and_set_interrupt s = (if rx_pending s then s\<lparr>irq := irq s @ [1]\<rparr> else s)"
  "can_check_and_clear_interrupt s = (if rx_pending s then s else s\<lparr>irq := irq s @ [0]\<rparr>)"
  by (simp_all add: can_check_and_set_interrupt_def can_check_and_clear_interrupt_def can_irq_conditions)

lemma can_status_frame [simp]:
  "tfi (can_set_status_bit b s) = tfi s" "tid (can_set_status_bit b s) = tid s"
  "tda (can_set_status_bit b s) = tda s" "tdb (can_set_status_bit b s) = tdb s"
  "rfi (can_set_status_bit b s) = rfi s" "rid (can_set_status_bit b s) = rid s"
  "rda (can_set_status_bit b s) = rda s" "rdb (can_set_status_bit b s) = rdb s"
  "sr (can_set_status_bit b s) = sr s OR b" "cmr (can_set_status_bit b s) = cmr s"
  "ier (can_set_status_bit b s) = ier s" "canbus (can_set_status_bit b s) = canbus s"
  "tfi (can_reset_status_bit b s) = tfi s" "tid (can_reset_status_bit b s) = tid s"
  "tda (can_reset_status_bit b s) = tda s" "tdb (can_reset_status_bit b s) = tdb s"
  "rfi (can_reset_status_bit b s) = rfi s" "rid (can_reset_status_bit b s) = rid s"
  "rda (can_reset_status_bit b s) = rda s" "rdb (can_reset_status_bit b s) = rdb s"
  "sr (can_reset_status_bit b s) = sr s AND NOT b" "cmr (can_reset_status_bit b s) = cmr s"
  "ier (can_reset_status_bit b s) = ier s" "canbus (can_reset_status_bit b s) = canbus s"
  by (simp_all add: can_set_status_bit_def can_reset_status_bit_def can_check_simps)

interpretation can_irq: level_irq rx_pending irq can_check_and_set_interrupt can_check_and_clear_interrupt
  by unfold_locales (auto simp: can_check_simps rx_pending_def)

interpretation can_client: bus_client can_can_receive can_receive dev "\<lambda>_. True"
  "\<lambda>fs. can_receive_frame (hd fs)"
  by unfold_locales (simp_all add: can_can_receive_def can_receive_def)

lemma net_send_loop:
  "net (snd (send_loop can_can_receive can_receive c fs ps ret w)) = net w"
  by (induction ps arbitrary: ret w) (simp_all add: can_can_receive_def can_receive_def)

lemma net_send [simp]:
  "net (snd (can_bus_client_send can_can_receive can_receive n c fs w)) = net w"
  by (simp add: can_bus_client_send_def net_send_loop split: option.split)

text \<open>Every receive answers 0, so the sender never learns that a frame was taken.\<close>

lemma fst_send_loop: "fst (send_loop can_can_receive can_receive c fs ps ret w) = ret"
  by (induction ps arbitrary: ret w) (simp_all add: can_can_receive_def can_receive_def)

lemma can_bus_client_send_result:
  "fst (can_bus_client_send can_can_receive can_receive n c fs w) = (if client_bus n c = None then -1 else 0)"
  by (simp add: can_bus_client_send_def fst_send_loop split: option.split)

lemma dev_send:
  assumes "net_wf n"
  shows "dev (snd (can_bus_client_send can_can_receive can_receive n c [fr] w)) j =
    (if client_bus n c \<noteq> None \<and> client_bus n j = client_bus n c \<and> j \<noteq> c
     then can_receive_frame fr (dev w j) else dev w j)"
proof (cases "client_bus n c")
  case None
  then show ?thesis by (simp add: can_bus_client_send_def)
next
  case (Some b)
  with can_client.st_send [OF assms Some, of "[fr]" w j] show ?thesis by simp
qed

lemma dev_transmit:
  assumes "net_wf (net w)"
  shows "dev (can_transmit i w) j =
    (if j = i then can_set_status_bit TCS (dev w i)
     else if client_bus (net w) i \<noteq> None \<and> client_bus (net w) j = client_bus (net w) i
     then can_receive_frame (can_frame (dev w i)) (dev w j) else dev w j)"
  using assms by (simp add: can_transmit_def Let_def dev_send)

text \<open>The effect of a command on the device itself, before the transmission it may start.\<close>

definition cmd_state :: "u64 \<Rightarrow> CanState \<Rightarrow> CanState" where
  "cmd_state val s =
    (let s = (if has_flag val (ucast RRB) then let s = can_reset_status_bit RBS s in s\<lparr>cmr := cmr s AND NOT RRB\<rparr> else s);
         s = (if has_flag val (ucast CDO) then let s = can_reset_status_bit DOS s in s\<lparr>cmr := cmr s AND NOT CDO\<rparr> else s)
     in if has_flag val (ucast TR) then can_reset_status_bit TCS (s\<lparr>cmr := cmr s AND NOT TR\<rparr>) else s)"

lemma upd_dev_id [simp]: "upd_dev i (\<lambda>s. s) w = w"
  by (simp add: upd_dev_def)

lemma can_write_CMR_alt: "can_write_CMR i val w =
  (let w' = upd_dev i (cmd_state val) w in if has_flag val (ucast TR) then can_transmit i w' else w')"
  by (simp add: can_write_CMR_def Let_def) (auto simp: upd_dev_def cmd_state_def Let_def)

lemma cmd_state_frame [simp]:
  "tfi (cmd_state val s) = tfi s" "tid (cmd_state val s) = tid s" "tda (cmd_state val s) = tda s"
  "tdb (cmd_state val s) = tdb s" "rfi (cmd_state val s) = rfi s" "rid (cmd_state val s) = rid s"
  "rda (cmd_state val s) = rda s" "rdb (cmd_state val s) = rdb s" "ier (cmd_state val s) = ier s"
  by (simp_all add: cmd_state_def Let_def)

lemma sr_cmd_state:
  "has_flag (sr (cmd_state val s)) RBS \<longleftrightarrow> has_flag (sr s) RBS \<and> \<not> has_flag val (ucast RRB)"
  "has_flag (sr (cmd_state val s)) DOS \<longleftrightarrow> has_flag (sr s) DOS \<and> \<not> has_flag val (ucast CDO)"
  "has_flag (sr (cmd_state val s)) TCS \<longleftrightarrow> has_flag (sr s) TCS \<and> \<not> has_flag val (ucast TR)"
  by (auto simp: cmd_state_def Let_def flag_simps bit_and_iff bit_not_iff)

lemma can_write_at [simp]:
  "can_write i CMR val w = can_write_CMR i val w" "can_write i IER val w = upd_dev i (can_write_IER val) w"
  by (simp_all add: can_write_def) (simp_all add: CMR_def IER_def RFI_def RID_def RDA_def RDB_def SR_def)

lemma net_can_transmit [simp]: "net (can_transmit i w) = net w"
  by (simp add: can_transmit_def Let_def)

lemma net_can_write [simp]: "net (can_write i addr val w) = net w"
  by (simp add: can_write_def can_write_CMR_def Let_def)

lemma net_can_exec [simp]: "net (can_exec e w) = net w"
  by (simp add: can_exec_def split: can_event.split)

section \<open>Invariants of the devices\<close>

text \<open>
  A property of single devices holds throughout a run if the atomic device operations keep it.
  The parameter \<open>ok\<close> restricts the values written to IER.
\<close>

definition ier_writes :: "(u64 \<Rightarrow> bool) \<Rightarrow> can_event \<Rightarrow> bool" where
  "ier_writes ok e \<longleftrightarrow> (case e of CanWrite i addr val \<Rightarrow> addr = IER \<longrightarrow> ok val | _ \<Rightarrow> True)"

locale can_invariant =
  fixes ok :: "u64 \<Rightarrow> bool" and P :: "CanState \<Rightarrow> bool"
  assumes tx_regs: "P s \<Longrightarrow> P (s\<lparr>tfi := v\<rparr>)" "P s \<Longrightarrow> P (s\<lparr>tid := v\<rparr>)"
      "P s \<Longrightarrow> P (s\<lparr>tda := v\<rparr>)" "P s \<Longrightarrow> P (s\<lparr>tdb := v\<rparr>)"
    and cmd: "P s \<Longrightarrow> P (s\<lparr>cmr := cmr s AND NOT v\<rparr>)"
    and clear: "P s \<Longrightarrow> P (can_reset_status_bit b s)"
    and sent: "P s \<Longrightarrow> P (can_set_status_bit TCS s)"
    and received: "P s \<Longrightarrow> P (can_receive_frame fr s)"
    and ier_write: "\<lbrakk>ok val; P s\<rbrakk> \<Longrightarrow> P (can_write_IER val s)"
    and reset: "P s \<Longrightarrow> P (can_reset s)"
begin

lemma transmit: "\<lbrakk>net_wf (net w); \<And>j. P (dev w j)\<rbrakk> \<Longrightarrow> P (dev (can_transmit i w) j)"
  by (simp add: dev_transmit sent received)

lemma write_CMR:
  assumes "net_wf (net w)" and "\<And>j. P (dev w j)"
  shows "P (dev (can_write_CMR i val w) j)"
proof -
  have "P (cmd_state val s)" if "P s" for s
    by (simp add: cmd_state_def Let_def cmd clear that del: can_status_frame)
  then have "P (dev (upd_dev i (cmd_state val) w) k)" for k
    using assms(2) by simp
  then show ?thesis
    using assms(1) by (simp add: can_write_CMR_alt Let_def transmit del: upd_dev_simps(1))
qed

lemma exec:
  assumes "net_wf (net w)" and "\<And>j. P (dev w j)" and "ier_writes ok e"
  shows "P (dev (can_exec e w) j)"
  using assms
  by (auto simp: can_exec_def can_write_def ier_writes_def dev_send
      intro: tx_regs ier_write received reset write_CMR split: can_event.splits)

lemma run:
  assumes "net_wf (net w)" and "\<And>j. P (dev w j)" and "list_all (ier_writes ok) es"
  shows "P (dev (can_run es w) j)"
  using assms by (induction es arbitrary: w) (simp_all add: exec)

end

lemma can_receive_frame_alt:
  "can_receive_frame fr s =
    can_set_status_bit RBS ((if has_flag (sr s) RBS then can_set_status_bit DOS s else s)
      \<lparr>rid := can_id fr AND QEMU_CAN_EFF_MASK,
       rfi := (can_id fr AND QEMU_CAN_EFF_FLAG) OR (can_id fr AND QEMU_CAN_RTR_FLAG) OR
         (push_bit DLC_POS (ucast (can_dlc fr)) AND DLC_MASK),
       rda := fst (rx_data (data fr) (unat (can_dlc fr))), rdb := snd (rx_data (data fr) (unat (can_dlc fr)))\<rparr>)"
  by (simp add: can_receive_frame_def Let_def split: prod.split)

lemma coherent_set_status: "can_irq.coherent s \<Longrightarrow> can_irq.coherent (can_set_status_bit b s)"
  unfolding can_set_status_bit_def
  by (erule can_irq.coherent_grow) (auto simp: rx_pending_def has_flag_or)

lemma coherent_reset_status: "can_irq.coherent s \<Longrightarrow> can_irq.coherent (can_reset_status_bit b s)"
  unfolding can_reset_status_bit_def
  by (erule can_irq.coherent_shrink) (auto simp: rx_pending_def flag_simps bit_and_iff)

lemma coherent_receive: "can_irq.coherent s \<Longrightarrow> can_irq.coherent (can_receive_frame fr s)"
  unfolding can_receive_frame_alt
  by (rule coherent_set_status,
      rule can_irq.coherent_frame [of "if has_flag (sr s) RBS then can_set_status_bit DOS s else s"])
    (simp_all add: coherent_set_status rx_pending_def)

lemma coherent_other_regs [simp]:
  "can_irq.coherent (s\<lparr>tfi := v\<rparr>) = can_irq.coherent s" "can_irq.coherent (s\<lparr>tid := v\<rparr>) = can_irq.coherent s"
  "can_irq.coherent (s\<lparr>tda := v\<rparr>) = can_irq.coherent s" "can_irq.coherent (s\<lparr>tdb := v\<rparr>) = can_irq.coherent s"
  "can_irq.coherent (s\<lparr>cmr := v\<rparr>) = can_irq.coherent s"
  by (simp_all add: can_irq.coherent_def rx_pending_def)

interpretation can_line: can_invariant "\<lambda>_. True" can_irq.coherent
proof unfold_locales
  show "can_irq.coherent (can_write_IER val s)" for val s
    unfolding can_write_IER_def by (rule can_irq.coherent_both)
  show "can_irq.coherent (can_reset s)" for s
    by (simp add: can_irq.coherent_def can_reset_def Let_def rx_pending_def)
qed (simp_all add: coherent_set_status coherent_reset_status coherent_receive coherent_other_regs)

text \<open>The registers hold only bits they define; the command register always reads as zero.\<close>

definition can_wf :: "CanState \<Rightarrow> bool" where
  "can_wf s \<longleftrightarrow> cmr s = 0 \<and> (\<forall>n. bit (sr s) n \<longrightarrow> n \<in> {0, 1, 3}) \<and> (\<forall>n. bit (ier s) n \<longrightarrow> n < 4) \<and>
     (\<forall>n. bit (rid s) n \<longrightarrow> n < 29) \<and> (\<forall>n. bit (rfi s) n \<longrightarrow> n \<in> {16, 17, 18, 19, 30, 31})"

lemma bit_and_0xF: "bit (v AND 0x0F) n \<longleftrightarrow> n < 4 \<and> bit v n" for v :: u64
proof -
  have "v AND 0x0F = take_bit 4 v" by (simp add: take_bit_eq_mask mask_eq_exp_minus_1)
  then show ?thesis by (simp add: bit_take_bit_iff)
qed

interpretation can_regs: can_invariant "\<lambda>_. True" can_wf
proof unfold_locales
  show "can_wf (can_receive_frame fr s)" if "can_wf s" for fr s
    using that by (auto simp: can_wf_def can_receive_frame_alt bit_or_iff bit_and_iff flag_simps)
  show "can_wf (can_write_IER val s)" if "can_wf s" for val s
    using that by (auto simp: can_wf_def can_write_IER_def can_check_simps bit_ucast_iff bit_and_0xF)
qed (auto simp: can_wf_def bit_or_iff bit_and_iff flag_simps can_reset_def Let_def)

text \<open>With the receive interrupt disabled the line is never raised.\<close>

definition can_quiet :: "CanState \<Rightarrow> bool" where
  "can_quiet s \<longleftrightarrow> \<not> has_flag (ier s) RIE \<and> (\<forall>l\<in>set (irq s). l = 0)"

lemma can_quiet_status:
  "can_quiet s \<Longrightarrow> can_quiet (can_set_status_bit b s)" "can_quiet s \<Longrightarrow> can_quiet (can_reset_status_bit b s)"
  by (auto simp: can_quiet_def can_set_status_bit_def can_reset_status_bit_def can_check_simps rx_pending_def)

interpretation can_silent: can_invariant "\<lambda>v. \<not> has_flag v (ucast RIE)" can_quiet
proof unfold_locales
  show "can_quiet (can_receive_frame fr s)" if "can_quiet s" for fr s
  proof -
    have "can_quiet (s'\<lparr>rid := a, rfi := b, rda := c, rdb := d\<rparr>) = can_quiet s'" for s' a b c d
      by (simp add: can_quiet_def)
    with that show ?thesis by (simp add: can_receive_frame_alt can_quiet_status)
  qed
  show "can_quiet (can_write_IER val s)" if "\<not> has_flag val (ucast RIE)" "can_quiet s" for val s
    using that by (auto simp: can_quiet_def can_write_IER_def can_check_simps rx_pending_def flag_simps
        bit_ucast_iff bit_and_0xF)
qed (simp_all add: can_quiet_status, simp_all add: can_quiet_def can_reset_def Let_def)

section \<open>Messages\<close>

text \<open>The bytes of a register, least significant first, and the message a driver sees.\<close>

definition word_bytes :: "u32 \<Rightarrow> u8 list" where
  "word_bytes w = map (\<lambda>i. ucast (drop_bit (i * 8) w)) [0..<4]"

record can_msg =
  msg_ff :: bool
  msg_rtr :: bool
  msg_ident :: u32
  msg_bytes :: "u8 list"

definition frame_dlc :: "u32 \<Rightarrow> nat" where
  "frame_dlc w = unat (drop_bit 16 (w AND DLC_MASK))"

definition tx_msg :: "CanState \<Rightarrow> can_msg" where
  "tx_msg s = \<lparr>msg_ff = has_flag (tfi s) FF, msg_rtr = has_flag (tfi s) RTR,
     msg_ident = tid s AND (if has_flag (tfi s) FF then IDS else IDE),
     msg_bytes = (if has_flag (tfi s) RTR then [] else take (frame_dlc (tfi s)) (word_bytes (tda s) @ word_bytes (tdb s)))\<rparr>"

definition rx_msg :: "CanState \<Rightarrow> can_msg" where
  "rx_msg s = \<lparr>msg_ff = has_flag (rfi s) FF, msg_rtr = has_flag (rfi s) RTR, msg_ident = rid s,
     msg_bytes = take (frame_dlc (rfi s)) (word_bytes (rda s) @ word_bytes (rdb s))\<rparr>"

lemma length_word_bytes [simp]: "length (word_bytes w) = 4"
  by (simp add: word_bytes_def)

lemma nth_word_bytes: "i < 4 \<Longrightarrow> word_bytes w ! i = ucast (drop_bit (i * 8) w)"
  by (simp add: word_bytes_def)

lemma nth_word_bytes2:
  "i < 8 \<Longrightarrow> (word_bytes a @ word_bytes b) ! i =
     (if i < 4 then ucast (drop_bit (i * 8) a) else ucast (drop_bit ((i - 4) * 8) b))"
  by (simp add: nth_append nth_word_bytes)

lemma bit_u8_shift: "n * 8 \<le> k \<and> bit x (k - n * 8) \<longleftrightarrow> k div 8 = n \<and> bit x (k mod 8)" for x :: u8
proof
  assume *: "n * 8 \<le> k \<and> bit x (k - n * 8)"
  then have "k - n * 8 < 8" using bit_imp_le_length [of x "k - n * 8"] by simp
  then obtain j where "k = n * 8 + j" "j < 8" using * by (metis le_add_diff_inverse)
  with * show "k div 8 = n \<and> bit x (k mod 8)" by simp
next
  assume "k div 8 = n \<and> bit x (k mod 8)"
  moreover have "k - k div 8 * 8 = k mod 8" by (simp add: minus_div_mult_eq_mod)
  ultimately show "n * 8 \<le> k \<and> bit x (k - n * 8)" by (metis div_times_less_eq_dividend)
qed

lemma rx_data_Suc: "n < 8 \<Longrightarrow> rx_data d (Suc n) =
  (if n < 4 then (fst (rx_data d n) OR push_bit (n * 8) (ucast (d ! n)), snd (rx_data d n))
   else (fst (rx_data d n), snd (rx_data d n) OR push_bit ((n - 4) * 8) (ucast (d ! n))))"
  by (simp add: rx_data_def min_def split: prod.split)

lemma rx_data_min: "rx_data d (min n 8) = rx_data d n"
  by (simp add: rx_data_def)

lemma bit_push_u8: "bit (push_bit (n * 8) (ucast (x :: u8)) :: u32) k \<longleftrightarrow> k < 32 \<and> k div 8 = n \<and> bit x (k mod 8)"
  using bit_u8_shift [of n k x] by (auto simp: bit_push_bit_iff bit_ucast_iff dest: bit_imp_le_length)

lemma bit_rx_data:
  assumes "n \<le> 8"
  shows "bit (fst (rx_data d n)) k \<longleftrightarrow> k < 32 \<and> k div 8 < n \<and> bit (d ! (k div 8)) (k mod 8)"
    and "bit (snd (rx_data d n)) k \<longleftrightarrow> k < 32 \<and> k div 8 + 4 < n \<and> bit (d ! (k div 8 + 4)) (k mod 8)"
  using assms
proof (induction n)
  case (Suc n)
  { case 1 then show ?case using Suc.IH(1)
      by (auto simp: rx_data_Suc bit_or_iff bit_push_u8 less_Suc_eq) }
  { case 2 then show ?case using Suc.IH(2)
      by (auto simp: rx_data_Suc bit_or_iff bit_push_u8 less_Suc_eq) }
qed (simp_all add: rx_data_def)

lemma tx_data_Suc: "n < 8 \<Longrightarrow> tx_data a b (Suc n) =
  (tx_data a b n)[n := if n < 4 then ucast (drop_bit (n * 8) a AND 0xFF) else ucast (drop_bit ((n - 4) * 8) b AND 0xFF)]"
  by (simp add: tx_data_def min_def)

lemma ucast_and_255 [simp]: "ucast (w AND 0xFF) = (ucast w :: u8)" for w :: u32
  unfolding and_255 by (rule bit_word_eqI) (simp add: bit_ucast_iff bit_take_bit_iff)

lemma tx_data_nth:
  assumes "n \<le> 8"
  shows "length (tx_data a b n) = 64"
    and "i < 64 \<Longrightarrow> tx_data a b n ! i = (if i < n then (word_bytes a @ word_bytes b) ! i else 0)"
  using assms
proof (induction n)
  case (Suc n)
  { case 1 then show ?case using Suc.IH by (simp add: tx_data_Suc) }
  { case 2 then show ?case using Suc.IH
      by (auto simp: tx_data_Suc nth_list_update nth_word_bytes2 less_Suc_eq simp del: append_Nil) }
qed (simp_all add: tx_data_def)

lemma tx_data_min: "tx_data a b (min n 8) = tx_data a b n"
  by (simp add: tx_data_def)

text \<open>Bytes put into a frame and taken out again by the two copying loops.\<close>

lemma rx_tx_data:
  "take n (word_bytes (fst (rx_data (tx_data a b n) n)) @ word_bytes (snd (rx_data (tx_data a b n) n))) =
   take n (word_bytes a @ word_bytes b)"
proof -
  let ?m = "min n 8"
  let ?r = "rx_data (tx_data a b ?m) ?m"
  have byte: "bit (ucast (drop_bit (i * 8) (fst ?r)) :: u8) k = bit ((word_bytes a @ word_bytes b) ! i) k"
    if "i < ?m" "i < 4" "k < 8" for i k
  proof -
    have "(i * 8 + k) div 8 = i" "(i * 8 + k) mod 8 = k" "i * 8 + k < 32" using that by auto
    with that show ?thesis
      by (simp add: bit_ucast_iff bit_drop_bit_eq bit_rx_data tx_data_nth)
  qed
  have byte': "bit (ucast (drop_bit ((i - 4) * 8) (snd ?r)) :: u8) k = bit ((word_bytes a @ word_bytes b) ! i) k"
    if "i < ?m" "\<not> i < 4" "k < 8" for i k
  proof -
    have "((i - 4) * 8 + k) div 8 = i - 4" "((i - 4) * 8 + k) mod 8 = k" "(i - 4) * 8 + k < 32" "i - 4 + 4 = i"
      using that by auto
    with that show ?thesis
      by (simp add: bit_ucast_iff bit_drop_bit_eq bit_rx_data tx_data_nth)
  qed
  have "(word_bytes (fst ?r) @ word_bytes (snd ?r)) ! i = (word_bytes a @ word_bytes b) ! i" if "i < ?m" for i
    using that byte [of i] byte' [of i]
    by (intro bit_word_eqI) (simp add: nth_word_bytes2 [of _ "fst ?r"])
  then have "take n (word_bytes (fst ?r) @ word_bytes (snd ?r)) = take n (word_bytes a @ word_bytes b)"
    by (intro nth_take_lemma nth_equalityI) (simp_all del: take_append)
  then show ?thesis by (simp only: tx_data_min rx_data_min)
qed

lemma frame_dlc_bits:
  "frame_dlc w = unat (ucast (drop_bit DLC_POS (w AND DLC_MASK)) :: u8)"
proof -
  have "unat (ucast (drop_bit 16 (w AND DLC_MASK)) :: u8) = take_bit 8 (unat (drop_bit 16 (w AND DLC_MASK)))"
    by (simp add: unsigned_ucast_eq)
  moreover have "drop_bit 16 (w AND DLC_MASK) = take_bit 8 (drop_bit 16 (w AND DLC_MASK))"
    by (rule bit_word_eqI) (auto simp: bit_drop_bit_eq bit_and_iff bit_take_bit_iff flag_simps)
  ultimately show ?thesis
    unfolding frame_dlc_def DLC_POS_def by (metis unsigned_take_bit_eq)
qed

lemma frame_dlc_receive:
  assumes "\<And>n. bit d n \<Longrightarrow> n < 4"
  shows "frame_dlc ((x AND QEMU_CAN_EFF_FLAG) OR (x AND QEMU_CAN_RTR_FLAG) OR (push_bit DLC_POS (ucast d) AND DLC_MASK)) = unat (d :: u8)"
    (is "frame_dlc ?w = _")
proof -
  have "ucast (drop_bit DLC_POS (?w AND DLC_MASK)) = d"
    using assms
    by (intro bit_word_eqI)
      (auto simp: bit_ucast_iff bit_drop_bit_eq bit_and_iff bit_or_iff bit_push_bit_iff flag_simps DLC_POS_def)
  then show ?thesis by (simp only: frame_dlc_bits)
qed

text \<open>Receiving the frame of a transmitter shows its message.\<close>

lemma rx_msg_receive: "rx_msg (can_receive_frame (can_frame s) t) = tx_msg s"
proof -
  let ?d = "can_dlc (can_frame s)" and ?t = "can_receive_frame (can_frame s) t"
  have dlc: "?d = (if has_flag (tfi s) RTR then 0 else ucast (drop_bit DLC_POS (tfi s AND DLC_MASK)))"
    by (simp add: can_frame_def Let_def)
  have "n < 4" if "bit ?d n" for n
    using that by (auto simp: dlc bit_ucast_iff bit_drop_bit_eq bit_and_iff flag_simps DLC_POS_def split: if_splits)
  then have len: "frame_dlc (rfi ?t) = unat ?d"
    by (simp add: can_receive_frame_alt frame_dlc_receive)
  have data: "data (can_frame s) = tx_data (tda s) (tdb s) (unat ?d)"
    by (simp add: can_frame_def Let_def)
  have "msg_bytes (rx_msg ?t) = take (unat ?d) (word_bytes (tda s) @ word_bytes (tdb s))"
    by (simp add: rx_msg_def len del: take_append)
      (simp add: can_receive_frame_alt data rx_tx_data del: take_append)
  also have "\<dots> = msg_bytes (tx_msg s)"
    by (simp add: tx_msg_def dlc frame_dlc_bits)
  finally have bytes: "msg_bytes (rx_msg ?t) = msg_bytes (tx_msg s)" .
  have "rid ?t = tid s AND (if has_flag (tfi s) FF then IDS else IDE)"
    by (intro bit_word_eqI) (auto simp: can_receive_frame_alt can_frame_def Let_def bit_and_iff bit_or_iff flag_simps)
  moreover have "has_flag (rfi ?t) FF = has_flag (tfi s) FF" "has_flag (rfi ?t) RTR = has_flag (tfi s) RTR"
    by (auto simp: can_receive_frame_alt can_frame_def Let_def bit_and_iff bit_or_iff flag_simps)
  ultimately show ?thesis using bytes by (simp add: rx_msg_def tx_msg_def)
qed

section \<open>Power-on\<close>

text \<open>Devices \<open>0\<close> to \<open>n - 1\<close> are created and realized in order; \<open>bs\<close> gives each its \<open>canbus\<close> link.\<close>

definition can_power_on :: "(nat \<Rightarrow> nat option) \<Rightarrow> nat \<Rightarrow> CanWorld" where
  "can_power_on bs n = foldl (\<lambda>w i. can_realize i w) \<lparr>net = empty_net, dev = (\<lambda>i. can_init (bs i))\<rparr> [0..<n]"

lemma can_power_on_inv:
  "dev (can_power_on bs n) = (\<lambda>i. can_init (bs i)) \<and> net_wf (net (can_power_on bs n)) \<and>
   (\<forall>i. client_bus (net (can_power_on bs n)) i = (if i < n then bs i else None))"
proof (induction n)
  case 0
  then show ?case by (simp add: can_power_on_def net_wf_empty) (simp add: empty_net_def)
next
  case (Suc n)
  let ?w = "can_power_on bs n"
  have step: "can_power_on bs (Suc n) = can_realize n ?w" by (simp add: can_power_on_def)
  have link: "canbus (dev ?w n) = bs n" using Suc.IH by (simp add: can_init_def)
  show ?case
  proof (cases "bs n")
    case None
    with Suc.IH link show ?thesis by (auto simp: step can_realize_def less_Suc_eq)
  next
    case (Some b)
    have "net_wf (snd (can_bus_insert_client b n (net ?w)))"
      using Suc.IH by (intro net_wf_insert) simp_all
    with Some Suc.IH link show ?thesis
      by (auto simp: step can_realize_def can_can_connect_to_bus_def can_bus_insert_client_def less_Suc_eq)
  qed
qed

lemmas can_power_on_simps [simp] =
  can_power_on_inv [THEN conjunct1] can_power_on_inv [THEN conjunct2, THEN conjunct1]

lemma client_bus_power_on [simp]:
  "client_bus (net (can_power_on bs n)) i = (if i < n then bs i else None)"
  using can_power_on_inv by blast

section \<open>Properties\<close>


definition can_demo_world :: CanWorld where
  "can_demo_world = can_run [CanWrite 0 TFI 0x00050000, CanWrite 0 TID 0x123, CanWrite 0 TDA 0x6C6C6548,
     CanWrite 0 TDB 0x6F, CanWrite 1 IER 1] (can_power_on (\<lambda>_. Some 0) 2)"

lemma can_run_net [simp]: "net (can_run es w) = net w"
  by (induction es arbitrary: w) simp_all




text \<open>
  C11.  In every state reached from power-on the interrupt line of every controller is high exactly
  when the receive interrupt is enabled and the receive buffer is full.
\<close>
theorem can_irq_follows_receive_buffer:
  "line_level (irq (dev (can_run es (can_power_on bs n)) j)) =
     (let s = dev (can_run es (can_power_on bs n)) j in if has_flag (ier s) RIE \<and> has_flag (sr s) RBS then 1 else 0)"
proof -
  have "can_irq.coherent (dev (can_run es (can_power_on bs n)) j)"
    by (rule can_line.run)
      (simp_all add: can_irq.coherent_def can_init_def rx_pending_def ier_writes_def list_all_iff split: can_event.split)
  then show ?thesis by (simp add: can_irq.coherent_def rx_pending_def Let_def)
qed

text \<open>
  C31.  As long as the guest does not enable the receive interrupt, no controller ever raises its
  line: TIE and DOIE have no effect, neither a completed transmission nor an overrun interrupts.
\<close>
theorem can_no_transmit_or_overrun_interrupt:
  assumes "list_all (ier_writes (\<lambda>v. \<not> has_flag v (ucast RIE))) es"
  shows "\<forall>l\<in>set (irq (dev (can_run es (can_power_on bs n)) j)). l = 0"
proof -
  have "can_quiet (dev (can_run es (can_power_on bs n)) j)"
    by (rule can_silent.run) (simp_all add: assms can_quiet_def can_init_def)
  then show ?thesis by (simp add: can_quiet_def)
qed

definition can_overrun_run :: "can_event list" where
  "can_overrun_run = [CanWrite 0 IER 0xA, CanWrite 1 IER 0xA, CanWrite 0 CMR 1, CanWrite 0 CMR 1]"

theorem can_no_transmit_or_overrun_interrupt_witness:
  "(let w = can_run can_overrun_run (can_power_on (\<lambda>_. Some 0) 2) in
     has_flag (ier (dev w 0)) TIE \<and> has_flag (sr (dev w 0)) TCS \<and> (\<forall>l\<in>set (irq (dev w 0)). l = 0) \<and>
     has_flag (ier (dev w 1)) DOIE \<and> has_flag (sr (dev w 1)) DOS \<and> (\<forall>l\<in>set (irq (dev w 1)). l = 0))"
proof -
  have "list_all (ier_writes (\<lambda>v. \<not> has_flag v (ucast RIE))) can_overrun_run" by code_simp
  note * = can_no_transmit_or_overrun_interrupt [OF this, of "\<lambda>_. Some 0" 2]
  have "let w = can_run can_overrun_run (can_power_on (\<lambda>_. Some 0) 2) in
     has_flag (ier (dev w 0)) TIE \<and> has_flag (sr (dev w 0)) TCS \<and>
     has_flag (ier (dev w 1)) DOIE \<and> has_flag (sr (dev w 1)) DOS" by code_simp
  with * [of 0] * [of 1] show ?thesis by (simp add: Let_def)
qed


text \<open>
  C34.  The frame format flag is read the wrong way round: a message sent with the flag of the
  extended format loses all but the low 11 bits of its identifier, one sent as standard format
  keeps 29 bits.
\<close>
theorem can_extended_identifier_truncated:
  assumes "has_flag (tfi s) FF"
  shows "msg_ident (rx_msg (can_receive_frame (can_frame s) t)) = take_bit 11 (tid s) \<and>
    msg_ident (rx_msg (can_receive_frame (can_frame (s\<lparr>tfi := tfi s AND NOT FF\<rparr>)) t)) = take_bit 29 (tid s)"
  using assms
  by (simp add: rx_msg_receive tx_msg_def IDS_def IDE_def flip: take_bit_eq_mask)

theorem can_extended_identifier_truncated_witness:
  "msg_ident (rx_msg (can_receive_frame (can_frame ((can_init None)\<lparr>tfi := 0x80000000, tid := 0x12345678\<rparr>)) (can_init None))) = 0x678"
proof -
  have "has_flag (tfi ((can_init None)\<lparr>tfi := 0x80000000, tid := 0x12345678\<rparr>)) FF" by code_simp
  moreover have "(take_bit 11 0x12345678 :: u32) = 0x678" by (simp add: take_bit_eq_mask mask_eq_exp_minus_1)
  ultimately show ?thesis using can_extended_identifier_truncated by simp
qed

end
