(* ===== verification/Soc_Map.thy ===== *)
theory Soc_Map
  imports Mem_Access Can_Device
begin

text \<open>
  The memory of the board: the regions that \<open>hw/arm/nxp_s32k3.c\<close> and \<open>hw/arm/armv7m.c\<close> create, and the
  flat view that each of the three CPUs gets.

  The source links regions by pointers and goes on adding subregions to a region after another one
  has been given a link to it.  A region is a value here, so the trees are built from the leaves up;
  within each container the subregions are added in the order of the source.  The regions of the
  interrupt controller and its container carry the name of their CPU as owner.
\<close>

section \<open>Addresses\<close>

definition ITCM_BA :: u64 where "ITCM_BA = 0x00000000"
definition DTCM_BA :: u64 where "DTCM_BA = 0x20000000"
definition ITCM_SIZE :: u64 where "ITCM_SIZE = 0x10000"
definition DTCM_SIZE :: u64 where "DTCM_SIZE = 0x20000"
definition SRAM_0_BA :: u64 where "SRAM_0_BA = 0x20400000"
definition SRAM_1_BA :: u64 where "SRAM_1_BA = 0x20440000"
definition SRAM_2_BA :: u64 where "SRAM_2_BA = 0x20480000"
definition SRAM_SIZE :: u64 where "SRAM_SIZE = 0x40000"
definition PFLASH_0_BA :: u64 where "PFLASH_0_BA = 0x00400000"
definition PFLASH_SIZE :: u64 where "PFLASH_SIZE = 0x200000"
definition DFLASH_0_BA :: u64 where "DFLASH_0_BA = 0x10000000"
definition DFLASH_SIZE :: u64 where "DFLASH_SIZE = 0xA000"
definition UART0_BA :: u64 where "UART0_BA = 0x40328000"
definition CAN0_BA :: u64 where "CAN0_BA = 0x40304000"
definition CAN1_BA :: u64 where "CAN1_BA = 0x40308000"
definition UART0_IRQn :: nat where "UART0_IRQn = 141"
definition CAN0_IRQn :: nat where "CAN0_IRQn = 109"
definition CAN1_IRQn :: nat where "CAN1_IRQn = 113"

definition TYPE_UART :: string where "TYPE_UART = ''uart''"
definition TYPE_CAN :: string where "TYPE_CAN = ''can''"

lemmas board_addresses = ITCM_BA_def DTCM_BA_def ITCM_SIZE_def DTCM_SIZE_def SRAM_0_BA_def SRAM_1_BA_def SRAM_2_BA_def SRAM_SIZE_def
  PFLASH_0_BA_def PFLASH_SIZE_def DFLASH_0_BA_def DFLASH_SIZE_def UART0_BA_def CAN0_BA_def CAN1_BA_def

section \<open>Shared memory and peripherals\<close>

definition uart_mmio :: MemoryRegion where
  "uart_mmio = memory_region_init_io ''uart0'' TYPE_UART 20"

definition can_mmio :: "string \<Rightarrow> MemoryRegion" where
  "can_mmio owner = memory_region_init_io owner TYPE_CAN (word_of_nat (NREG * 4))"

definition sysmem :: MemoryRegion where
  "sysmem =
    (let m = memory_region_init '''' ''system'' (- 1);
         m = memory_region_add_subregion m ITCM_BA (memory_region_init_ram '''' ''NXPS32K3.ITCM'' ITCM_SIZE);
         m = memory_region_add_subregion m DTCM_BA (memory_region_init_ram '''' ''NXPS32K3.DTCM'' DTCM_SIZE);
         m = memory_region_add_subregion m UART0_BA uart_mmio;
         m = memory_region_add_subregion m CAN0_BA (can_mmio ''can0'')
     in memory_region_add_subregion m CAN1_BA (can_mmio ''can1''))"

section \<open>Memory of a CPU\<close>

definition cpu_digit :: "nat \<Rightarrow> string" where
  "cpu_digit i = [''0'', ''1'', ''2''] ! i"

definition SRAM_BA :: "nat \<Rightarrow> u64" where "SRAM_BA i = [SRAM_0_BA, SRAM_1_BA, SRAM_2_BA] ! i"
definition PFLASH_BA :: "nat \<Rightarrow> u64" where "PFLASH_BA i = [PFLASH_0_BA, PFLASH_0_BA, PFLASH_0_BA] ! i"
definition DFLASH_BA :: "nat \<Rightarrow> u64" where "DFLASH_BA i = [DFLASH_0_BA, DFLASH_0_BA, DFLASH_0_BA] ! i"

definition cpu_region_name :: "nat \<Rightarrow> string \<Rightarrow> string" where
  "cpu_region_name i part = ''NXPS32K3.cpu-'' @ cpu_digit i @ part"

definition PFLASH :: "nat \<Rightarrow> MemoryRegion" where
  "PFLASH i = memory_region_init_rom '''' (cpu_region_name i ''-pflash'') PFLASH_SIZE"

definition cpu_sysmem :: "nat \<Rightarrow> MemoryRegion" where
  "cpu_sysmem i =
    (let m = memory_region_init ''mcu'' (cpu_region_name i ''-memory'') (- 1);
         m = memory_region_add_subregion_overlap m 0
           (memory_region_init_alias ''mcu'' (''NXPS32K3.sysmem-alias-'' @ cpu_digit i) sysmem 0 (- 1)) (- 1);
         m = memory_region_add_subregion m (SRAM_BA i) (memory_region_init_ram '''' (cpu_region_name i ''-sram'') SRAM_SIZE);
         m = memory_region_add_subregion m (PFLASH_BA i) (PFLASH i);
         m = memory_region_add_subregion m (DFLASH_BA i) (memory_region_init_rom '''' (cpu_region_name i ''-dflash'') DFLASH_SIZE)
     in if i = 0
        then memory_region_add_subregion m 0 (memory_region_init_alias '''' ''NXPS32K3.PFLASH0-alias'' (PFLASH i) 0 ITCM_SIZE)
        else m)"

text \<open>
  The container of the CPU.  The Cortex-M7 is not a v8 core, has no security extension, no RAS block
  and the board has no bit-banding.
\<close>

definition cpu_name :: "nat \<Rightarrow> string" where
  "cpu_name i = ''armv7m_'' @ cpu_digit i"

definition armv7m_container :: "nat \<Rightarrow> MemoryRegion" where
  "armv7m_container i =
    (let m = memory_region_init (cpu_name i) ''armv7m-container'' (- 1);
         m = memory_region_add_subregion_overlap m 0 (cpu_sysmem i) (- 1);
         m = memory_region_add_subregion_overlap m 0xe0000000 (memory_region_init_io (cpu_name i) ''nvic-default'' 0x100000) (- 1);
         m = memory_region_add_subregion m 0xe000e000 (memory_region_init_io (cpu_name i) ''nvic_sysregs'' 0x1000)
     in memory_region_add_subregion_overlap m 0xe000e010 (memory_region_init_io (cpu_name i) ''v7m_systick'' 0xe0) 1)"

definition cpu_view :: "nat \<Rightarrow> FlatView" where
  "cpu_view i = generate_memory_topology (Some (armv7m_container i))"

section \<open>The memory map\<close>

text \<open>A line of the map: region, first address, size, offset in the region, whether it is RAM and whether it is read-only.\<close>

type_synonym map_line = "mr_id \<times> int \<times> int \<times> int \<times> bool \<times> bool"

definition line_of :: "FlatRange \<Rightarrow> map_line" where
  "line_of r = (mr_id (fr_mr r), ar_start (fr_addr r), ar_size (fr_addr r), fr_offset_in_region r, mr_ram (fr_mr r), mr_readonly (fr_mr r))"

definition ITCM_id :: mr_id where "ITCM_id = ('''', ''NXPS32K3.ITCM'')"
definition DTCM_id :: mr_id where "DTCM_id = ('''', ''NXPS32K3.DTCM'')"
definition SRAM_id :: "nat \<Rightarrow> mr_id" where "SRAM_id i = ('''', cpu_region_name i ''-sram'')"
definition PFLASH_id :: "nat \<Rightarrow> mr_id" where "PFLASH_id i = ('''', cpu_region_name i ''-pflash'')"
definition DFLASH_id :: "nat \<Rightarrow> mr_id" where "DFLASH_id i = ('''', cpu_region_name i ''-dflash'')"
definition uart_region :: mr_id where "uart_region = (''uart0'', TYPE_UART)"
definition can_region :: "nat \<Rightarrow> mr_id" where "can_region c = ([''can0'', ''can1''] ! c, TYPE_CAN)"
definition nvic_region :: "nat \<Rightarrow> mr_id" where "nvic_region i = (cpu_name i, ''nvic_sysregs'')"
definition systick_region :: "nat \<Rightarrow> mr_id" where "systick_region i = (cpu_name i, ''v7m_systick'')"
definition ppb_region :: "nat \<Rightarrow> mr_id" where "ppb_region i = (cpu_name i, ''nvic-default'')"

definition board_map :: "nat \<Rightarrow> map_line list" where
  "board_map i =
    [if i = 0 then (PFLASH_id 0, 0, 0x10000, 0, True, True) else (ITCM_id, 0, 0x10000, 0, True, False),
     (PFLASH_id i, 0x400000, 0x200000, 0, True, True),
     (DFLASH_id i, 0x10000000, 0xa000, 0, True, True),
     (DTCM_id, 0x20000000, 0x20000, 0, True, False),
     (SRAM_id i, 0x20400000 + int i * 0x40000, 0x40000, 0, True, False),
     (can_region 0, 0x40304000, 44, 0, False, False),
     (can_region 1, 0x40308000, 44, 0, False, False),
     (uart_region, 0x40328000, 20, 0, False, False),
     (ppb_region i, 0xe0000000, 0xe000, 0, False, False),
     (nvic_region i, 0xe000e000, 0x10, 0, False, False),
     (systick_region i, 0xe000e010, 0xe0, 0, False, False),
     (nvic_region i, 0xe000e0f0, 0xf10, 0xf0, False, False),
     (ppb_region i, 0xe000f000, 0xf1000, 0xf000, False, False)]"

lemma less_3_cases:
  assumes "i < (3 :: nat)"
  obtains "i = 0" | "i = 1" | "i = 2"
  using assms by linarith

lemma view_lines:
  assumes "i < 3"
  shows "map line_of (cpu_view i) = board_map i"
  using assms by (cases rule: less_3_cases) (simp_all only:, code_simp+)

lemma view_sized: "region_sized (armv7m_container i)"
  by (simp add: armv7m_container_def cpu_sysmem_def sysmem_def uart_mmio_def can_mmio_def PFLASH_def Let_def)

lemma view_ranges: "ranges_ok (cpu_view i)" "view_ok (cpu_view i)"
  using generate_ranges_ok [OF view_sized] by (simp_all add: cpu_view_def ranges_ok_def)

lemma line_lookup:
  assumes "i < 3" and "(bid, a, n, off, ram, ro) \<in> set (board_map i)" and "a \<le> uint addr" and "uint addr < a + n"
  obtains r where "address_space_lookup_region (cpu_view i) addr = Some r" and "line_of r = (bid, a, n, off, ram, ro)"
proof -
  from assms(2) obtain r where r: "r \<in> set (cpu_view i)" "line_of r = (bid, a, n, off, ram, ro)"
    unfolding view_lines [OF assms(1), symmetric] by auto
  with assms(3,4) have "addrrange_contains (fr_addr r) (uint addr)"
    by (simp add: line_of_def addrrange_contains_def addrrange_end_def)
  from lookup_in_range [OF view_ranges(2) r(1) this] r(2) show thesis by (rule that)
qed

section \<open>What a CPU can change\<close>

text \<open>The RAM blocks that a view lets its owner write.\<close>

definition writable :: "FlatView \<Rightarrow> mr_id set" where
  "writable view = (\<lambda>r. mr_id (fr_mr r)) ` {r \<in> set view. memory_access_is_direct (fr_mr r) True}"

definition readable :: "FlatView \<Rightarrow> mr_id set" where
  "readable view = (\<lambda>r. mr_id (fr_mr r)) ` {r \<in> set view. memory_access_is_direct (fr_mr r) False}"

definition ram_kept :: "FlatView \<Rightarrow> 's system \<Rightarrow> 's system \<Rightarrow> bool" where
  "ram_kept view s s' \<longleftrightarrow> (\<forall>blk. blk \<notin> writable view \<longrightarrow> ram_block s' blk = ram_block s blk)"

lemma ram_kept_refl [simp]: "ram_kept view s s"
  by (simp add: ram_kept_def)

lemma ram_kept_trans: "\<lbrakk>ram_kept view s s'; ram_kept view s' s''\<rbrakk> \<Longrightarrow> ram_kept view s s''"
  by (simp add: ram_kept_def)

lemma ram_kept_devs [simp]: "ram_kept view s (s\<lparr>devs := d\<rparr>)"
  by (simp add: ram_kept_def)

lemma translate_direct:
  assumes "flatview_translate view addr n = (mr, maddr, l)" and "memory_access_is_direct mr True"
  shows "mr_id mr \<in> writable view"
proof (cases "address_space_lookup_region view addr")
  case None
  then show ?thesis using assms
    by (auto simp: flatview_translate_def io_mem_unassigned_def memory_region_init_io_def memory_region_init_def set_info_def
        memory_access_is_direct_def memory_region_supports_direct_access_def)
next
  case (Some r)
  with assms(1) have "mr = fr_mr r" by (simp add: flatview_translate_def Let_def)
  with Some assms(2) lookup_Some [OF Some] show ?thesis by (auto simp: writable_def)
qed

lemma ram_kept_write: "blk \<in> writable view \<Longrightarrow> ram_kept view s (s\<lparr>ram_block := ram_write blk off bs (ram_block s)\<rparr>)"
  by (auto simp: ram_kept_def ram_write_def)

lemma store_kept:
  assumes "address_space_st dev_ops view n be addr v attrs s = Inr (r, s')"
  shows "ram_kept view s s'"
proof -
  obtain mr maddr l where t: "flatview_translate view addr n = (mr, maddr, l)" by (metis prod_cases3)
  show ?thesis
    using assms translate_direct [OF t]
    by (auto intro: ram_kept_write simp: address_space_st_def t Let_def dispatch_write_def res_bind_eq_Inr split: if_splits)
qed

lemma write_kept:
  "flatview_write_continue dev_ops view addr attrs buf result s = Inr (r, s') \<Longrightarrow> ram_kept view s s'"
proof (induction dev_ops view addr attrs buf result s rule: flatview_write_continue.induct)
  case (1 dev_ops view addr attrs buf result s)
  show ?case
  proof (cases "buf = []")
    case True
    with 1(2) show ?thesis by (simp add: flatview_write_continue.simps [of dev_ops])
  next
    case False
    obtain mr maddr l where t: "flatview_translate view addr (length buf) = (mr, maddr, l)" by (metis prod_cases3)
    from 1(2) False obtain x l' s1 where step: "flatview_write_continue_step dev_ops attrs buf maddr l mr s = Inr (x, l', s1)"
      and rest: "flatview_write_continue dev_ops view (addr + word_of_nat l') attrs (drop l' buf) (result OR x) s1 = Inr (r, s')"
      by (subst (asm) flatview_write_continue.simps) (auto simp: t res_bind_eq_Inr)
    have "ram_kept view s s1"
      using step translate_direct [OF t]
      by (auto intro: ram_kept_write simp: flatview_write_continue_step_def Let_def dispatch_write_def res_bind_eq_Inr split: if_splits)
    moreover have "ram_kept view s1 s'"
      using 1(1) [OF False t [symmetric] refl refl step refl refl rest] .
    ultimately show ?thesis by (rule ram_kept_trans)
  qed
qed

lemma blocks_of_lines:
  "writable view = fst ` set (filter (\<lambda>(_, _, _, _, ram, ro). ram \<and> \<not> ro) (map line_of view))"
  "readable view = fst ` set (filter (\<lambda>(_, _, _, _, ram, _). ram) (map line_of view))"
proof -
  have "{r \<in> set view. memory_access_is_direct (fr_mr r) True} = {r \<in> set view. mr_ram (fr_mr r) \<and> \<not> mr_readonly (fr_mr r)}"
    "{r \<in> set view. memory_access_is_direct (fr_mr r) False} = {r \<in> set view. mr_ram (fr_mr r)}"
    by (auto simp: memory_access_is_direct_def memory_region_supports_direct_access_def)
  then show "writable view = fst ` set (filter (\<lambda>(_, _, _, _, ram, ro). ram \<and> \<not> ro) (map line_of view))"
    "readable view = fst ` set (filter (\<lambda>(_, _, _, _, ram, _). ram) (map line_of view))"
    by (simp_all add: writable_def readable_def filter_map comp_def image_image line_of_def)
qed

lemma ram_byte_readable: "ram_byte view False a = Some (blk, off) \<Longrightarrow> blk \<in> readable view"
proof -
  assume "ram_byte view False a = Some (blk, off)"
  then obtain r where "address_space_lookup_region view a = Some r" "memory_access_is_direct (fr_mr r) False" "blk = mr_id (fr_mr r)"
    by (auto simp: ram_byte_def byte_of_def split: option.splits if_splits)
  with lookup_Some show ?thesis by (auto simp: readable_def)
qed

lemma board_blocks:
  assumes "i < 3"
  shows "writable (cpu_view i) = (if i = 0 then {} else {ITCM_id}) \<union> {DTCM_id, SRAM_id i}"
    and "readable (cpu_view i) = (if i = 0 then {} else {ITCM_id}) \<union> {DTCM_id, SRAM_id i, PFLASH_id i, DFLASH_id i}"
  unfolding blocks_of_lines view_lines [OF assms] by (auto simp: board_map_def)

lemma cpu_digit_inj: "\<lbrakk>i < 3; j < 3; i \<noteq> j\<rbrakk> \<Longrightarrow> cpu_digit i \<noteq> cpu_digit j"
  by (auto simp: cpu_digit_def elim!: less_3_cases)

lemma block_ids_distinct:
  "SRAM_id i \<noteq> ITCM_id" "SRAM_id i \<noteq> DTCM_id" "SRAM_id i \<noteq> PFLASH_id j" "SRAM_id i \<noteq> DFLASH_id j"
  "\<lbrakk>i < 3; j < 3; i \<noteq> j\<rbrakk> \<Longrightarrow> SRAM_id i \<noteq> SRAM_id j"
  using cpu_digit_inj [of i j]
  by (auto simp: SRAM_id_def ITCM_id_def DTCM_id_def PFLASH_id_def DFLASH_id_def cpu_region_name_def cpu_digit_def)



text \<open>
  C21.  The private memory of a CPU is private: whatever CPU \<open>i\<close> stores or writes, the only blocks of RAM
  that can change are its own SRAM, the DTCM and, for the CPUs whose low addresses show it, the ITCM;
  flash is never changed, and no other CPU can read the SRAM of CPU \<open>i\<close> at any address.
\<close>

theorem board_memory_isolated:
  assumes "i < 3" and "j < 3" and "i \<noteq> j"
    and "address_space_st dev_ops (cpu_view i) n be addr v attrs s = Inr (r, s') \<or>
      address_space_write dev_ops (cpu_view i) addr attrs buf s = Inr (r, s')"
  shows "(ram_block s' blk \<noteq> ram_block s blk \<longrightarrow> blk \<in> (if i = 0 then {} else {ITCM_id}) \<union> {DTCM_id, SRAM_id i}) \<and>
    ram_byte (cpu_view j) False a \<noteq> Some (SRAM_id i, off)"
proof -
  have "ram_kept (cpu_view i) s s'"
    using assms(4) store_kept write_kept by (fastforce simp: address_space_write_def split: if_splits)
  moreover have "SRAM_id i \<notin> readable (cpu_view j)"
    unfolding board_blocks [OF assms(2)] using block_ids_distinct assms(1-3) by auto
  then have "ram_byte (cpu_view j) False a \<noteq> Some (SRAM_id i, off)" using ram_byte_readable by blast
  ultimately show ?thesis unfolding ram_kept_def board_blocks [OF assms(1)] by blast
qed

text \<open>A word stored by CPU 0 in its SRAM.\<close>

lemma demo_store:
  "address_space_st (\<lambda>_. unassigned_mem_ops) (cpu_view 0) 4 False 0x20400010 7 plain_attrs demo_system =
   Inr (MEMTX_OK, demo_system\<lparr>ram_block := ram_write (SRAM_id 0) 16 [7, 0, 0, 0] (\<lambda>_ _. 0)\<rparr>)"
proof -
  obtain r where r: "address_space_lookup_region (cpu_view 0) 0x20400010 = Some r" "line_of r = (SRAM_id 0, 0x20400000, 0x40000, 0, True, False)"
    by (rule line_lookup [of 0 "SRAM_id 0" "0x20400000" "0x40000" 0 True False "0x20400010"]) (simp_all add: board_map_def)
  have "stn_le_p 4 7 = [7, 0, 0, 0]" by code_simp
  with r show ?thesis
    by (simp add: address_space_st_def flatview_translate_def line_of_def memory_access_is_direct_def
        memory_region_supports_direct_access_def Let_def)
qed

theorem board_memory_isolated_witness:
  "\<exists>s'. address_space_st (\<lambda>_. unassigned_mem_ops) (cpu_view 0) 4 False 0x20400010 7 plain_attrs demo_system = Inr (MEMTX_OK, s') \<and>
    ram_block s' (SRAM_id 0) 16 = 7 \<and> ram_block s' (SRAM_id 1) = ram_block demo_system (SRAM_id 1) \<and>
    ram_byte (cpu_view 1) False 0x20400010 \<noteq> Some (SRAM_id 0, 16)"
  using board_memory_isolated [OF _ _ _ disjI1 [OF demo_store], of 1 "SRAM_id 1" "0x20400010" 16]
    demo_store block_ids_distinct(5) [of 1 0] block_ids_distinct(1,2) [of 1]
  by (auto simp: ram_write_def)

end
