(* ===== verification/Uart_Device.thy ===== *)
theory Uart_Device
  imports Irq_Line
begin

text \<open>
  The Altera Nios II UART of the board (\<^verbatim>\<open>hw/char/uart.c\<close>, \<^verbatim>\<open>include/hw/char/uart.h\<close>).

  \<open>UartState\<close> has the source's fields.  A \<^verbatim>\<open>QEMUTimer\<close> is its expiry time in nanoseconds, -1
  while it is not pending; the time of the virtual clock is an argument \<open>now\<close> of the operations
  that read it.  The calls the device makes into the character backend are kept in order in
  \<open>chr\<close>, the levels it drives on its interrupt line in \<open>irq\<close>.  Debug output is left out.
  Integer division by zero traps on the host, so \<open>update_params\<close> and its callers return a
  result of the error type.
\<close>

section \<open>Registers and state\<close>

definition RXDATA :: u64 where "RXDATA = 0x00"
definition TXDATA :: u64 where "TXDATA = 0x04"
definition STATUS :: u64 where "STATUS = 0x08"
definition CONTROL :: u64 where "CONTROL = 0x0C"
definition DIVISOR :: u64 where "DIVISOR = 0x10"

definition PE :: u32 where "PE = 2 ^ 0"
definition FE :: u32 where "FE = 2 ^ 1"
definition BRK :: u32 where "BRK = 2 ^ 2"
definition ROE :: u32 where "ROE = 2 ^ 3"
definition TOE :: u32 where "TOE = 2 ^ 4"
definition TMT :: u32 where "TMT = 2 ^ 5"
definition TRDY :: u32 where "TRDY = 2 ^ 6"
definition RRDY :: u32 where "RRDY = 2 ^ 7"
definition E_bit :: u32 where "E_bit = 2 ^ 8"

definition CLK_FREQ :: u64 where "CLK_FREQ = 115200"

definition NANOSECONDS_PER_SECOND :: u64 where "NANOSECONDS_PER_SECOND = 1000000000"

datatype chr_io =
    ChrWriteAll u8
  | ChrAcceptInput
  | ChrSetParams int char int int

record UartState =
  rx_timer :: int
  tx_timer :: int
  can_receive :: u8
  clk_freq :: u64
  baudrate :: u64
  char_tx_time :: u64
  frame_size :: int
  rxdata :: u32
  txdata :: u32
  status :: u32
  control :: u32
  divisor :: u32
  tx_shift_register :: u8
  rx_shift_register :: u8
  irq :: irq_log
  chr :: "chr_io list"

datatype uart_timer = RxTimer | TxTimer

lemma uart_reg_distinct [simp]:
  "RXDATA \<noteq> TXDATA" "RXDATA \<noteq> STATUS" "RXDATA \<noteq> CONTROL" "RXDATA \<noteq> DIVISOR"
  "TXDATA \<noteq> RXDATA" "TXDATA \<noteq> STATUS" "TXDATA \<noteq> CONTROL" "TXDATA \<noteq> DIVISOR"
  "STATUS \<noteq> RXDATA" "STATUS \<noteq> TXDATA" "STATUS \<noteq> CONTROL" "STATUS \<noteq> DIVISOR"
  "CONTROL \<noteq> RXDATA" "CONTROL \<noteq> TXDATA" "CONTROL \<noteq> STATUS" "CONTROL \<noteq> DIVISOR"
  "DIVISOR \<noteq> RXDATA" "DIVISOR \<noteq> TXDATA" "DIVISOR \<noteq> STATUS" "DIVISOR \<noteq> CONTROL"
  by (simp_all add: RXDATA_def TXDATA_def STATUS_def CONTROL_def DIVISOR_def)

lemma uart_bit_masks [flag_simps]:
  "bit PE n \<longleftrightarrow> n = 0" "bit FE n \<longleftrightarrow> n = 1" "bit BRK n \<longleftrightarrow> n = 2" "bit ROE n \<longleftrightarrow> n = 3"
  "bit TOE n \<longleftrightarrow> n = 4" "bit TMT n \<longleftrightarrow> n = 5" "bit TRDY n \<longleftrightarrow> n = 6" "bit RRDY n \<longleftrightarrow> n = 7"
  "bit E_bit n \<longleftrightarrow> n = 8"
  unfolding PE_def FE_def BRK_def ROE_def TOE_def TMT_def TRDY_def RRDY_def E_bit_def bit_exp_iff
  by auto

lemma uart_has_flag [flag_simps]:
  "has_flag w PE \<longleftrightarrow> bit w 0" "has_flag w FE \<longleftrightarrow> bit w 1" "has_flag w BRK \<longleftrightarrow> bit w 2"
  "has_flag w ROE \<longleftrightarrow> bit w 3" "has_flag w TOE \<longleftrightarrow> bit w 4" "has_flag w TMT \<longleftrightarrow> bit w 5"
  "has_flag w TRDY \<longleftrightarrow> bit w 6" "has_flag w RRDY \<longleftrightarrow> bit w 7" "has_flag w E_bit \<longleftrightarrow> bit w 8"
  unfolding PE_def FE_def BRK_def ROE_def TOE_def TMT_def TRDY_def RRDY_def E_bit_def has_flag_bit
  by (rule refl)+

section \<open>Interrupt line and status bits\<close>

definition uart_check_and_set_interrupt :: "UartState \<Rightarrow> UartState" where
  "uart_check_and_set_interrupt s =
     (if has_flag (control s) (status s)
      then s\<lparr>irq := qemu_irq_raise recorder (irq s)\<rparr> else s)"

definition uart_check_and_clear_interrupt :: "UartState \<Rightarrow> UartState" where
  "uart_check_and_clear_interrupt s =
     (if \<not> has_flag (control s) (status s)
      then s\<lparr>irq := qemu_irq_lower recorder (irq s)\<rparr> else s)"

definition uart_set_status_bit :: "u32 \<Rightarrow> UartState \<Rightarrow> UartState" where
  "uart_set_status_bit status_bit s =
     (let s = s\<lparr>status := status s OR status_bit\<rparr>;
          s = (if has_flag (status s) (PE OR FE OR BRK OR ROE OR TOE)
               then s\<lparr>status := status s OR E_bit\<rparr> else s)
      in uart_check_and_set_interrupt s)"

definition uart_reset_status_bit :: "u32 \<Rightarrow> UartState \<Rightarrow> UartState" where
  "uart_reset_status_bit status_bit s =
     (let s = s\<lparr>status := status s AND NOT status_bit\<rparr>
      in uart_check_and_clear_interrupt s)"

section \<open>Baud rate and timers\<close>

definition update_params :: "UartState \<Rightarrow> UartState res" where
  "update_params s =
     (if divisor s + 1 = 0 then Inl DivByZero
      else
        let s = s\<lparr>baudrate := clk_freq s div ucast (divisor s + 1)\<rparr>;
            speed = sint (ucast (baudrate s) :: u32);
            data_bits = 8;
            stop_bits = 1;
            s = s\<lparr>frame_size := 1 + data_bits + 1 + stop_bits\<rparr>
        in if baudrate s = 0 then Inl DivByZero
           else
             let s = s\<lparr>char_tx_time := (NANOSECONDS_PER_SECOND div baudrate s)
                                        * word_of_int (frame_size s)\<rparr>
             in Inr (s\<lparr>chr := chr s @ [ChrSetParams speed (CHR ''E'') data_bits stop_bits]\<rparr>))"

definition wait_for_ch_tx_time :: "int \<Rightarrow> uart_timer \<Rightarrow> UartState \<Rightarrow> UartState" where
  "wait_for_ch_tx_time now timer s =
     (let expire = max (sint (word_of_int now + char_tx_time s)) 0
      in case timer of
           RxTimer \<Rightarrow> s\<lparr>rx_timer := expire\<rparr>
         | TxTimer \<Rightarrow> s\<lparr>tx_timer := expire\<rparr>)"

definition timeout_rx :: "UartState \<Rightarrow> UartState" where
  "timeout_rx s =
     (let s = s\<lparr>rxdata := ucast (rx_shift_register s)\<rparr>;
          s = s\<lparr>can_receive := 1\<rparr>
      in if has_flag (status s) RRDY
         then uart_set_status_bit ROE s
         else uart_set_status_bit RRDY s)"

definition timeout_tx :: "int \<Rightarrow> UartState \<Rightarrow> UartState" where
  "timeout_tx now s =
     (let ch = tx_shift_register s;
          s = s\<lparr>chr := chr s @ [ChrWriteAll ch]\<rparr>
      in if \<not> has_flag (status s) TRDY
         then
           let s = uart_reset_status_bit TMT s;
               s = uart_set_status_bit TRDY s;
               s = s\<lparr>tx_shift_register := ucast (txdata s)\<rparr>
           in wait_for_ch_tx_time now TxTimer s
         else uart_set_status_bit TMT s)"

section \<open>Device life cycle and backend\<close>

definition uart_reset :: "UartState \<Rightarrow> UartState res" where
  "uart_reset s =
     (let s = s\<lparr>rxdata := 0\<rparr>;
          s = s\<lparr>txdata := 0\<rparr>;
          s = s\<lparr>status := 0 OR TRDY OR TMT\<rparr>;
          s = s\<lparr>control := 0\<rparr>;
          s = s\<lparr>divisor := 1\<rparr>;
          s = s\<lparr>can_receive := 1\<rparr>;
          s = s\<lparr>irq := qemu_irq_lower recorder (irq s)\<rparr>;
          s = s\<lparr>chr := chr s @ [ChrAcceptInput]\<rparr>
      in update_params s)"

definition uart_can_receive :: "UartState \<Rightarrow> int" where
  "uart_can_receive s = 1"

definition uart_receive :: "int \<Rightarrow> u8 \<Rightarrow> UartState \<Rightarrow> UartState" where
  "uart_receive now buf0 s =
     (if can_receive s \<noteq> 0
      then
        let s = s\<lparr>rx_shift_register := buf0\<rparr>;
            s = s\<lparr>can_receive := 0\<rparr>;
            s = wait_for_ch_tx_time now RxTimer s
        in s\<lparr>chr := chr s @ [ChrAcceptInput]\<rparr>
      else s)"

definition uart_init :: UartState where
  "uart_init =
     \<lparr>rx_timer = -1, tx_timer = -1, can_receive = 0, clk_freq = CLK_FREQ, baudrate = 0,
      char_tx_time = 0, frame_size = 0, rxdata = 0, txdata = 0, status = 0, control = 0,
      divisor = 0, tx_shift_register = 0, rx_shift_register = 0, irq = [], chr = []\<rparr>"

definition uart_realize :: "UartState \<Rightarrow> UartState res" where
  "uart_realize s = uart_reset s"

section \<open>Register access\<close>

definition uart_read :: "u64 \<Rightarrow> UartState \<Rightarrow> u64 \<times> UartState" where
  "uart_read addr s =
     (let (retvalue :: u32, s) =
        (if addr = RXDATA then
           let retvalue = rxdata s AND 0xFF;
               s = uart_reset_status_bit RRDY s
           in (retvalue, s)
         else if addr = TXDATA then (0, s)
         else if addr = STATUS then (status s, s)
         else if addr = CONTROL then (control s, s)
         else if addr = DIVISOR then (divisor s, s)
         else (0, s))
      in (ucast retvalue, s))"

definition uart_write :: "int \<Rightarrow> u64 \<Rightarrow> u64 \<Rightarrow> UartState \<Rightarrow> UartState res" where
  "uart_write now addr val s =
     (if addr = RXDATA then Inr s
      else if addr = TXDATA then
        let s = s\<lparr>txdata := ucast val\<rparr>
        in Inr (if has_flag (status s) TMT
                then
                  let s = uart_reset_status_bit TMT s;
                      s = uart_set_status_bit TRDY s;
                      s = s\<lparr>tx_shift_register := ucast (txdata s)\<rparr>
                  in wait_for_ch_tx_time now TxTimer s
                else if \<not> has_flag (status s) TRDY
                then uart_set_status_bit TOE s
                else uart_reset_status_bit TRDY s)
      else if addr = STATUS then
        let s = s\<lparr>status := ucast val\<rparr>
        in Inr (uart_check_and_clear_interrupt (uart_check_and_set_interrupt s))
      else if addr = CONTROL then
        let s = s\<lparr>control := ucast val\<rparr>
        in Inr (uart_check_and_clear_interrupt (uart_check_and_set_interrupt s))
      else if addr = DIVISOR then
        let s = s\<lparr>divisor := ucast val\<rparr>
        in update_params s
      else Inr s)"

section \<open>What the environment can do to the device\<close>

text \<open>
  The guest reads and writes registers, the character backend delivers a byte, a timer whose
  expiry time has passed is taken off the timer list and its callback runs, and the machine is
  reset.  A run is a list of such events, each with the time of the virtual clock.
\<close>

datatype uart_event =
    GuestRead u64
  | GuestWrite u64 u64
  | BackendByte u8
  | RxExpire
  | TxExpire
  | DeviceReset

definition uart_exec :: "int \<Rightarrow> uart_event \<Rightarrow> UartState \<Rightarrow> UartState res" where
  "uart_exec now ev s =
     (case ev of
        GuestRead addr \<Rightarrow> Inr (snd (uart_read addr s))
      | GuestWrite addr val \<Rightarrow> uart_write now addr val s
      | BackendByte b \<Rightarrow> Inr (if 0 < uart_can_receive s then uart_receive now b s else s)
      | RxExpire \<Rightarrow>
          Inr (if 0 \<le> rx_timer s \<and> rx_timer s \<le> now
               then timeout_rx (s\<lparr>rx_timer := -1\<rparr>) else s)
      | TxExpire \<Rightarrow>
          Inr (if 0 \<le> tx_timer s \<and> tx_timer s \<le> now
               then timeout_tx now (s\<lparr>tx_timer := -1\<rparr>) else s)
      | DeviceReset \<Rightarrow> uart_reset s)"

fun uart_run :: "(int \<times> uart_event) list \<Rightarrow> UartState \<Rightarrow> UartState res" where
  "uart_run [] s = Inr s"
| "uart_run ((now, ev) # evs) s = res_bind (uart_exec now ev s) (uart_run evs)"

section \<open>Register and status lemmas\<close>

lemmas uart_bit_defs =
  uart_check_and_set_interrupt_def uart_check_and_clear_interrupt_def
  uart_set_status_bit_def uart_reset_status_bit_def

lemma uart_status_frame [simp]:
  "status (uart_check_and_set_interrupt s) = status s"
  "status (uart_check_and_clear_interrupt s) = status s"
  "control (uart_check_and_set_interrupt s) = control s"
  "control (uart_check_and_clear_interrupt s) = control s"
  "control (uart_set_status_bit b s) = control s"
  "control (uart_reset_status_bit b s) = control s"
  "status (uart_reset_status_bit b s) = status s AND NOT b"
  "tx_timer (uart_check_and_set_interrupt s) = tx_timer s"
  "tx_timer (uart_check_and_clear_interrupt s) = tx_timer s"
  "tx_timer (uart_set_status_bit b s) = tx_timer s"
  "tx_timer (uart_reset_status_bit b s) = tx_timer s"
  "txdata (uart_check_and_set_interrupt s) = txdata s"
  "txdata (uart_check_and_clear_interrupt s) = txdata s"
  "txdata (uart_set_status_bit b s) = txdata s"
  "txdata (uart_reset_status_bit b s) = txdata s"
  "tx_shift_register (uart_check_and_set_interrupt s) = tx_shift_register s"
  "tx_shift_register (uart_check_and_clear_interrupt s) = tx_shift_register s"
  "tx_shift_register (uart_set_status_bit b s) = tx_shift_register s"
  "tx_shift_register (uart_reset_status_bit b s) = tx_shift_register s"
  "chr (uart_check_and_set_interrupt s) = chr s"
  "chr (uart_check_and_clear_interrupt s) = chr s"
  "chr (uart_set_status_bit b s) = chr s"
  "chr (uart_reset_status_bit b s) = chr s"
  "can_receive (uart_set_status_bit b s) = can_receive s"
  "can_receive (uart_reset_status_bit b s) = can_receive s"
  "rx_timer (uart_set_status_bit b s) = rx_timer s"
  "rx_timer (uart_reset_status_bit b s) = rx_timer s"
  "clk_freq (uart_set_status_bit b s) = clk_freq s"
  "clk_freq (uart_reset_status_bit b s) = clk_freq s"
  "rxdata (uart_set_status_bit b s) = rxdata s"
  "rxdata (uart_reset_status_bit b s) = rxdata s"
  by (simp_all add: uart_bit_defs Let_def)

lemma bit_status_set:
  "bit (status (uart_set_status_bit b s)) n \<longleftrightarrow>
     bit (status s) n \<or> bit b n \<or>
     (n = 8 \<and> has_flag (status s OR b) (PE OR FE OR BRK OR ROE OR TOE))"
  by (auto simp: uart_bit_defs Let_def bit_or_iff flag_simps)

lemma bit_status_set_TX [simp]:
  "n \<noteq> 8 \<Longrightarrow> bit (status (uart_set_status_bit b s)) n \<longleftrightarrow> bit (status s) n \<or> bit b n"
  by (simp add: bit_status_set)

lemma bit_status_reset [simp]:
  "n < 32 \<Longrightarrow> bit (status s AND NOT b) n \<longleftrightarrow> bit (status s) n \<and> \<not> bit b (n :: nat)" for s :: UartState
  by (simp add: bit_simps)

lemma wait_frame [simp]:
  "status (wait_for_ch_tx_time now t s) = status s"
  "control (wait_for_ch_tx_time now t s) = control s"
  "irq (wait_for_ch_tx_time now t s) = irq s"
  "chr (wait_for_ch_tx_time now t s) = chr s"
  "txdata (wait_for_ch_tx_time now t s) = txdata s"
  "tx_shift_register (wait_for_ch_tx_time now t s) = tx_shift_register s"
  "tx_timer (wait_for_ch_tx_time now RxTimer s) = tx_timer s"
  "0 \<le> tx_timer (wait_for_ch_tx_time now TxTimer s)"
  by (cases t; simp add: wait_for_ch_tx_time_def Let_def)+

lemma update_params_frame:
  assumes "update_params s = Inr s'"
  shows "status s' = status s" "control s' = control s" "irq s' = irq s"
    "txdata s' = txdata s" "tx_shift_register s' = tx_shift_register s" "tx_timer s' = tx_timer s"
    "rx_timer s' = rx_timer s" "\<exists>p. chr s' = chr s @ [p] \<and> (\<forall>b. p \<noteq> ChrWriteAll b)"
  using assms by (auto simp: update_params_def Let_def split: if_splits)

section \<open>The interrupt line\<close>

interpretation uart_irq: level_irq
  "\<lambda>s. has_flag (control s) (status s)" irq
  uart_check_and_set_interrupt uart_check_and_clear_interrupt
  by unfold_locales
    (simp_all add: uart_check_and_set_interrupt_def uart_check_and_clear_interrupt_def)

lemma uart_coherent_set: "uart_irq.coherent s \<Longrightarrow> uart_irq.coherent (uart_set_status_bit b s)"
  unfolding uart_set_status_bit_def Let_def
  by (rule uart_irq.coherent_grow, assumption) (auto elim: has_flag_mono simp: bit_or_iff)

lemma uart_coherent_reset: "uart_irq.coherent s \<Longrightarrow> uart_irq.coherent (uart_reset_status_bit b s)"
  unfolding uart_reset_status_bit_def Let_def
  by (rule uart_irq.coherent_shrink, assumption) (auto elim: has_flag_mono simp: bit_and_iff)

lemma uart_coherent_upd [simp]:
  "uart_irq.coherent (s\<lparr>txdata := v\<rparr>) = uart_irq.coherent s"
  "uart_irq.coherent (s\<lparr>rxdata := v\<rparr>) = uart_irq.coherent s"
  "uart_irq.coherent (s\<lparr>tx_shift_register := w\<rparr>) = uart_irq.coherent s"
  "uart_irq.coherent (s\<lparr>rx_shift_register := w\<rparr>) = uart_irq.coherent s"
  "uart_irq.coherent (s\<lparr>can_receive := w\<rparr>) = uart_irq.coherent s"
  "uart_irq.coherent (s\<lparr>chr := c\<rparr>) = uart_irq.coherent s"
  "uart_irq.coherent (s\<lparr>rx_timer := i\<rparr>) = uart_irq.coherent s"
  "uart_irq.coherent (s\<lparr>tx_timer := i\<rparr>) = uart_irq.coherent s"
  "uart_irq.coherent (s\<lparr>divisor := v\<rparr>) = uart_irq.coherent s"
  "uart_irq.coherent (wait_for_ch_tx_time now t s) = uart_irq.coherent s"
  by (simp_all add: uart_irq.coherent_def)

lemma uart_coherent_update_params:
  "update_params s = Inr s' \<Longrightarrow> uart_irq.coherent s \<Longrightarrow> uart_irq.coherent s'"
  by (erule uart_irq.coherent_frame) (simp_all add: update_params_frame)

lemma uart_coherent_uart_reset: "uart_reset s = Inr s' \<Longrightarrow> uart_irq.coherent s'"
  unfolding uart_reset_def Let_def
  by (erule uart_coherent_update_params) (simp add: uart_irq.coherent_def)

lemmas uart_coherent_intros = uart_coherent_set uart_coherent_reset uart_irq.coherent_both

lemma uart_coherent_write:
  assumes "uart_write now addr val s = Inr s'" and "uart_irq.coherent s"
  shows "uart_irq.coherent s'"
  using assms
  by (auto simp: uart_write_def Let_def uart_coherent_intros split: if_splits
      elim: uart_coherent_update_params)

lemma uart_exec_coherent:
  assumes "uart_exec now ev s = Inr s'" and "uart_irq.coherent s"
  shows "uart_irq.coherent s'"
proof (cases ev)
  case (GuestRead addr)
  with assms show ?thesis
    by (auto simp: uart_exec_def uart_read_def Let_def uart_coherent_intros split: if_splits)
next
  case (GuestWrite addr val)
  with assms show ?thesis by (auto simp: uart_exec_def elim: uart_coherent_write)
next
  case (BackendByte b)
  with assms show ?thesis
    by (auto simp: uart_exec_def uart_receive_def Let_def split: if_splits)
next
  case RxExpire
  with assms show ?thesis
    by (auto simp: uart_exec_def timeout_rx_def Let_def uart_coherent_intros split: if_splits)
next
  case TxExpire
  with assms show ?thesis
    by (auto simp: uart_exec_def timeout_tx_def Let_def uart_coherent_intros split: if_splits)
next
  case DeviceReset
  with assms show ?thesis by (auto simp: uart_exec_def elim: uart_coherent_uart_reset)
qed

lemma uart_run_coherent:
  "uart_run evs s = Inr s' \<Longrightarrow> uart_irq.coherent s \<Longrightarrow> uart_irq.coherent s'"
proof (induction evs arbitrary: s)
  case (Cons e evs)
  obtain now ev where e: "e = (now, ev)" by (cases e)
  with Cons.prems(1) obtain t where "uart_exec now ev s = Inr t" "uart_run evs t = Inr s'"
    by (auto simp: res_bind_eq_Inr)
  with Cons.prems(2) show ?case by (blast intro: Cons.IH uart_exec_coherent)
qed simp

section \<open>The transmitter as a queue of two characters\<close>

text \<open>
  The abstract transmitter: the shift register's character, then the one in \<open>TXDATA\<close>.  A write
  to a full queue overwrites its last element, as the code overwrites \<open>TXDATA\<close>.
\<close>

definition tx_queue :: "UartState \<Rightarrow> u8 list" where
  "tx_queue s =
     (if has_flag (status s) TMT then [] else [tx_shift_register s]) @
     (if has_flag (status s) TRDY then [] else [ucast (txdata s)])"

definition tx_push :: "u8 \<Rightarrow> u8 list \<Rightarrow> u8 list" where
  "tx_push c q = (if length q < 2 then q @ [c] else butlast q @ [c])"

text \<open>
  Well-formed transmitter states: \<open>TXDATA\<close> is only held back while the shift register is busy,
  and the timer is pending exactly while it is busy.
\<close>

definition tx_wf :: "UartState \<Rightarrow> bool" where
  "tx_wf s \<longleftrightarrow>
     (has_flag (status s) TMT \<longrightarrow> has_flag (status s) TRDY) \<and>
     (0 \<le> tx_timer s \<longleftrightarrow> \<not> has_flag (status s) TMT)"

definition chr_written :: "UartState \<Rightarrow> u8 list" where
  "chr_written s = concat (map (\<lambda>io. case io of ChrWriteAll b \<Rightarrow> [b] | _ \<Rightarrow> []) (chr s))"

lemma chr_written_append [simp]:
  "chr_written (s\<lparr>chr := chr s @ [ChrWriteAll b]\<rparr>) = chr_written s @ [b]"
  "chr_written (s\<lparr>chr := chr s @ [ChrAcceptInput]\<rparr>) = chr_written s"
  by (simp_all add: chr_written_def)

lemma uart_write_TXDATA:
  assumes "tx_wf s" and "uart_write now TXDATA val s = Inr s'"
  shows "tx_wf s'" and "tx_queue s' = tx_push (ucast val) (tx_queue s)"
    and "chr_written s' = chr_written s"
  using assms
  by (auto simp: uart_write_def Let_def tx_wf_def tx_queue_def tx_push_def chr_written_def flag_simps
      split: if_splits)

lemma uart_expire_tx:
  assumes "tx_wf s" and "0 \<le> tx_timer s" and "tx_timer s \<le> now"
    and "uart_exec now TxExpire s = Inr s'"
  shows "tx_wf s'" and "tx_queue s' = tl (tx_queue s)"
    and "chr_written s' = chr_written s @ [hd (tx_queue s)]" and "tx_queue s \<noteq> []"
  using assms
  by (auto simp: uart_exec_def timeout_tx_def Let_def tx_wf_def tx_queue_def chr_written_def
      flag_simps split: if_splits)

text \<open>The transmitter does not notice any other event that leaves its two status bits alone.\<close>

definition tx_view :: "UartState \<Rightarrow> bool \<times> bool \<times> int \<times> u32 \<times> u8 \<times> u8 list" where
  "tx_view s = (bit (status s) 5, bit (status s) 6, tx_timer s, txdata s, tx_shift_register s,
     chr_written s)"

lemma tx_view_cong:
  assumes "tx_view s' = tx_view s"
  shows "tx_wf s' = tx_wf s" "tx_queue s' = tx_queue s" "chr_written s' = chr_written s"
  using assms by (auto simp: tx_view_def tx_wf_def tx_queue_def flag_simps)

lemma tx_view_update_params: "update_params s = Inr s' \<Longrightarrow> tx_view s' = tx_view s"
  by (auto simp: update_params_def Let_def tx_view_def chr_written_def split: if_splits)

text \<open>
  Events of a driver that polls: \<open>TXDATA\<close> is written only while \<open>TRDY\<close> is set, and a write to
  \<open>STATUS\<close> keeps \<open>TMT\<close> and \<open>TRDY\<close> as they are (clearing error bits by a read-modify-write).
\<close>

definition polite :: "uart_event \<Rightarrow> UartState \<Rightarrow> bool" where
  "polite ev s =
     (case ev of
        GuestWrite addr val \<Rightarrow>
          (addr = TXDATA \<longrightarrow> has_flag (status s) TRDY) \<and>
          (addr = STATUS \<longrightarrow> (ucast val :: u32) AND (TMT OR TRDY) = status s AND (TMT OR TRDY))
      | DeviceReset \<Rightarrow> False
      | _ \<Rightarrow> True)"

definition bytes_put :: "uart_event \<Rightarrow> u8 list" where
  "bytes_put ev =
     (case ev of GuestWrite addr val \<Rightarrow> (if addr = TXDATA then [ucast val] else []) | _ \<Rightarrow> [])"

lemma same_TMT_TRDY:
  fixes v w :: u32
  assumes "v AND (TMT OR TRDY) = w AND (TMT OR TRDY)"
  shows "bit v 5 = bit w 5" "bit v 6 = bit w 6"
  using arg_cong [OF assms, of "\<lambda>x. bit x 5"] arg_cong [OF assms, of "\<lambda>x. bit x 6"]
  by (simp_all add: bit_and_iff bit_or_iff flag_simps)

lemma uart_write_other_view:
  assumes "uart_write now addr val s = Inr s'" and "addr \<noteq> TXDATA"
    and "addr = STATUS \<Longrightarrow> (ucast val :: u32) AND (TMT OR TRDY) = status s AND (TMT OR TRDY)"
  shows "tx_view s' = tx_view s"
proof (cases "addr = DIVISOR")
  case True
  with assms(1) have "update_params (s\<lparr>divisor := ucast val\<rparr>) = Inr s'"
    by (simp add: uart_write_def Let_def)
  then have "tx_view s' = tx_view (s\<lparr>divisor := ucast val\<rparr>)" by (rule tx_view_update_params)
  then show ?thesis by (simp add: tx_view_def chr_written_def)
next
  case False
  with assms show ?thesis
    by (auto simp: uart_write_def Let_def tx_view_def chr_written_def split: if_splits
        dest: same_TMT_TRDY)
qed

lemma uart_exec_other_view:
  assumes "uart_exec now ev s = Inr s'" and "polite ev s"
    and "bytes_put ev = []" and "ev \<noteq> TxExpire"
  shows "tx_view s' = tx_view s"
proof (cases ev)
  case (GuestRead addr)
  with assms show ?thesis
    by (auto simp: uart_exec_def uart_read_def Let_def tx_view_def chr_written_def flag_simps
        split: if_splits)
next
  case (GuestWrite addr val)
  with assms have w: "uart_write now addr val s = Inr s'" and "addr \<noteq> TXDATA"
    and st: "addr = STATUS \<Longrightarrow> (ucast val :: u32) AND (TMT OR TRDY) = status s AND (TMT OR TRDY)"
    by (auto simp: uart_exec_def bytes_put_def polite_def split: if_splits)
  then show ?thesis by (rule uart_write_other_view)
next
  case (BackendByte b)
  with assms show ?thesis
    by (auto simp: uart_exec_def uart_receive_def Let_def tx_view_def chr_written_def
        split: if_splits)
next
  case RxExpire
  with assms show ?thesis
    by (auto simp: uart_exec_def timeout_rx_def Let_def tx_view_def chr_written_def flag_simps
        split: if_splits)
qed (use assms in \<open>auto simp: polite_def\<close>)

text \<open>One event conserves characters: sent ones, queued ones, and the one it writes.\<close>

lemma uart_exec_conserves:
  assumes "tx_wf s" and "uart_exec now ev s = Inr s'" and "polite ev s"
  shows "tx_wf s' \<and> chr_written s' @ tx_queue s' = chr_written s @ tx_queue s @ bytes_put ev"
proof (cases "ev = TxExpire")
  case True
  with assms show ?thesis
    using uart_expire_tx [OF assms(1) _ _ assms(2) [unfolded True]]
    by (cases "0 \<le> tx_timer s \<and> tx_timer s \<le> now")
      (auto simp: uart_exec_def bytes_put_def)
next
  case other: False
  show ?thesis
  proof (cases "bytes_put ev = []")
    case True
    with assms other have "tx_view s' = tx_view s" by (blast intro: uart_exec_other_view)
    from tx_view_cong [OF this] assms(1) True show ?thesis by simp
  next
    case False
    then obtain val where ev: "ev = GuestWrite TXDATA val" and put: "bytes_put ev = [ucast val]"
      by (auto simp: bytes_put_def split: uart_event.splits if_splits)
    from assms(2) have w: "uart_write now TXDATA val s = Inr s'" by (simp add: ev uart_exec_def)
    from assms(3) have "length (tx_queue s) < 2" by (simp add: ev polite_def tx_queue_def)
    with uart_write_TXDATA [OF assms(1) w] put show ?thesis by (simp add: tx_push_def)
  qed
qed

fun polite_run :: "(int \<times> uart_event) list \<Rightarrow> UartState \<Rightarrow> bool" where
  "polite_run [] s = True"
| "polite_run ((now, ev) # evs) s =
     (polite ev s \<and> (case uart_exec now ev s of Inl _ \<Rightarrow> True | Inr s' \<Rightarrow> polite_run evs s'))"

lemma uart_run_conserves:
  assumes "tx_wf s" and "uart_run evs s = Inr s'" and "polite_run evs s"
  shows "chr_written s' @ tx_queue s' =
    chr_written s @ tx_queue s @ concat (map (bytes_put \<circ> snd) evs)"
  using assms
proof (induction evs arbitrary: s)
  case (Cons e evs)
  obtain now ev where e: "e = (now, ev)" by (cases e)
  with Cons.prems(2) obtain t where t: "uart_exec now ev s = Inr t" "uart_run evs t = Inr s'"
    by (auto simp: res_bind_eq_Inr)
  with Cons.prems(3) e have "polite ev s" "polite_run evs t" by simp_all
  with Cons.IH [of t] uart_exec_conserves [OF Cons.prems(1) t(1)] t(2) e show ?case by simp
qed simp

section \<open>Properties\<close>

definition uart_on :: UartState where
  "uart_on = uart_init\<lparr>can_receive := 1, baudrate := 57600, char_tx_time := 190971, frame_size := 11,
     status := TRDY OR TMT, divisor := 1, irq := [0],
     chr := [ChrAcceptInput, ChrSetParams 57600 (CHR ''E'') 8 1]\<rparr>"

lemma uart_realize_init: "uart_realize uart_init = Inr uart_on"
  by (simp add: uart_realize_def uart_reset_def update_params_def uart_init_def uart_on_def
      CLK_FREQ_def NANOSECONDS_PER_SECOND_def Let_def)

lemma uart_on_wf: "tx_wf uart_on" "tx_queue uart_on = []" "chr_written uart_on = []"
  by (simp_all add: uart_on_def uart_init_def tx_wf_def tx_queue_def chr_written_def flag_simps
      bit_or_iff)

lemma uart_on_fields [simp]:
  "status uart_on = TRDY OR TMT" "clk_freq uart_on = CLK_FREQ" "tx_timer uart_on = -1"
  "rx_timer uart_on = -1" "can_receive uart_on = 1" "control uart_on = 0"
  by (simp_all add: uart_on_def uart_init_def)

lemma length_tx_queue: "length (tx_queue s) \<le> 2"
  by (simp add: tx_queue_def)

text \<open>
  C9.  In every state the UART reaches from power-on, by any sequence of guest register accesses,
  received bytes, timer expiries and resets, the level of its interrupt line is high exactly when
  some enabled status bit is set, i.e. when CONTROL and STATUS have a common bit.
\<close>
theorem uart_irq_follows_registers:
  assumes "uart_realize uart_init = Inr s0" and "uart_run evs s0 = Inr s"
  shows "line_level (irq s) = (if has_flag (control s) (status s) then 1 else 0)"
proof -
  have "uart_irq.coherent s0"
    using assms(1) unfolding uart_realize_def by (rule uart_coherent_uart_reset)
  with assms(2) have "uart_irq.coherent s" by (rule uart_run_coherent)
  then show ?thesis by (simp add: uart_irq.coherent_def)
qed


abbreviation uart_demo_run :: "(int \<times> uart_event) list" where
  "uart_demo_run \<equiv> [(0, GuestWrite CONTROL 32), (10, GuestWrite TXDATA 65),
     (20, GuestWrite TXDATA 66), (200000, TxExpire), (300000, TxExpire), (400000, TxExpire)]"

lemma uart_demo_run_ok:
  "\<not> isl (uart_run uart_demo_run uart_on)" "polite_run uart_demo_run uart_on"
  by code_simp+

lemma uart_demo_run_Inr: "uart_run uart_demo_run uart_on = Inr (projr (uart_run uart_demo_run uart_on))"
  using uart_demo_run_ok(1) by simp

theorem uart_irq_follows_registers_witness:
  "line_level (irq (projr (uart_run uart_demo_run uart_on))) =
     (if has_flag (control (projr (uart_run uart_demo_run uart_on)))
           (status (projr (uart_run uart_demo_run uart_on))) then 1 else 0)"
  by (rule uart_irq_follows_registers [OF uart_realize_init uart_demo_run_Inr])




lemma uart_drain_step:
  assumes "tx_wf s" and "tx_queue s \<noteq> []"
  shows "\<exists>now s'. uart_exec now TxExpire s = Inr s' \<and> tx_wf s' \<and> tx_queue s' = tl (tx_queue s) \<and>
    chr_written s' = chr_written s @ [hd (tx_queue s)]"
proof -
  have "0 \<le> tx_timer s"
    using assms by (auto simp: tx_wf_def tx_queue_def split: if_splits)
  moreover obtain s' where "uart_exec (tx_timer s) TxExpire s = Inr s'"
    by (simp add: uart_exec_def)
  ultimately show ?thesis using uart_expire_tx [OF assms(1) _ order_refl] by blast
qed

text \<open>
  C37.  The transmitter always drains: from any well-formed state as many timer expiries as there are
  queued characters hand all of them to the backend, in order, and leave the transmitter empty.
\<close>
theorem uart_transmitter_drains:
  assumes "tx_wf s"
  shows "\<exists>times s'. length times = length (tx_queue s) \<and>
    uart_run (map (\<lambda>t. (t, TxExpire)) times) s = Inr s' \<and>
    tx_queue s' = [] \<and> chr_written s' = chr_written s @ tx_queue s"
  using assms
proof (induction "tx_queue s" arbitrary: s)
  case Nil
  then show ?case by (intro exI [of _ "[]"]) auto
next
  case (Cons c q)
  from uart_drain_step [OF Cons.prems] Cons.hyps(2) obtain now t where
    t: "uart_exec now TxExpire s = Inr t" "tx_wf t" "tx_queue t = q"
    "chr_written t = chr_written s @ [c]" by (metis list.distinct(1) list.sel(1,3))
  from Cons.hyps(1) [OF t(3) [symmetric] t(2)] obtain times s' where
    "length times = length (tx_queue t)" "uart_run (map (\<lambda>t. (t, TxExpire)) times) t = Inr s'"
    "tx_queue s' = []" "chr_written s' = chr_written t @ tx_queue t" by blast
  with t show ?case
    by (intro exI [of _ "now # times"] exI [of _ s']) (auto simp: Cons.hyps(2) [symmetric])
qed

definition uart_busy :: UartState where
  "uart_busy = uart_on\<lparr>status := 0, tx_timer := 5, tx_shift_register := 65, txdata := 66\<rparr>"

lemma uart_busy_wf: "tx_wf uart_busy" "tx_queue uart_busy = [65, 66]" "chr_written uart_busy = []"
  by (simp_all add: uart_busy_def tx_wf_def tx_queue_def chr_written_def uart_on_def)

theorem uart_transmitter_drains_witness:
  "\<exists>times s'. length times = length (tx_queue uart_busy) \<and>
    uart_run (map (\<lambda>t. (t, TxExpire)) times) uart_busy = Inr s' \<and>
    tx_queue s' = [] \<and> chr_written s' = [65, 66]"
  using uart_transmitter_drains [OF uart_busy_wf(1)] by (simp add: uart_busy_wf)

lemma word_div_eq_0: "b \<noteq> 0 \<Longrightarrow> a div b = 0 \<longleftrightarrow> unat a < unat b" for a b :: "'a::len word"
  by (metis div_eq_0_iff unat_0 unat_div unat_eq_zero)

lemma update_params_traps_iff:
  assumes "clk_freq s = CLK_FREQ"
  shows "update_params s = Inl e \<longleftrightarrow> e = DivByZero \<and> 115200 \<le> unat (divisor s)"
proof -
  let ?d = "divisor s"
  have lt: "unat ?d < 2 ^ 32" by (rule unat_u32_less)
  have d1: "unat (?d + 1) = (unat ?d + 1) mod 2 ^ 32" by (simp add: unat_word_ariths)
  have zero: "?d + 1 = 0 \<longleftrightarrow> unat ?d = 2 ^ 32 - 1"
  proof (cases "unat ?d = 2 ^ 32 - 1")
    case False
    with lt have "unat ?d + 1 < 2 ^ 32" by simp
    with d1 False show ?thesis by (simp add: unat_eq_zero [symmetric])
  qed (use d1 in \<open>simp add: unat_eq_zero [symmetric]\<close>)
  show ?thesis
  proof (cases "?d + 1 = 0")
    case True
    with zero show ?thesis by (auto simp: update_params_def)
  next
    case False
    with lt zero d1 have "unat (?d + 1) = unat ?d + 1" by simp
    moreover have "ucast (?d + 1) \<noteq> (0 :: u64)" using False by (metis unat_eq_zero unat_ucast_u32_u64)
    ultimately have "CLK_FREQ div ucast (?d + 1) = 0 \<longleftrightarrow> 115200 \<le> unat ?d"
      by (auto simp: word_div_eq_0 CLK_FREQ_def)
    with False assms show ?thesis by (auto simp: update_params_def Let_def)
  qed
qed

text \<open>
  C39.  A register write stops the emulator exactly when it stores a divisor of at least 115200 (the
  clock frequency) in DIVISOR: the baud rate, or the divisor plus one, is then zero and the code
  divides by it.
\<close>
theorem uart_write_traps_iff:
  assumes "clk_freq s = CLK_FREQ"
  shows "uart_write now addr val s = Inl e \<longleftrightarrow>
    e = DivByZero \<and> addr = DIVISOR \<and> 115200 \<le> unat (ucast val :: u32)"
  using update_params_traps_iff [of "s\<lparr>divisor := ucast val\<rparr>" e] assms
  by (auto simp: uart_write_def Let_def split: if_splits)

theorem uart_write_traps_iff_witness:
  "clk_freq uart_on = CLK_FREQ \<and> uart_write 0 DIVISOR 115200 uart_on = Inl DivByZero"
  using uart_write_traps_iff [of uart_on 0 DIVISOR 115200 DivByZero] by simp

text \<open>
  C38.  A byte the receiver accepts reaches the guest: while it is in the shift register further bytes
  are dropped, and when the timer expires RXDATA reads as that byte, RRDY is set, and ROE is raised
  exactly when the previous character had not been read; reading RXDATA clears RRDY.
\<close>
theorem uart_receives_byte:
  assumes "can_receive s \<noteq> 0" and "rx_timer (uart_receive now b s) \<le> later"
  shows "uart_receive t c (uart_receive now b s) = uart_receive now b s \<and>
    (\<exists>s2. uart_exec later RxExpire (uart_receive now b s) = Inr s2 \<and>
      fst (uart_read RXDATA s2) = ucast b \<and> has_flag (status s2) RRDY \<and> can_receive s2 = 1 \<and>
      (has_flag (status s2) ROE \<longleftrightarrow> has_flag (status s) ROE \<or> has_flag (status s) RRDY) \<and>
      \<not> has_flag (status (snd (uart_read RXDATA s2))) RRDY)"
proof -
  let ?s1 = "uart_receive now b s"
  let ?s2 = "timeout_rx (?s1\<lparr>rx_timer := -1\<rparr>)"
  have s1: "can_receive ?s1 = 0" "rx_shift_register ?s1 = b" "status ?s1 = status s"
    and pend: "0 \<le> rx_timer ?s1"
    using assms(1) by (simp_all add: uart_receive_def wait_for_ch_tx_time_def Let_def)
  have "uart_exec later RxExpire ?s1 = Inr ?s2"
    using pend assms(2) by (simp add: uart_exec_def)
  moreover have "fst (uart_read RXDATA ?s2) = ucast b"
    by (simp add: uart_read_def timeout_rx_def Let_def s1)
  moreover have "has_flag (status ?s2) RRDY" "can_receive ?s2 = 1"
    "has_flag (status ?s2) ROE \<longleftrightarrow> has_flag (status s) ROE \<or> has_flag (status s) RRDY"
    by (simp_all add: timeout_rx_def Let_def s1 flag_simps)
  moreover have "\<not> has_flag (status (snd (uart_read RXDATA ?s2))) RRDY"
    by (simp add: uart_read_def Let_def)
  moreover have "uart_receive t c ?s1 = ?s1" by (simp add: uart_receive_def [of t] s1)
  ultimately show ?thesis by blast
qed

theorem uart_receives_byte_witness:
  "\<exists>s2. uart_exec 500000 RxExpire (uart_receive 10 72 uart_on) = Inr s2 \<and>
     fst (uart_read RXDATA s2) = 72 \<and> has_flag (status s2) RRDY \<and> \<not> has_flag (status s2) ROE"
proof -
  have "rx_timer (uart_receive 10 72 uart_on) \<le> 500000"
    by code_simp
  from uart_receives_byte [OF _ this, of 0 0] show ?thesis
    by (auto simp: flag_simps bit_or_iff)
qed

text \<open>
  C40.  A device reset does not stop the transmit timer: a character in the shift register when the
  UART is reset is still handed to the backend when the old deadline passes, although the reset has
  set TMT and TRDY (transmitter empty).
\<close>
theorem uart_reset_leaves_transmit_timer_armed:
  assumes "0 \<le> tx_timer s" and "tx_timer s \<le> now" and "uart_reset s = Inr r"
  shows "tx_queue r = [] \<and> (\<exists>r'. uart_exec now TxExpire r = Inr r' \<and>
    chr_written r' = chr_written s @ [tx_shift_register s])"
proof -
  let ?r0 = "s\<lparr>rxdata := 0, txdata := 0, status := TRDY OR TMT, control := 0, divisor := 1,
    can_receive := 1, irq := irq s @ [0], chr := chr s @ [ChrAcceptInput]\<rparr>"
  have up: "update_params ?r0 = Inr r"
    using assms(3) by (simp add: uart_reset_def Let_def)
  note fr = update_params_frame [OF up]
  have "chr_written r = chr_written s"
    using tx_view_update_params [OF up] by (simp add: tx_view_def chr_written_def)
  moreover have "tx_queue r = []" by (simp add: tx_queue_def fr flag_simps bit_or_iff)
  ultimately show ?thesis
    using assms(1,2) fr
    by (simp add: uart_exec_def timeout_tx_def Let_def flag_simps bit_or_iff chr_written_def)
qed

theorem uart_reset_leaves_transmit_timer_armed_witness:
  "\<exists>r. uart_reset uart_busy = Inr r \<and> tx_queue r = [] \<and>
     (\<exists>r'. uart_exec 5 TxExpire r = Inr r' \<and> chr_written r' = [65])"
proof -
  have "\<not> isl (uart_reset uart_busy)" by code_simp
  then obtain r where r: "uart_reset uart_busy = Inr r" by (cases "uart_reset uart_busy") auto
  have "0 \<le> tx_timer uart_busy" "tx_timer uart_busy \<le> 5" "tx_shift_register uart_busy = 65"
    by (simp_all add: uart_busy_def)
  with uart_reset_leaves_transmit_timer_armed [OF _ _ r, of 5] uart_busy_wf(3) r show ?thesis by simp
qed

end
