(* ===== verification/Dev_Lines.thy ===== *)
theory Dev_Lines
  imports Uart_Device Can_Device
begin

text \<open>The interrupt lines of the UART and of the CAN controllers, as the board sees them: every
operation adds levels 0 and 1 to the log of the line and changes nothing of it.\<close>

section \<open>Lines that only grow\<close>

definition extends :: "irq_log \<Rightarrow> irq_log \<Rightarrow> bool" where
  "extends old new \<longleftrightarrow> (\<exists>ls. new = old @ ls \<and> set ls \<subseteq> {0, 1})"

lemma extends_refl [simp, intro]: "extends l l"
  by (simp add: extends_def)

lemma extends_trans [trans]: "\<lbrakk>extends a b; extends b c\<rbrakk> \<Longrightarrow> extends a c"
  by (auto simp: extends_def)

lemma extends_snoc [simp]: "extends l (l @ [0])" "extends l (l @ [1])"
  by (auto simp: extends_def)

lemma uart_bits_extend:
  "extends (UartState.irq s) (UartState.irq (uart_check_and_set_interrupt s))"
  "extends (UartState.irq s) (UartState.irq (uart_check_and_clear_interrupt s))"
  "extends (UartState.irq s) (UartState.irq (uart_set_status_bit b s))"
  "extends (UartState.irq s) (UartState.irq (uart_reset_status_bit b s))"
  by (simp_all add: uart_bit_defs Let_def)

lemma uart_two_bits_extend:
  "extends (UartState.irq s) (UartState.irq (uart_set_status_bit b (uart_reset_status_bit c s)))"
  "extends (UartState.irq s) (UartState.irq (uart_check_and_clear_interrupt (uart_check_and_set_interrupt s)))"
  using extends_trans uart_bits_extend by blast+

lemma uart_write_extends:
  assumes "uart_write now addr v s = Inr s'"
  shows "extends (UartState.irq s) (UartState.irq s')"
proof -
  have upd: "UartState.irq t' = UartState.irq t" if "update_params t = Inr t'" for t t' using that by (rule update_params_frame)
  show ?thesis using assms
      uart_two_bits_extend(1) [of "s\<lparr>txdata := ucast v\<rparr>" TRDY TMT]
      uart_two_bits_extend(2) [of "s\<lparr>status := ucast v\<rparr>"] uart_two_bits_extend(2) [of "s\<lparr>control := ucast v\<rparr>"]
      uart_bits_extend [of "s\<lparr>txdata := ucast v\<rparr>"]
    by (auto simp: uart_write_def Let_def dest: upd split: if_splits)
qed

lemma uart_exec_extends:
  assumes "uart_exec now ev s = Inr s'"
  shows "extends (UartState.irq s) (UartState.irq s')"
proof (cases ev)
  case (GuestRead addr)
  with assms show ?thesis using uart_bits_extend(4) by (auto simp: uart_exec_def uart_read_def Let_def)
next
  case (GuestWrite addr v)
  with assms show ?thesis by (auto simp: uart_exec_def intro: uart_write_extends)
next
  case (BackendByte b)
  with assms show ?thesis by (auto simp: uart_exec_def uart_receive_def Let_def)
next
  case RxExpire
  have "extends (UartState.irq s) (UartState.irq (timeout_rx (s\<lparr>rx_timer := - 1\<rparr>)))"
    using uart_bits_extend(3) [of "s\<lparr>rx_timer := - 1, rxdata := ucast (rx_shift_register s), UartState.can_receive := 1\<rparr>"]
    by (simp add: timeout_rx_def Let_def)
  with RxExpire assms show ?thesis by (auto simp: uart_exec_def)
next
  case TxExpire
  let ?s = "s\<lparr>tx_timer := - 1, chr := chr s @ [ChrWriteAll (tx_shift_register s)]\<rparr>"
  have "extends (UartState.irq s) (UartState.irq (timeout_tx now (s\<lparr>tx_timer := - 1\<rparr>)))"
    using uart_bits_extend(3) [of ?s TMT] uart_two_bits_extend(1) [of ?s TRDY TMT]
    by (simp add: timeout_tx_def Let_def)
  with TxExpire assms show ?thesis by (auto simp: uart_exec_def)
next
  case DeviceReset
  with assms show ?thesis by (auto simp: uart_exec_def uart_reset_def Let_def dest: update_params_frame(3))
qed

lemma can_bits_extend:
  "extends (CanState.irq s) (CanState.irq (can_set_status_bit b s))"
  "extends (CanState.irq s) (CanState.irq (can_reset_status_bit b s))"
  "extends (CanState.irq s) (CanState.irq (can_reset s))"
  "extends (CanState.irq s) (CanState.irq (can_write_IER v s))"
  by (simp_all add: can_set_status_bit_def can_reset_status_bit_def can_check_simps can_reset_def can_write_IER_def rx_pending_def Let_def)

lemma can_receive_extends: "extends (CanState.irq s) (CanState.irq (can_receive_frame fr s))"
proof -
  let ?s = "if has_flag (sr s) RBS then can_set_status_bit DOS s else s"
  have "extends (CanState.irq s) (CanState.irq ?s)" by (simp add: can_bits_extend)
  also have "extends (CanState.irq ?s) (CanState.irq (can_receive_frame fr s))"
    unfolding can_receive_frame_alt by (rule extends_trans [OF _ can_bits_extend(1)]) simp
  finally show ?thesis .
qed

lemma cmd_state_extends: "extends (CanState.irq s) (CanState.irq (cmd_state v s))"
proof -
  have step: "extends (CanState.irq s) (CanState.irq (if c then let s = can_reset_status_bit b s in s\<lparr>cmr := x s\<rparr> else s))" for c b s x
    by (simp add: can_bits_extend Let_def)
  have last: "extends (CanState.irq s) (CanState.irq (if c then can_reset_status_bit b (s\<lparr>cmr := x\<rparr>) else s))" for c b s x
    using can_bits_extend(2) [of "s\<lparr>cmr := x\<rparr>" b] by simp
  show ?thesis unfolding cmd_state_def Let_def [of "if _ then _ else _"]
    by (rule extends_trans [OF step], rule extends_trans [OF step], rule last)
qed

lemma can_exec_extends:
  assumes "net_wf (net w)"
  shows "extends (CanState.irq (dev w j)) (CanState.irq (dev (can_exec e w) j))"
proof -
  have cmr: "extends (CanState.irq (dev w j)) (CanState.irq (dev (can_write_CMR i v w) j))" for i v
  proof (cases "j = i")
    case True
    with assms show ?thesis
      by (simp add: can_write_CMR_alt Let_def dev_transmit cmd_state_extends extends_trans [OF cmd_state_extends can_bits_extend(1)])
  next
    case False
    with assms show ?thesis by (simp add: can_write_CMR_alt Let_def dev_transmit can_receive_extends)
  qed
  show ?thesis
    using assms by (auto simp: can_exec_def can_write_def dev_send can_receive_extends can_bits_extend cmr split: can_event.split)
qed

end
