(* ===== verification/Cortex_M.thy ===== *)
theory Cortex_M
  imports Emu_Prelude
begin

text \<open>
  The part of the CPU state that the interrupt controller reads and writes: feature bits, the
  identification registers, and the M-profile registers of \<open>CPUARMState\<close> (\<open>target/arm/cpu.h\<close>),
  with the switch of stack pointers on exception entry (\<open>target/arm/tcg/m_helper.c\<close>) and the
  Cortex-M7 of the board (\<open>target/arm/tcg/cpu-v7m.c\<close>).  Arrays indexed by the security state are
  functions on booleans; \<open>True\<close> is the secure bank.
\<close>

section \<open>Bit fields\<close>

definition field_mask :: "nat \<Rightarrow> nat \<Rightarrow> 'a::len word" where
  "field_mask shift len = push_bit shift (mask len)"

definition extract32 :: "u32 \<Rightarrow> nat \<Rightarrow> nat \<Rightarrow> u32" where
  "extract32 value start len = drop_bit start value AND drop_bit (32 - len) (- 1)"

definition deposit32 :: "u32 \<Rightarrow> nat \<Rightarrow> nat \<Rightarrow> u32 \<Rightarrow> u32" where
  "deposit32 value start len fieldval =
    (let m = push_bit start (drop_bit (32 - len) (- 1))
     in (value AND NOT m) OR (push_bit start fieldval AND m))"

lemma bit_field_mask: "bit (field_mask s l :: 'a::len word) n \<longleftrightarrow> s \<le> n \<and> n < s + l \<and> n < LENGTH('a)"
  by (auto simp: field_mask_def bit_push_bit_iff bit_mask_iff)

lemma bit_extract32:
  "l \<le> 32 \<Longrightarrow> bit (extract32 v s l) n \<longleftrightarrow> n < l \<and> bit v (s + n)"
  by (auto simp: extract32_def bit_and_iff bit_drop_bit_eq bit_mask_iff)

lemma bit_deposit32:
  "s + l \<le> 32 \<Longrightarrow> bit (deposit32 v s l f) n \<longleftrightarrow> (if s \<le> n \<and> n < s + l then bit f (n - s) else bit v n)"
  by (auto simp: deposit32_def Let_def bit_or_iff bit_and_iff bit_not_iff bit_push_bit_iff bit_mask_iff
      dest: bit_imp_le_length)

lemma extract_deposit32:
  "s + l \<le> 32 \<Longrightarrow> extract32 (deposit32 v s l f) s l = take_bit l f"
  by (rule bit_word_eqI) (auto simp: bit_extract32 bit_deposit32 bit_take_bit_iff)

lemma extract_deposit32_other:
  "\<lbrakk>s + l \<le> 32; s' + l' \<le> 32; s + l \<le> s' \<or> s' + l' \<le> s\<rbrakk> \<Longrightarrow> extract32 (deposit32 v s l f) s' l' = extract32 v s' l'"
  by (rule bit_word_eqI) (auto simp: bit_extract32 bit_deposit32)

section \<open>Features and identification registers\<close>

datatype arm_features =
    ARM_FEATURE_V7
  | ARM_FEATURE_M
  | ARM_FEATURE_V8
  | ARM_FEATURE_THUMB_DSP
  | ARM_FEATURE_M_SECURITY
  | ARM_FEATURE_M_MAIN
  | ARM_FEATURE_V8_1M

datatype id_reg =
    ID_PFR0 | ID_PFR1 | ID_DFR0 | ID_AFR0 | ID_MMFR0 | ID_MMFR1 | ID_MMFR2 | ID_MMFR3
  | ID_ISAR0 | ID_ISAR1 | ID_ISAR2 | ID_ISAR3 | ID_ISAR4 | ID_ISAR5 | ID_ISAR6
  | CLIDR | ID_AA64PFR0

record ARMISARegisters =
  mvfr0 :: u32
  mvfr1 :: u32
  mvfr2 :: u32
  idregs :: "id_reg \<Rightarrow> u64"

definition isar_feature_aa32_lob :: "ARMISARegisters \<Rightarrow> bool" where
  "isar_feature_aa32_lob i \<longleftrightarrow> extract32 (ucast (idregs i ID_ISAR0)) 12 4 \<ge> 3"

definition isar_feature_aa32_ras :: "ARMISARegisters \<Rightarrow> bool" where
  "isar_feature_aa32_ras i \<longleftrightarrow> extract32 (ucast (idregs i ID_PFR0)) 28 4 \<noteq> 0"

definition isar_feature_aa32_mprofile :: "ARMISARegisters \<Rightarrow> bool" where
  "isar_feature_aa32_mprofile i \<longleftrightarrow> extract32 (ucast (idregs i ID_PFR1)) 8 4 \<noteq> 0"

definition isar_feature_aa32_fp16_arith :: "ARMISARegisters \<Rightarrow> bool" where
  "isar_feature_aa32_fp16_arith i \<longleftrightarrow>
     (if isar_feature_aa32_mprofile i then extract32 (mvfr1 i) 20 4 > 0 else extract32 (mvfr1 i) 24 4 \<ge> 3)"

definition isar_feature_aa32_vfp_simd :: "ARMISARegisters \<Rightarrow> bool" where
  "isar_feature_aa32_vfp_simd i \<longleftrightarrow> extract32 (mvfr0 i) 0 4 > 0"

definition isar_feature_aa64_fp16 :: "ARMISARegisters \<Rightarrow> bool" where
  "isar_feature_aa64_fp16 i \<longleftrightarrow> (drop_bit 16 (idregs i ID_AA64PFR0) AND mask 4) = 1"

definition isar_feature_any_fp16 :: "ARMISARegisters \<Rightarrow> bool" where
  "isar_feature_any_fp16 i \<longleftrightarrow> isar_feature_aa64_fp16 i \<or> isar_feature_aa32_fp16_arith i"

section \<open>Register fields\<close>

definition R_V7M_CCR_NONBASETHRDENA_MASK :: u32 where "R_V7M_CCR_NONBASETHRDENA_MASK = 2 ^ 0"
definition R_V7M_CCR_USERSETMPEND_MASK :: u32 where "R_V7M_CCR_USERSETMPEND_MASK = 2 ^ 1"
definition R_V7M_CCR_UNALIGN_TRP_MASK :: u32 where "R_V7M_CCR_UNALIGN_TRP_MASK = 2 ^ 3"
definition R_V7M_CCR_DIV_0_TRP_MASK :: u32 where "R_V7M_CCR_DIV_0_TRP_MASK = 2 ^ 4"
definition R_V7M_CCR_BFHFNMIGN_MASK :: u32 where "R_V7M_CCR_BFHFNMIGN_MASK = 2 ^ 8"
definition R_V7M_CCR_STKALIGN_MASK :: u32 where "R_V7M_CCR_STKALIGN_MASK = 2 ^ 9"
definition R_V7M_CCR_TRD_MASK :: u32 where "R_V7M_CCR_TRD_MASK = 2 ^ 20"

definition R_V7M_SCR_SLEEPDEEP_MASK :: u32 where "R_V7M_SCR_SLEEPDEEP_MASK = 2 ^ 2"
definition R_V7M_SCR_SLEEPDEEPS_MASK :: u32 where "R_V7M_SCR_SLEEPDEEPS_MASK = 2 ^ 3"

definition R_V7M_AIRCR_SYSRESETREQ_MASK :: u32 where "R_V7M_AIRCR_SYSRESETREQ_MASK = 2 ^ 2"
definition R_V7M_AIRCR_SYSRESETREQS_MASK :: u32 where "R_V7M_AIRCR_SYSRESETREQS_MASK = 2 ^ 3"
definition R_V7M_AIRCR_BFHFNMINS_MASK :: u32 where "R_V7M_AIRCR_BFHFNMINS_MASK = 2 ^ 13"
definition R_V7M_AIRCR_PRIS_MASK :: u32 where "R_V7M_AIRCR_PRIS_MASK = 2 ^ 14"

definition R_V7M_CFSR_BFSR_MASK :: "'a::len word" where "R_V7M_CFSR_BFSR_MASK = field_mask 8 8"
definition R_V7M_HFSR_FORCED_MASK :: u32 where "R_V7M_HFSR_FORCED_MASK = 2 ^ 30"

definition R_V7M_MPU_CTRL_ENABLE_MASK :: u32 where "R_V7M_MPU_CTRL_ENABLE_MASK = 2 ^ 0"
definition R_V7M_MPU_CTRL_HFNMIENA_MASK :: u32 where "R_V7M_MPU_CTRL_HFNMIENA_MASK = 2 ^ 1"
definition R_V7M_MPU_CTRL_PRIVDEFENA_MASK :: u32 where "R_V7M_MPU_CTRL_PRIVDEFENA_MASK = 2 ^ 2"

definition R_V7M_CLIDR_CTYPE_ALL_MASK :: u64 where "R_V7M_CLIDR_CTYPE_ALL_MASK = field_mask 0 21"
definition R_V7M_CSSELR_INDEX_MASK :: u32 where "R_V7M_CSSELR_INDEX_MASK = field_mask 0 4"

definition R_V7M_FPCCR_LSPACT_MASK :: u32 where "R_V7M_FPCCR_LSPACT_MASK = 2 ^ 0"
definition R_V7M_FPCCR_USER_MASK :: u32 where "R_V7M_FPCCR_USER_MASK = 2 ^ 1"
definition R_V7M_FPCCR_S_MASK :: u32 where "R_V7M_FPCCR_S_MASK = 2 ^ 2"
definition R_V7M_FPCCR_THREAD_MASK :: u32 where "R_V7M_FPCCR_THREAD_MASK = 2 ^ 3"
definition R_V7M_FPCCR_HFRDY_MASK :: u32 where "R_V7M_FPCCR_HFRDY_MASK = 2 ^ 4"
definition R_V7M_FPCCR_MMRDY_MASK :: u32 where "R_V7M_FPCCR_MMRDY_MASK = 2 ^ 5"
definition R_V7M_FPCCR_BFRDY_MASK :: u32 where "R_V7M_FPCCR_BFRDY_MASK = 2 ^ 6"
definition R_V7M_FPCCR_SFRDY_MASK :: u32 where "R_V7M_FPCCR_SFRDY_MASK = 2 ^ 7"
definition R_V7M_FPCCR_MONRDY_MASK :: u32 where "R_V7M_FPCCR_MONRDY_MASK = 2 ^ 8"
definition R_V7M_FPCCR_SPLIMVIOL_MASK :: u32 where "R_V7M_FPCCR_SPLIMVIOL_MASK = 2 ^ 9"
definition R_V7M_FPCCR_UFRDY_MASK :: u32 where "R_V7M_FPCCR_UFRDY_MASK = 2 ^ 10"
definition R_V7M_FPCCR_RES0_MASK :: u32 where "R_V7M_FPCCR_RES0_MASK = field_mask 11 15"
definition R_V7M_FPCCR_CLRONRETS_MASK :: u32 where "R_V7M_FPCCR_CLRONRETS_MASK = 2 ^ 27"
definition R_V7M_FPCCR_CLRONRET_MASK :: u32 where "R_V7M_FPCCR_CLRONRET_MASK = 2 ^ 28"
definition R_V7M_FPCCR_LSPENS_MASK :: u32 where "R_V7M_FPCCR_LSPENS_MASK = 2 ^ 29"
definition R_V7M_FPCCR_LSPEN_MASK :: u32 where "R_V7M_FPCCR_LSPEN_MASK = 2 ^ 30"
definition R_V7M_FPCCR_ASPEN_MASK :: u32 where "R_V7M_FPCCR_ASPEN_MASK = 2 ^ 31"

definition R_V7M_FPCCR_BANKED_MASK :: u32 where
  "R_V7M_FPCCR_BANKED_MASK = R_V7M_FPCCR_LSPACT_MASK OR R_V7M_FPCCR_USER_MASK OR R_V7M_FPCCR_THREAD_MASK OR
     R_V7M_FPCCR_MMRDY_MASK OR R_V7M_FPCCR_SPLIMVIOL_MASK OR R_V7M_FPCCR_UFRDY_MASK OR R_V7M_FPCCR_ASPEN_MASK"

definition FPCR_FZ16 :: u32 where "FPCR_FZ16 = 2 ^ 19"
definition FPCR_RMODE_MASK :: u32 where "FPCR_RMODE_MASK = field_mask 22 2"
definition FPCR_FZ :: u32 where "FPCR_FZ = 2 ^ 24"
definition FPCR_DN :: u32 where "FPCR_DN = 2 ^ 25"
definition FPCR_AHP :: u32 where "FPCR_AHP = 2 ^ 26"
definition FPCR_LTPSIZE_SHIFT :: nat where "FPCR_LTPSIZE_SHIFT = 16"

definition R_V7M_CONTROL_SPSEL_MASK :: u32 where "R_V7M_CONTROL_SPSEL_MASK = 2 ^ 1"

section \<open>State\<close>

record pmsav7_state =
  drbar :: "nat \<Rightarrow> u32"
  drsr :: "nat \<Rightarrow> u32"
  dracr :: "nat \<Rightarrow> u32"
  rnr :: "bool \<Rightarrow> u32"

record pmsav8_state =
  p8_rbar :: "bool \<Rightarrow> nat \<Rightarrow> u32"
  p8_rlar :: "bool \<Rightarrow> nat \<Rightarrow> u32"
  mair0 :: "bool \<Rightarrow> u32"
  mair1 :: "bool \<Rightarrow> u32"

record sau_state =
  sau_rbar :: "nat \<Rightarrow> u32"
  sau_rlar :: "nat \<Rightarrow> u32"
  sau_rnr :: u32
  sau_ctrl :: u32

record v7m_state =
  other_sp :: u32
  vecbase :: "bool \<Rightarrow> u32"
  basepri :: "bool \<Rightarrow> u32"
  control :: "bool \<Rightarrow> u32"
  ccr :: "bool \<Rightarrow> u32"
  cfsr :: "bool \<Rightarrow> u32"
  hfsr :: u32
  dfsr :: u32
  sfsr :: u32
  mmfar :: "bool \<Rightarrow> u32"
  bfar :: u32
  sfar :: u32
  mpu_ctrl :: "bool \<Rightarrow> u32"
  exception :: u32
  primask :: "bool \<Rightarrow> u32"
  faultmask :: "bool \<Rightarrow> u32"
  aircr :: u32
  secure :: bool
  csselr :: "bool \<Rightarrow> u32"
  scr :: "bool \<Rightarrow> u32"
  fpcar :: "bool \<Rightarrow> u32"
  fpccr :: "bool \<Rightarrow> u32"
  fpdscr :: "bool \<Rightarrow> u32"
  cpacr :: "bool \<Rightarrow> u32"
  nsacr :: u32

text \<open>\<open>tlb_flushes\<close> counts the calls of \<open>tlb_flush\<close>, whose effect is outside the model.\<close>

record ARMCPU =
  features :: "arm_features \<Rightarrow> bool"
  regs13 :: u32
  v7m :: v7m_state
  pmsav7 :: pmsav7_state
  pmsav8 :: pmsav8_state
  sau :: sau_state
  isar :: ARMISARegisters
  midr :: u64
  revidr :: u32
  ctr :: u64
  ccsidr :: "nat \<Rightarrow> u64"
  pmsav7_dregion :: u32
  sau_sregion :: u32
  tlb_flushes :: nat

definition arm_feature :: "ARMCPU \<Rightarrow> arm_features \<Rightarrow> bool" where
  "arm_feature cpu f \<longleftrightarrow> features cpu f"

definition arm_v7m_csselr_razwi :: "ARMCPU \<Rightarrow> bool" where
  "arm_v7m_csselr_razwi cpu \<longleftrightarrow> has_flag (idregs (isar cpu) CLIDR) R_V7M_CLIDR_CTYPE_ALL_MASK"

definition arm_v7m_is_handler_mode :: "ARMCPU \<Rightarrow> bool" where
  "arm_v7m_is_handler_mode cpu \<longleftrightarrow> exception (v7m cpu) \<noteq> 0"

definition v7m_using_psp :: "ARMCPU \<Rightarrow> bool" where
  "v7m_using_psp cpu \<longleftrightarrow> \<not> arm_v7m_is_handler_mode cpu \<and>
     has_flag (control (v7m cpu) (secure (v7m cpu))) R_V7M_CONTROL_SPSEL_MASK"

definition write_v7m_exception :: "u32 \<Rightarrow> ARMCPU \<Rightarrow> ARMCPU" where
  "write_v7m_exception new_exc cpu =
    (let old_is_psp = v7m_using_psp cpu;
         cpu = cpu\<lparr>v7m := (v7m cpu)\<lparr>exception := new_exc\<rparr>\<rparr>;
         new_is_psp = v7m_using_psp cpu
     in if old_is_psp \<noteq> new_is_psp
        then cpu\<lparr>v7m := (v7m cpu)\<lparr>other_sp := regs13 cpu\<rparr>, regs13 := other_sp (v7m cpu)\<rparr>
        else cpu)"

text \<open>Entering and leaving handler mode swaps the stack pointers and swaps them back.\<close>

lemma write_v7m_exception_enter_leave:
  assumes "exception (v7m cpu) = 0"
  shows "write_v7m_exception 0 (write_v7m_exception n cpu) = cpu"
proof -
  have "v7m cpu = (v7m cpu)\<lparr>exception := 0\<rparr>" using assms by (cases "v7m cpu") simp
  with assms show ?thesis
    by (cases cpu; cases "v7m cpu")
      (auto simp: write_v7m_exception_def Let_def v7m_using_psp_def arm_v7m_is_handler_mode_def)
qed

section \<open>Reset\<close>

text \<open>
  The M-profile part of the CPU reset: \<open>svtor\<close> and \<open>nsvtor\<close> are the configured vector table
  addresses.  The registers it clears first are those of \<open>zero_v7m\<close>; the initial stack pointer
  and program counter, read from the vector table, are outside the model.
\<close>

definition zero_v7m :: v7m_state where
  "zero_v7m = \<lparr>other_sp = 0, vecbase = (\<lambda>_. 0), basepri = (\<lambda>_. 0), control = (\<lambda>_. 0), ccr = (\<lambda>_. 0),
     cfsr = (\<lambda>_. 0), hfsr = 0, dfsr = 0, sfsr = 0, mmfar = (\<lambda>_. 0), bfar = 0, sfar = 0, mpu_ctrl = (\<lambda>_. 0),
     exception = 0, primask = (\<lambda>_. 0), faultmask = (\<lambda>_. 0), aircr = 0, secure = False, csselr = (\<lambda>_. 0),
     scr = (\<lambda>_. 0), fpcar = (\<lambda>_. 0), fpccr = (\<lambda>_. 0), fpdscr = (\<lambda>_. 0), cpacr = (\<lambda>_. 0), nsacr = 0\<rparr>"

definition arm_cpu_reset_m :: "u32 \<Rightarrow> u32 \<Rightarrow> ARMCPU \<Rightarrow> ARMCPU" where
  "arm_cpu_reset_m svtor nsvtor cpu =
    (let v = zero_v7m;
         v = (if isar_feature_aa32_lob (isar cpu)
              then v\<lparr>fpdscr := (\<lambda>_. push_bit FPCR_LTPSIZE_SHIFT 4)\<rparr> else v);
         v = (if arm_feature cpu ARM_FEATURE_M_SECURITY then v\<lparr>secure := True\<rparr>
              else v\<lparr>aircr := R_V7M_AIRCR_BFHFNMINS_MASK, nsacr := 0xcff\<rparr>);
         c = R_V7M_CCR_STKALIGN_MASK;
         c = (if arm_feature cpu ARM_FEATURE_V8 then c OR R_V7M_CCR_NONBASETHRDENA_MASK else c);
         c = (if \<not> arm_feature cpu ARM_FEATURE_M_MAIN then c OR R_V7M_CCR_UNALIGN_TRP_MASK else c);
         v = v\<lparr>ccr := (\<lambda>_. c)\<rparr>;
         v = (if isar_feature_aa32_vfp_simd (isar cpu)
              then v\<lparr>fpccr := (\<lambda>sec. if sec then R_V7M_FPCCR_ASPEN_MASK OR R_V7M_FPCCR_LSPEN_MASK OR R_V7M_FPCCR_S_MASK
                else R_V7M_FPCCR_ASPEN_MASK)\<rparr> else v);
         v = v\<lparr>vecbase := (\<lambda>sec. (if sec then svtor else nsvtor) AND 0xffffff80)\<rparr>
     in cpu\<lparr>v7m := v\<rparr>)"

section \<open>The Cortex-M7 of the board\<close>

text \<open>The object is zero-filled before \<open>cortex_m7_initfn\<close> runs.\<close>

definition cortex_m7_idregs :: "id_reg \<Rightarrow> u64" where
  "cortex_m7_idregs r = (case r of
     ID_PFR0 \<Rightarrow> 0x00000030 | ID_PFR1 \<Rightarrow> 0x00000200 | ID_DFR0 \<Rightarrow> 0x00100000 | ID_AFR0 \<Rightarrow> 0x00000000
   | ID_MMFR0 \<Rightarrow> 0x00100030 | ID_MMFR1 \<Rightarrow> 0x00000000 | ID_MMFR2 \<Rightarrow> 0x01000000 | ID_MMFR3 \<Rightarrow> 0x00000000
   | ID_ISAR0 \<Rightarrow> 0x01101110 | ID_ISAR1 \<Rightarrow> 0x02112000 | ID_ISAR2 \<Rightarrow> 0x20232231 | ID_ISAR3 \<Rightarrow> 0x01111131
   | ID_ISAR4 \<Rightarrow> 0x01310132 | ID_ISAR5 \<Rightarrow> 0x00000000 | ID_ISAR6 \<Rightarrow> 0x00000000 | CLIDR \<Rightarrow> 0 | ID_AA64PFR0 \<Rightarrow> 0)"

definition cortex_m7_initfn :: ARMCPU where
  "cortex_m7_initfn = \<lparr>
     features = (\<lambda>f. f \<in> {ARM_FEATURE_V7, ARM_FEATURE_M, ARM_FEATURE_M_MAIN, ARM_FEATURE_THUMB_DSP}),
     regs13 = 0, v7m = zero_v7m,
     pmsav7 = \<lparr>drbar = (\<lambda>_. 0), drsr = (\<lambda>_. 0), dracr = (\<lambda>_. 0), rnr = (\<lambda>_. 0)\<rparr>,
     pmsav8 = \<lparr>p8_rbar = (\<lambda>_ _. 0), p8_rlar = (\<lambda>_ _. 0), mair0 = (\<lambda>_. 0), mair1 = (\<lambda>_. 0)\<rparr>,
     sau = \<lparr>sau_rbar = (\<lambda>_. 0), sau_rlar = (\<lambda>_. 0), sau_rnr = 0, sau_ctrl = 0\<rparr>,
     isar = \<lparr>mvfr0 = 0x10110221, mvfr1 = 0x12000011, mvfr2 = 0x00000040, idregs = cortex_m7_idregs\<rparr>,
     midr = 0x411fc272, revidr = 0, ctr = 0, ccsidr = (\<lambda>_. 0), pmsav7_dregion = 8, sau_sregion = 0,
     tlb_flushes = 0\<rparr>"

end
