(* ===== verification/Nvic_State.thy ===== *)
theory Nvic_State
  imports Irq_Line Cortex_M
begin

text \<open>
  The interrupt controller of \<open>hw/intc/armv7m_nvic.c\<close>: exceptions with their priority, enable,
  pending, active and level state, the choice of the exception to take, and the operations the CPU
  and the interrupt lines call.  \<open>VecInfo\<close> pointers are pairs of the array (\<open>True\<close> for
  \<open>sec_vectors\<close>) and the exception number.  Calls of the CPU's \<open>cpu_abort\<close> and failed assertions
  are values of the result type.
\<close>

section \<open>State\<close>

abbreviation ARMV7M_EXCP_RESET :: nat where "ARMV7M_EXCP_RESET \<equiv> 1"
abbreviation ARMV7M_EXCP_NMI :: nat where "ARMV7M_EXCP_NMI \<equiv> 2"
abbreviation ARMV7M_EXCP_HARD :: nat where "ARMV7M_EXCP_HARD \<equiv> 3"
abbreviation ARMV7M_EXCP_MEM :: nat where "ARMV7M_EXCP_MEM \<equiv> 4"
abbreviation ARMV7M_EXCP_BUS :: nat where "ARMV7M_EXCP_BUS \<equiv> 5"
abbreviation ARMV7M_EXCP_USAGE :: nat where "ARMV7M_EXCP_USAGE \<equiv> 6"
abbreviation ARMV7M_EXCP_SECURE :: nat where "ARMV7M_EXCP_SECURE \<equiv> 7"
abbreviation ARMV7M_EXCP_SVC :: nat where "ARMV7M_EXCP_SVC \<equiv> 11"
abbreviation ARMV7M_EXCP_DEBUG :: nat where "ARMV7M_EXCP_DEBUG \<equiv> 12"
abbreviation ARMV7M_EXCP_PENDSV :: nat where "ARMV7M_EXCP_PENDSV \<equiv> 14"
abbreviation ARMV7M_EXCP_SYSTICK :: nat where "ARMV7M_EXCP_SYSTICK \<equiv> 15"

abbreviation NVIC_MAX_VECTORS :: nat where "NVIC_MAX_VECTORS \<equiv> 512"
abbreviation NVIC_INTERNAL_VECTORS :: nat where "NVIC_INTERNAL_VECTORS \<equiv> 16"
abbreviation NVIC_FIRST_IRQ :: nat where "NVIC_FIRST_IRQ \<equiv> 16"
abbreviation NVIC_MAX_IRQ :: nat where "NVIC_MAX_IRQ \<equiv> 496"
abbreviation NVIC_NOEXC_PRIO :: int where "NVIC_NOEXC_PRIO \<equiv> 0x100"
abbreviation NVIC_NS_PRIO_LIMIT :: int where "NVIC_NS_PRIO_LIMIT \<equiv> 0x80"

record VecInfo =
  prio :: int
  enabled :: bool
  pending :: bool
  active :: bool
  level :: u8

record NVICState =
  cpu :: ARMCPU
  vectors :: "nat \<Rightarrow> VecInfo"
  sec_vectors :: "nat \<Rightarrow> VecInfo"
  prigroup :: "bool \<Rightarrow> u32"
  num_prio_bits :: nat
  itns :: "nat \<Rightarrow> bool"
  vectpending :: nat
  vectpending_is_s_banked :: bool
  exception_prio :: int
  vectpending_prio :: int
  num_irq :: nat
  excpout :: irq_log
  sysresetreq :: "irq_log option"
  system_reset_requests :: nat

type_synonym vec_ptr = "bool \<times> nat"

definition vec_at :: "NVICState \<Rightarrow> vec_ptr \<Rightarrow> VecInfo" where
  "vec_at s p = (if fst p then sec_vectors s (snd p) else vectors s (snd p))"

definition vec_upd :: "vec_ptr \<Rightarrow> (VecInfo \<Rightarrow> VecInfo) \<Rightarrow> NVICState \<Rightarrow> NVICState" where
  "vec_upd p f s =
     (if fst p then s\<lparr>sec_vectors := (sec_vectors s)(snd p := f (sec_vectors s (snd p)))\<rparr>
      else s\<lparr>vectors := (vectors s)(snd p := f (vectors s (snd p)))\<rparr>)"

abbreviation has_feature :: "NVICState \<Rightarrow> arm_features \<Rightarrow> bool" where
  "has_feature s f \<equiv> arm_feature (cpu s) f"

abbreviation aircr_of :: "NVICState \<Rightarrow> u32" where
  "aircr_of s \<equiv> aircr (v7m (cpu s))"

text \<open>An \<open>int\<close> combined with an unsigned mask and stored in an \<open>int\<close> again.\<close>

definition int_and :: "int \<Rightarrow> u32 \<Rightarrow> int" where
  "int_and p m = sint (word_of_int p AND m)"

section \<open>Queries\<close>

text \<open>An unconnected \<open>SYSRESETREQ\<close> line becomes a request to reset the machine.\<close>

definition signal_sysresetreq :: "NVICState \<Rightarrow> NVICState" where
  "signal_sysresetreq s = (case sysresetreq s of
      Some l \<Rightarrow> s\<lparr>sysresetreq := Some (qemu_irq_pulse recorder l)\<rparr>
    | None \<Rightarrow> s\<lparr>system_reset_requests := system_reset_requests s + 1\<rparr>)"

definition nvic_pending_prio :: "NVICState \<Rightarrow> int" where
  "nvic_pending_prio s = vectpending_prio s"

fun rettobase_loop :: "NVICState \<Rightarrow> nat list \<Rightarrow> nat \<Rightarrow> bool" where
  "rettobase_loop s [] nhand = True"
| "rettobase_loop s (i # is) nhand =
     (if active (vectors s i) \<or>
         has_feature s ARM_FEATURE_M_SECURITY \<and> i < NVIC_INTERNAL_VECTORS \<and> active (sec_vectors s i)
      then if nhand + 1 = 2 then False else rettobase_loop s is (nhand + 1)
      else rettobase_loop s is nhand)"

definition nvic_rettobase :: "NVICState \<Rightarrow> bool" where
  "nvic_rettobase s = rettobase_loop s [ARMV7M_EXCP_RESET..<num_irq s] 0"

definition nvic_isrpending :: "NVICState \<Rightarrow> bool" where
  "nvic_isrpending s \<longleftrightarrow> vectpending s > NVIC_FIRST_IRQ \<or>
     list_ex (\<lambda>i. pending (vectors s i)) [NVIC_FIRST_IRQ..<num_irq s]"

definition exc_is_banked :: "nat \<Rightarrow> bool" where
  "exc_is_banked exc \<longleftrightarrow> exc = ARMV7M_EXCP_HARD \<or> exc = ARMV7M_EXCP_MEM \<or> exc = ARMV7M_EXCP_USAGE \<or>
     exc = ARMV7M_EXCP_SVC \<or> exc = ARMV7M_EXCP_PENDSV \<or> exc = ARMV7M_EXCP_SYSTICK"

definition nvic_gprio_mask :: "NVICState \<Rightarrow> bool \<Rightarrow> u32" where
  "nvic_gprio_mask s sec = push_bit (unat (prigroup s sec) + 1) (- 1)"

text \<open>
  The function asserts that the exception is not banked.  Every call is guarded by
  \<open>\<not> exc_is_banked\<close> or names the NMI, so the assertion is left to the callers' guards.
\<close>

definition exc_targets_secure :: "NVICState \<Rightarrow> nat \<Rightarrow> bool" where
  "exc_targets_secure s exc =
     (if \<not> has_feature s ARM_FEATURE_M_SECURITY then False
      else if exc \<ge> NVIC_FIRST_IRQ then \<not> itns s exc
      else if exc = ARMV7M_EXCP_NMI \<or> exc = ARMV7M_EXCP_BUS
      then \<not> has_flag (aircr_of s) R_V7M_AIRCR_BFHFNMINS_MASK
      else if exc = ARMV7M_EXCP_SECURE then True
      else if exc = ARMV7M_EXCP_DEBUG then False
      else True)"

definition exc_group_prio :: "NVICState \<Rightarrow> int \<Rightarrow> bool \<Rightarrow> int" where
  "exc_group_prio s rawprio targets_secure =
     (if rawprio < 0 then rawprio
      else
        let rawprio = int_and rawprio (nvic_gprio_mask s targets_secure)
        in if \<not> targets_secure \<and> has_flag (aircr_of s) R_V7M_AIRCR_PRIS_MASK
           then drop_bit 1 rawprio + NVIC_NS_PRIO_LIMIT
           else rawprio)"

section \<open>Recomputing the cached state\<close>

text \<open>The loop variables of the secure version.\<close>

record recompute_vars =
  pend_prio :: int
  active_prio :: int
  pend_irq :: nat
  pending_is_s_banked :: bool
  pend_subprio :: int

definition recompute_secure_step :: "NVICState \<Rightarrow> nat \<Rightarrow> bool \<Rightarrow> recompute_vars \<Rightarrow> recompute_vars" where
  "recompute_secure_step s i bank r =
     (if bank \<and> \<not> exc_is_banked i then r
      else
        let vec = (if bank then sec_vectors s i else vectors s i);
            targets_secure = (if bank then True else \<not> exc_is_banked i \<and> exc_targets_secure s i);
            p = exc_group_prio s (prio vec) targets_secure;
            subprio = int_and (prio vec) (NOT (nvic_gprio_mask s targets_secure));
            r = (if enabled vec \<and> pending vec \<and>
                    (p < pend_prio r \<or> p = pend_prio r \<and> p \<ge> 0 \<and> subprio < pend_subprio r)
                 then r\<lparr>pend_prio := p, pend_subprio := subprio, pend_irq := i, pending_is_s_banked := bank\<rparr>
                 else r)
        in if active vec \<and> p < active_prio r then r\<lparr>active_prio := p\<rparr> else r)"

definition nvic_recompute_state_secure :: "NVICState \<Rightarrow> NVICState" where
  "nvic_recompute_state_secure s =
    (let r = fold (\<lambda>i r. recompute_secure_step s i False (recompute_secure_step s i True r)) [1..<num_irq s]
         \<lparr>pend_prio = NVIC_NOEXC_PRIO, active_prio = NVIC_NOEXC_PRIO, pend_irq = 0,
          pending_is_s_banked = False, pend_subprio = 0\<rparr>
     in s\<lparr>vectpending_is_s_banked := pending_is_s_banked r, vectpending := pend_irq r,
          vectpending_prio := pend_prio r, exception_prio := active_prio r\<rparr>)"

definition recompute_step :: "NVICState \<Rightarrow> nat \<Rightarrow> int \<times> int \<times> nat \<Rightarrow> int \<times> int \<times> nat" where
  "recompute_step s i = (\<lambda>(pprio, aprio, pirq).
     let vec = vectors s i;
         (pprio, pirq) = (if enabled vec \<and> pending vec \<and> prio vec < pprio then (prio vec, i) else (pprio, pirq));
         aprio = (if active vec \<and> prio vec < aprio then prio vec else aprio)
     in (pprio, aprio, pirq))"

definition nvic_recompute_state :: "NVICState \<Rightarrow> NVICState" where
  "nvic_recompute_state s =
     (if has_feature s ARM_FEATURE_M_SECURITY then nvic_recompute_state_secure s
      else
        let (pprio, aprio, pirq) = fold (recompute_step s) [1..<num_irq s] (NVIC_NOEXC_PRIO, NVIC_NOEXC_PRIO, 0);
            aprio = (if aprio > 0 then int_and aprio (nvic_gprio_mask s False) else aprio);
            pprio = (if pprio > 0 then int_and pprio (nvic_gprio_mask s False) else pprio)
        in s\<lparr>vectpending := pirq, vectpending_prio := pprio, exception_prio := aprio\<rparr>)"

section \<open>Execution priority\<close>

definition nvic_exec_prio :: "NVICState \<Rightarrow> int" where
  "nvic_exec_prio s =
    (let e = v7m (cpu s);
         running = NVIC_NOEXC_PRIO;
         running = (if basepri e False > 0 then exc_group_prio s (uint (basepri e False)) False else running);
         running = (if basepri e True > 0
           then let b = exc_group_prio s (uint (basepri e True)) True in if running > b then b else running
           else running);
         running = (if primask e False \<noteq> 0
           then if has_flag (aircr e) R_V7M_AIRCR_PRIS_MASK
             then if running > NVIC_NS_PRIO_LIMIT then NVIC_NS_PRIO_LIMIT else running
             else 0
           else running);
         running = (if primask e True \<noteq> 0 then 0 else running);
         running = (if faultmask e False \<noteq> 0
           then if has_flag (aircr e) R_V7M_AIRCR_BFHFNMINS_MASK then -1
             else if has_flag (aircr e) R_V7M_AIRCR_PRIS_MASK
               then if running > NVIC_NS_PRIO_LIMIT then NVIC_NS_PRIO_LIMIT else running
               else 0
           else running);
         running = (if faultmask e True \<noteq> 0
           then if has_flag (aircr e) R_V7M_AIRCR_BFHFNMINS_MASK then -3 else -1
           else running)
     in min running (exception_prio s))"

definition armv7m_nvic_neg_prio_requested :: "bool \<Rightarrow> NVICState \<Rightarrow> bool" where
  "armv7m_nvic_neg_prio_requested sec s \<longleftrightarrow>
     faultmask (v7m (cpu s)) sec \<noteq> 0 \<or>
     (if sec then active (sec_vectors s ARMV7M_EXCP_HARD) else active (vectors s ARMV7M_EXCP_HARD)) \<or>
     active (vectors s ARMV7M_EXCP_NMI) \<and> exc_targets_secure s ARMV7M_EXCP_NMI = sec"

definition armv7m_nvic_can_take_pending_exception :: "NVICState \<Rightarrow> bool" where
  "armv7m_nvic_can_take_pending_exception s \<longleftrightarrow> nvic_exec_prio s > nvic_pending_prio s"

definition armv7m_nvic_raw_execution_priority :: "NVICState \<Rightarrow> int" where
  "armv7m_nvic_raw_execution_priority s = exception_prio s"

section \<open>Priorities\<close>

definition set_prio :: "nat \<Rightarrow> bool \<Rightarrow> u8 \<Rightarrow> NVICState \<Rightarrow> NVICState res" where
  "set_prio irq sec p s =
     assert_that (irq > ARMV7M_EXCP_NMI) (assert_that (irq < num_irq s)
       (let p = p AND field_mask (8 - num_prio_bits s) (num_prio_bits s)
        in if sec
           then assert_that (exc_is_banked irq) (Inr (vec_upd (True, irq) (\<lambda>v. v\<lparr>prio := uint p\<rparr>) s))
           else Inr (vec_upd (False, irq) (\<lambda>v. v\<lparr>prio := uint p\<rparr>) s)))"

definition get_prio :: "nat \<Rightarrow> bool \<Rightarrow> NVICState \<Rightarrow> int res" where
  "get_prio irq sec s =
     assert_that (irq > ARMV7M_EXCP_NMI) (assert_that (irq < num_irq s)
       (if sec then assert_that (exc_is_banked irq) (Inr (prio (sec_vectors s irq)))
        else Inr (prio (vectors s irq))))"

section \<open>Pending and taking exceptions\<close>

definition nvic_irq_update :: "NVICState \<Rightarrow> NVICState" where
  "nvic_irq_update s =
    (let s = nvic_recompute_state s;
         lvl = (if nvic_pending_prio s < exception_prio s then 1 else 0)
     in s\<lparr>excpout := qemu_set_irq recorder lvl (excpout s)\<rparr>)"

definition armv7m_nvic_clear_pending :: "nat \<Rightarrow> bool \<Rightarrow> NVICState \<Rightarrow> NVICState res" where
  "armv7m_nvic_clear_pending irq sec s =
     assert_that (irq > ARMV7M_EXCP_RESET \<and> irq < num_irq s) (assert_that (\<not> sec \<or> exc_is_banked irq)
       (let vec = (sec, irq)
        in if pending (vec_at s vec)
           then Inr (nvic_irq_update (vec_upd vec (\<lambda>v. v\<lparr>pending := False\<rparr>) s))
           else Inr s))"

definition set_pending_vec :: "vec_ptr \<Rightarrow> NVICState \<Rightarrow> NVICState" where
  "set_pending_vec vec s =
     (if \<not> pending (vec_at s vec) then nvic_irq_update (vec_upd vec (\<lambda>v. v\<lparr>pending := True\<rparr>) s) else s)"

abbreviation force_hardfault :: "NVICState \<Rightarrow> NVICState" where
  "force_hardfault s \<equiv>
     s\<lparr>cpu := (cpu s)\<lparr>v7m := (v7m (cpu s))\<lparr>hfsr := hfsr (v7m (cpu s)) OR R_V7M_HFSR_FORCED_MASK\<rparr>\<rparr>\<rparr>"

definition hardfault_vec :: "bool \<Rightarrow> NVICState \<Rightarrow> vec_ptr" where
  "hardfault_vec targets_secure s =
     (has_feature s ARM_FEATURE_M_SECURITY \<and>
       (targets_secure \<or> \<not> has_flag (aircr_of s) R_V7M_AIRCR_BFHFNMINS_MASK), ARMV7M_EXCP_HARD)"

definition do_armv7m_nvic_set_pending :: "nat \<Rightarrow> bool \<Rightarrow> bool \<Rightarrow> NVICState \<Rightarrow> NVICState res" where
  "do_armv7m_nvic_set_pending irq sec derived s =
    (let banked = exc_is_banked irq
     in assert_that (irq > ARMV7M_EXCP_RESET \<and> irq < num_irq s) (assert_that (\<not> sec \<or> banked)
       (let vec = (banked \<and> sec, irq);
            v = vec_at s vec;
            targets_secure = (if banked then sec else exc_targets_secure s irq);
            sync = (irq \<ge> ARMV7M_EXCP_HARD \<and> irq < ARMV7M_EXCP_PENDSV)
        in assert_that (\<not> derived \<or> sync)
          (if derived \<and> irq = ARMV7M_EXCP_DEBUG \<and> exc_group_prio s (prio v) sec \<ge> nvic_exec_prio s then Inr s
           else if derived \<and> irq = ARMV7M_EXCP_HARD \<and> prio v \<ge> vectpending_prio s then Inl CpuAbort
           else if sync then
             let running = nvic_exec_prio s;
                 escalate = (exc_group_prio s (prio v) sec \<ge> running \<or> \<not> enabled v)
             in if escalate then
                  let vec = hardfault_vec targets_secure s
                  in if running \<le> prio (vec_at s vec) then Inl CpuAbort
                     else Inr (set_pending_vec vec (force_hardfault s))
                else Inr (set_pending_vec vec s)
           else Inr (set_pending_vec vec s)))))"

definition armv7m_nvic_set_pending :: "nat \<Rightarrow> bool \<Rightarrow> NVICState \<Rightarrow> NVICState res" where
  "armv7m_nvic_set_pending irq sec s = do_armv7m_nvic_set_pending irq sec False s"

definition armv7m_nvic_set_pending_derived :: "nat \<Rightarrow> bool \<Rightarrow> NVICState \<Rightarrow> NVICState res" where
  "armv7m_nvic_set_pending_derived irq sec s = do_armv7m_nvic_set_pending irq sec True s"

definition lazyfp_finish :: "bool \<Rightarrow> vec_ptr \<Rightarrow> bool \<Rightarrow> NVICState \<Rightarrow> NVICState res" where
  "lazyfp_finish escalate vec sec s =
    (let v = vec_at s vec
     in if (\<not> enabled v \<or> nvic_exec_prio s \<le> exc_group_prio s (prio v) sec) \<and>
           \<not> has_flag (fpccr (v7m (cpu s)) True) R_V7M_FPCCR_HFRDY_MASK
        then Inl CpuAbort
        else
          let s = (if escalate then force_hardfault s else s)
          in Inr (if \<not> pending (vec_at s vec)
               then nvic_recompute_state (vec_upd vec (\<lambda>v. v\<lparr>pending := True\<rparr>) s) else s))"

definition armv7m_nvic_set_pending_lazyfp :: "nat \<Rightarrow> bool \<Rightarrow> NVICState \<Rightarrow> NVICState res" where
  "armv7m_nvic_set_pending_lazyfp irq sec s =
    (let banked = exc_is_banked irq;
         fpccr_s = fpccr (v7m (cpu s)) True;
         fpccr_b = fpccr (v7m (cpu s)) sec
     in assert_that (irq > ARMV7M_EXCP_RESET \<and> irq < num_irq s) (assert_that (\<not> sec \<or> banked)
       (let vec = (banked \<and> sec, irq);
            targets_secure = (if banked then sec else exc_targets_secure s irq)
        in if irq = ARMV7M_EXCP_DEBUG \<and> \<not> has_flag fpccr_s R_V7M_FPCCR_MONRDY_MASK then Inr s
           else if irq \<notin> {ARMV7M_EXCP_DEBUG, ARMV7M_EXCP_MEM, ARMV7M_EXCP_USAGE, ARMV7M_EXCP_BUS, ARMV7M_EXCP_SECURE}
           then Inl NotReached
           else
             (let escalate =
                (if irq = ARMV7M_EXCP_MEM then \<not> has_flag fpccr_b R_V7M_FPCCR_MMRDY_MASK
                 else if irq = ARMV7M_EXCP_USAGE then \<not> has_flag fpccr_b R_V7M_FPCCR_UFRDY_MASK
                 else if irq = ARMV7M_EXCP_BUS then \<not> has_flag fpccr_s R_V7M_FPCCR_BFRDY_MASK
                 else if irq = ARMV7M_EXCP_SECURE then \<not> has_flag fpccr_s R_V7M_FPCCR_SFRDY_MASK
                 else False)
              in lazyfp_finish escalate (if escalate then hardfault_vec targets_secure s else vec) sec s))))"

definition armv7m_nvic_acknowledge_irq :: "NVICState \<Rightarrow> NVICState res" where
  "armv7m_nvic_acknowledge_irq s =
    (let pend = vectpending s;
         running = nvic_exec_prio s;
         vec = (vectpending_is_s_banked s, pend)
     in assert_that (pend > ARMV7M_EXCP_RESET \<and> pend < num_irq s)
       (assert_that (enabled (vec_at s vec)) (assert_that (pending (vec_at s vec))
         (assert_that (vectpending_prio s < running)
           (let s = vec_upd vec (\<lambda>v. v\<lparr>active := True, pending := False\<rparr>) s;
                s = s\<lparr>cpu := write_v7m_exception (word_of_nat (vectpending s)) (cpu s)\<rparr>
            in Inr (nvic_irq_update s))))))"

definition vectpending_targets_secure :: "NVICState \<Rightarrow> bool" where
  "vectpending_targets_secure s \<longleftrightarrow> vectpending_is_s_banked s \<or>
     \<not> exc_is_banked (vectpending s) \<and> exc_targets_secure s (vectpending s)"

definition armv7m_nvic_get_pending_irq_info :: "NVICState \<Rightarrow> (nat \<times> bool) res" where
  "armv7m_nvic_get_pending_irq_info s =
     assert_that (vectpending s > ARMV7M_EXCP_RESET \<and> vectpending s < num_irq s)
       (Inr (vectpending s, vectpending_targets_secure s))"

definition complete_target :: "nat \<Rightarrow> bool \<Rightarrow> NVICState \<Rightarrow> vec_ptr option \<Rightarrow> vec_ptr option" where
  "complete_target irq sec s vec =
     (if has_feature s ARM_FEATURE_V8 then
        let p = armv7m_nvic_raw_execution_priority s
        in if p = -1
           then Some (\<not> has_flag (aircr_of s) R_V7M_AIRCR_BFHFNMINS_MASK, ARMV7M_EXCP_HARD)
           else if p = -2 then Some (False, ARMV7M_EXCP_NMI)
           else if p = -3 then Some (True, ARMV7M_EXCP_HARD)
           else vec
      else vec)"

definition armv7m_nvic_complete_irq :: "nat \<Rightarrow> bool \<Rightarrow> NVICState \<Rightarrow> (int \<times> NVICState) res" where
  "armv7m_nvic_complete_irq irq sec s =
     assert_that (irq > ARMV7M_EXCP_RESET \<and> irq < num_irq s)
       (let vec = (sec \<and> exc_is_banked irq, irq);
            (ret, target) =
              (if \<not> exc_is_banked irq \<and> exc_targets_secure s irq \<noteq> sec then (-1, None)
               else if \<not> active (vec_at s vec) then (-1, Some vec)
               else (if nvic_rettobase s then 1 else 0, Some vec))
        in case complete_target irq sec s target of
             None \<Rightarrow> Inr (ret, s)
           | Some vec \<Rightarrow>
               let s = vec_upd vec (\<lambda>v. v\<lparr>active := False\<rparr>) s
               in if level (vec_at s vec) \<noteq> 0
                  then assert_that (irq \<ge> NVIC_FIRST_IRQ)
                    (Inr (ret, nvic_irq_update (vec_upd vec (\<lambda>v. v\<lparr>pending := True\<rparr>) s)))
                  else Inr (ret, nvic_irq_update s))"

definition armv7m_nvic_get_ready_status :: "nat \<Rightarrow> bool \<Rightarrow> NVICState \<Rightarrow> bool res" where
  "armv7m_nvic_get_ready_status irq sec s =
    (let banked = exc_is_banked irq; running = nvic_exec_prio s
     in assert_that (irq > ARMV7M_EXCP_RESET \<and> irq < num_irq s) (assert_that (\<not> sec \<or> banked)
       (if irq = ARMV7M_EXCP_HARD then Inr (running > -1)
        else let v = vec_at s (banked \<and> sec, irq)
          in Inr (enabled v \<and> exc_group_prio s (prio v) sec < running))))"

section \<open>Input lines\<close>

definition set_irq_level :: "nat \<Rightarrow> int \<Rightarrow> NVICState \<Rightarrow> NVICState res" where
  "set_irq_level n lev s =
    (let n = n + NVIC_FIRST_IRQ
     in assert_that (n \<ge> NVIC_FIRST_IRQ \<and> n < num_irq s)
       (if lev \<noteq> uint (level (vectors s n)) then
          let s = vec_upd (False, n) (\<lambda>v. v\<lparr>level := word_of_int lev\<rparr>) s
          in if lev \<noteq> 0 then armv7m_nvic_set_pending n False s else Inr s
        else Inr s))"

definition nvic_nmi_trigger :: "int \<Rightarrow> NVICState \<Rightarrow> NVICState res" where
  "nvic_nmi_trigger lev s =
     (if lev \<noteq> 0 then armv7m_nvic_set_pending ARMV7M_EXCP_NMI False s else Inr s)"

definition nvic_systick_trigger :: "bool \<Rightarrow> int \<Rightarrow> NVICState \<Rightarrow> NVICState res" where
  "nvic_systick_trigger n lev s =
     (if lev \<noteq> 0 then armv7m_nvic_set_pending ARMV7M_EXCP_SYSTICK n s else Inr s)"

section \<open>Set-up, reset and migration\<close>

text \<open>A configuration error is reported to the creator of the device.\<close>

datatype nvic_config_error = NotCortexM | TooManyIrqs | BadPrioBits

definition armv7m_nvic_realize :: "NVICState \<Rightarrow> nvic_config_error + NVICState" where
  "armv7m_nvic_realize s =
     (if \<not> has_feature s ARM_FEATURE_M then Inl NotCortexM
      else if num_irq s > NVIC_MAX_IRQ then Inl TooManyIrqs
      else
        let s = s\<lparr>num_irq := num_irq s + NVIC_FIRST_IRQ\<rparr>
        in if num_prio_bits s = 0
           then Inr (s\<lparr>num_prio_bits := (if has_feature s ARM_FEATURE_V7 then 8 else 2)\<rparr>)
           else
             let min_prio_bits = (if has_feature s ARM_FEATURE_V7 then 3 else 2)
             in if num_prio_bits s < min_prio_bits \<or> num_prio_bits s > 8 then Inl BadPrioBits else Inr s)"

definition zero_vec :: VecInfo where
  "zero_vec = \<lparr>prio = 0, enabled = False, pending = False, active = False, level = 0\<rparr>"

text \<open>Writes to single fields of exceptions, in order.\<close>

definition apply_updates :: "(vec_ptr \<times> (VecInfo \<Rightarrow> VecInfo)) list \<Rightarrow> NVICState \<Rightarrow> NVICState" where
  "apply_updates us s = fold (\<lambda>(p, f). vec_upd p f) us s"

abbreviation set_act :: "bool \<Rightarrow> VecInfo \<Rightarrow> VecInfo" where "set_act b v \<equiv> v\<lparr>active := b\<rparr>"
abbreviation set_pen :: "bool \<Rightarrow> VecInfo \<Rightarrow> VecInfo" where "set_pen b v \<equiv> v\<lparr>pending := b\<rparr>"
abbreviation set_ena :: "bool \<Rightarrow> VecInfo \<Rightarrow> VecInfo" where "set_ena b v \<equiv> v\<lparr>enabled := b\<rparr>"
abbreviation set_pri :: "int \<Rightarrow> VecInfo \<Rightarrow> VecInfo" where "set_pri p v \<equiv> v\<lparr>prio := p\<rparr>"

definition reset_updates :: "bool \<Rightarrow> bool \<Rightarrow> (vec_ptr \<times> (VecInfo \<Rightarrow> VecInfo)) list" where
  "reset_updates sec v8 =
     [((False, ARMV7M_EXCP_NMI), set_ena True), ((False, ARMV7M_EXCP_SVC), set_ena True),
      ((False, ARMV7M_EXCP_PENDSV), set_ena True), ((False, ARMV7M_EXCP_SYSTICK), set_ena True),
      ((False, ARMV7M_EXCP_DEBUG), set_ena False),
      ((False, ARMV7M_EXCP_RESET), set_pri (if v8 then -4 else -3)),
      ((False, ARMV7M_EXCP_NMI), set_pri (-2)), ((False, ARMV7M_EXCP_HARD), set_pri (-1))] @
     (if sec then
       [((True, ARMV7M_EXCP_HARD), set_ena True), ((True, ARMV7M_EXCP_SVC), set_ena True),
        ((True, ARMV7M_EXCP_PENDSV), set_ena True), ((True, ARMV7M_EXCP_SYSTICK), set_ena True),
        ((True, ARMV7M_EXCP_HARD), set_pri (-1)), ((False, ARMV7M_EXCP_HARD), set_ena False)]
      else [((False, ARMV7M_EXCP_HARD), set_ena True)])"

definition armv7m_nvic_reset :: "NVICState \<Rightarrow> NVICState" where
  "armv7m_nvic_reset s =
    (let s = s\<lparr>vectors := (\<lambda>_. zero_vec), sec_vectors := (\<lambda>_. zero_vec), prigroup := (\<lambda>_. 0)\<rparr>;
         s = apply_updates (reset_updates (has_feature s ARM_FEATURE_M_SECURITY) (has_feature s ARM_FEATURE_V8)) s;
         s = s\<lparr>exception_prio := NVIC_NOEXC_PRIO, vectpending := 0, vectpending_is_s_banked := False,
               vectpending_prio := NVIC_NOEXC_PRIO\<rparr>
     in if has_feature s ARM_FEATURE_M_SECURITY then s\<lparr>itns := (\<lambda>_. False)\<rparr>
        else s\<lparr>itns := (\<lambda>i. if NVIC_FIRST_IRQ \<le> i \<and> i < NVIC_MAX_VECTORS then True else itns s i)\<rparr>)"

definition nvic_post_load :: "NVICState \<Rightarrow> int \<times> NVICState" where
  "nvic_post_load s =
    (let resetprio = (if has_feature s ARM_FEATURE_V8 then -4 else -3)
     in if prio (vectors s ARMV7M_EXCP_RESET) \<noteq> resetprio \<or> prio (vectors s ARMV7M_EXCP_NMI) \<noteq> -2 \<or>
           prio (vectors s ARMV7M_EXCP_HARD) \<noteq> -1 then (1, s)
        else if list_ex (\<lambda>i. prio (vectors s i) AND NOT 0xff \<noteq> 0) [ARMV7M_EXCP_MEM..<num_irq s] then (1, s)
        else (0, nvic_recompute_state s))"

definition nvic_security_needed :: "NVICState \<Rightarrow> bool" where
  "nvic_security_needed s \<longleftrightarrow> has_feature s ARM_FEATURE_M_SECURITY"

definition nvic_security_post_load :: "NVICState \<Rightarrow> int" where
  "nvic_security_post_load s =
     (if prio (sec_vectors s ARMV7M_EXCP_HARD) \<noteq> -1 \<and> prio (sec_vectors s ARMV7M_EXCP_HARD) \<noteq> -3 then 1
      else if list_ex (\<lambda>i. prio (sec_vectors s i) AND NOT 0xff \<noteq> 0) [ARMV7M_EXCP_MEM..<NVIC_INTERNAL_VECTORS] then 1
      else 0)"

end
