(* ===== verification/Nvic_Select.thy ===== *)
theory Nvic_Select
  imports Nvic_State
begin

text \<open>
  Which exception the controller takes: the state recomputed by \<open>nvic_recompute_state\<close> is the
  most urgent enabled and pending exception, and the cached fields are a function of the vectors.
\<close>

section \<open>Group priorities\<close>

lemma int_and_mask:
  assumes "0 \<le> p" "p < 2 ^ 31"
  shows "int_and p (push_bit k (- 1)) = p - p mod 2 ^ k"
proof -
  let ?w = "word_of_int p AND push_bit k (- 1) :: u32"
  have bits: "bit ?w n \<longleftrightarrow> n < 31 \<and> k \<le> n \<and> bit p n" for n
  proof -
    have "\<not> bit p n" if "31 \<le> n"
      using assms that by (metis bit_take_bit_iff not_less take_bit_int_eq_self)
    then show ?thesis by (auto simp: bit_and_iff bit_not_iff bit_mask_iff bit_word_of_int_iff not_less)
        (metis not_less)+
  qed
  have "bit p n \<Longrightarrow> n < 31" for n
    using assms by (metis bit_take_bit_iff take_bit_int_eq_self)
  then have p_bit: "bit (push_bit k (drop_bit k p)) n \<longleftrightarrow> n < 31 \<and> k \<le> n \<and> bit p n" for n
    by (auto simp only: bit_push_bit_iff bit_drop_bit_eq comp_apply possible_bit_int le_add_diff_inverse)
  have "bit (sint ?w) n \<longleftrightarrow> bit ?w (min 31 n)" for n
    by (simp only: bit_signed_iff possible_bit_int) simp
  then have "int_and p (push_bit k (- 1)) = push_bit k (drop_bit k p)"
    unfolding int_and_def
    by (intro bit_eqI) (auto simp only: bits p_bit min_def split: if_splits)
  moreover have "push_bit k (drop_bit k p) = p - p mod 2 ^ k"
    by (simp add: push_bit_eq_mult drop_bit_eq_div minus_mod_eq_div_mult)
  ultimately show ?thesis by simp
qed

section \<open>Scanning for the most urgent entry\<close>

text \<open>
  Both versions of the recomputation scan a list of entries and keep the first one that no other
  beats.  The interface asks for a strict weak order; ties are resolved by position.
\<close>

locale urgency_scan =
  fixes beats :: "'e \<Rightarrow> 'e \<Rightarrow> bool" and ok :: "'e \<Rightarrow> bool"
  assumes irrefl: "\<not> beats a a"
    and trans: "\<lbrakk>beats a b; beats b c\<rbrakk> \<Longrightarrow> beats a c"
    and neg_trans: "\<lbrakk>\<not> beats a b; \<not> beats b c\<rbrakk> \<Longrightarrow> \<not> beats a c"
begin

definition scan_step :: "'e \<Rightarrow> 'e option \<Rightarrow> 'e option" where
  "scan_step e b = (if ok e \<and> (case b of None \<Rightarrow> True | Some y \<Rightarrow> beats e y) then Some e else b)"

definition scan :: "'e list \<Rightarrow> 'e option" where
  "scan xs = fold scan_step xs None"

lemma scan_Nil [simp]: "scan [] = None"
  by (simp add: scan_def)

lemma scan_snoc: "scan (xs @ [x]) = scan_step x (scan xs)"
  by (simp add: scan_def)

lemma scan_spec:
  "case scan xs of
     None \<Rightarrow> (\<forall>e\<in>set xs. \<not> ok e)
   | Some y \<Rightarrow> ok y \<and> (\<forall>e\<in>set xs. ok e \<longrightarrow> \<not> beats e y) \<and>
       (\<exists>us vs. xs = us @ y # vs \<and> (\<forall>e\<in>set us. ok e \<longrightarrow> beats y e))"
proof (induction xs rule: rev_induct)
  case (snoc x xs)
  show ?case
  proof (cases "scan xs")
    case None
    with snoc.IH show ?thesis by (auto simp: scan_snoc scan_step_def irrefl)
  next
    case (Some y)
    with snoc.IH obtain us vs where y: "ok y" "\<forall>e\<in>set xs. ok e \<longrightarrow> \<not> beats e y"
      and us: "xs = us @ y # vs" "\<forall>e\<in>set us. ok e \<longrightarrow> beats y e" by auto
    show ?thesis
    proof (cases "ok x \<and> beats x y")
      case True
      then have "\<not> beats e x" if "e \<in> set xs" "ok e" for e
        using y that trans by blast
      moreover have "beats x e" if "e \<in> set xs" "ok e" for e
        using True y(2) that neg_trans by blast
      ultimately show ?thesis
        using True Some by (auto simp: scan_snoc scan_step_def irrefl)
    next
      case False
      then have "scan (xs @ [x]) = Some y" using Some by (auto simp: scan_snoc scan_step_def)
      moreover have "\<exists>us vs. xs @ [x] = us @ y # vs \<and> (\<forall>e\<in>set us. ok e \<longrightarrow> beats y e)"
        using us by (intro exI [of _ us] exI [of _ "vs @ [x]"]) simp
      moreover have "\<forall>e\<in>set (xs @ [x]). ok e \<longrightarrow> \<not> beats e y" using y False by auto
      ultimately show ?thesis using y(1) by (simp only: option.case simp_thms)
    qed
  qed
qed simp

lemma scan_None_iff: "scan xs = None \<longleftrightarrow> (\<forall>e\<in>set xs. \<not> ok e)"
  using scan_spec [of xs] by (auto split: option.splits)

lemma scan_SomeD:
  assumes "scan xs = Some y"
  shows "y \<in> set xs" and "ok y" and "\<And>e. \<lbrakk>e \<in> set xs; ok e\<rbrakk> \<Longrightarrow> \<not> beats e y"
    and "\<exists>us vs. xs = us @ y # vs \<and> (\<forall>e\<in>set us. ok e \<longrightarrow> beats y e)"
  using scan_spec [of xs] assms by auto

text \<open>In a sorted list without repetitions, the entries that tie with the result come later.\<close>

lemma scan_first:
  assumes "scan xs = Some y" and "e \<in> set xs" and "ok e" and "\<not> beats y e" and "sorted_wrt R xs" and "R e e"
  shows "R y e"
proof -
  obtain us vs where xs: "xs = us @ y # vs" and us: "\<forall>e\<in>set us. ok e \<longrightarrow> beats y e"
    using scan_SomeD(4) [OF assms(1)] by blast
  then have "e \<in> set (y # vs)" using assms(2-4) by auto
  with xs assms(5,6) show ?thesis by (auto simp: sorted_wrt_append)
qed

end

lemma fold_min:
  fixes f :: "'a \<Rightarrow> int"
  shows "fold (\<lambda>x a. if P x \<and> f x < a then f x else a) xs a = Min (insert a (f ` {x \<in> set xs. P x}))"
proof (induction xs arbitrary: a)
  case (Cons x xs)
  have split: "{y \<in> set (x # xs). P y} = (if P x then insert x {y \<in> set xs. P y} else {y \<in> set xs. P y})" by auto
  show ?case
  proof (cases "P x")
    case True
    then have "(if P x \<and> f x < a then f x else a) = min (f x) a" by (simp add: min_def)
    moreover have "Min (insert (min (f x) a) S) = Min (insert a (insert (f x) S))" if "finite S" for S
      using that by (cases "S = {}") (simp_all add: min.commute min.left_commute)
    ultimately show ?thesis using Cons.IH [of "min (f x) a"] True unfolding split by simp
  next
    case False
    then show ?thesis using Cons.IH [of a] unfolding split by simp
  qed
qed simp

section \<open>The single-bank version\<close>

interpretation ns_scan: urgency_scan
  "\<lambda>i j. prio (vectors s i) < prio (vectors s j)" "\<lambda>i. enabled (vectors s i) \<and> pending (vectors s i)" for s :: NVICState
  by unfold_locales auto

lemma recompute_fold:
  assumes "\<forall>i\<in>set xs. prio (vectors s i) < NVIC_NOEXC_PRIO"
  shows "fold (recompute_step s) xs (NVIC_NOEXC_PRIO, a, 0) =
    (case ns_scan.scan s xs of None \<Rightarrow> NVIC_NOEXC_PRIO | Some i \<Rightarrow> prio (vectors s i),
     fold (\<lambda>i a. if active (vectors s i) \<and> prio (vectors s i) < a then prio (vectors s i) else a) xs a,
     case ns_scan.scan s xs of None \<Rightarrow> 0 | Some i \<Rightarrow> i)"
  using assms
proof (induction xs rule: rev_induct)
  case (snoc x xs)
  then show ?case
    by (cases "ns_scan.scan s xs") (auto simp: ns_scan.scan_snoc ns_scan.scan_step_def recompute_step_def Let_def)
qed simp

section \<open>The banked version\<close>

definition target_of :: "NVICState \<Rightarrow> vec_ptr \<Rightarrow> bool" where
  "target_of s e = (if fst e then True else \<not> exc_is_banked (snd e) \<and> exc_targets_secure s (snd e))"

definition gprio_of :: "NVICState \<Rightarrow> vec_ptr \<Rightarrow> int" where
  "gprio_of s e = exc_group_prio s (prio (vec_at s e)) (target_of s e)"

definition subprio_of :: "NVICState \<Rightarrow> vec_ptr \<Rightarrow> int" where
  "subprio_of s e = int_and (prio (vec_at s e)) (NOT (nvic_gprio_mask s (target_of s e)))"

definition sec_beats :: "NVICState \<Rightarrow> vec_ptr \<Rightarrow> vec_ptr \<Rightarrow> bool" where
  "sec_beats s e e' \<longleftrightarrow> gprio_of s e < gprio_of s e' \<or>
     gprio_of s e = gprio_of s e' \<and> gprio_of s e \<ge> 0 \<and> subprio_of s e < subprio_of s e'"

definition sec_exists :: "vec_ptr \<Rightarrow> bool" where
  "sec_exists e \<longleftrightarrow> fst e \<longrightarrow> exc_is_banked (snd e)"

definition sec_ready :: "NVICState \<Rightarrow> vec_ptr \<Rightarrow> bool" where
  "sec_ready s e \<longleftrightarrow> sec_exists e \<and> enabled (vec_at s e) \<and> pending (vec_at s e)"

interpretation sec_scan: urgency_scan "sec_beats s" "sec_ready s" for s :: NVICState
  by unfold_locales (auto simp: sec_beats_def)

definition entries :: "nat list \<Rightarrow> vec_ptr list" where
  "entries is = concat (map (\<lambda>i. [(True, i), (False, i)]) is)"

lemma recompute_secure_entries:
  "fold (\<lambda>i r. recompute_secure_step s i False (recompute_secure_step s i True r)) is r =
   fold (\<lambda>e. recompute_secure_step s (snd e) (fst e)) (entries is) r"
  by (induction "is" arbitrary: r) (simp_all add: entries_def)

lemma recompute_secure_step_alt:
  "recompute_secure_step s (snd e) (fst e) r =
    (let r = (if sec_ready s e \<and> (gprio_of s e < pend_prio r \<or>
                gprio_of s e = pend_prio r \<and> gprio_of s e \<ge> 0 \<and> subprio_of s e < pend_subprio r)
              then r\<lparr>pend_prio := gprio_of s e, pend_subprio := subprio_of s e, pend_irq := snd e,
                     pending_is_s_banked := fst e\<rparr> else r)
     in if sec_exists e \<and> active (vec_at s e) \<and> gprio_of s e < active_prio r
        then r\<lparr>active_prio := gprio_of s e\<rparr> else r)"
  by (cases "fst e"; cases "exc_is_banked (snd e)")
    (simp_all add: recompute_secure_step_def sec_ready_def sec_exists_def gprio_of_def subprio_of_def
      target_of_def vec_at_def Let_def split del: if_split cong: if_cong)

lemma recompute_secure_fold:
  assumes "\<forall>e\<in>set xs. sec_ready s e \<longrightarrow> gprio_of s e < NVIC_NOEXC_PRIO"
  shows "fold (\<lambda>e. recompute_secure_step s (snd e) (fst e)) xs
      \<lparr>pend_prio = NVIC_NOEXC_PRIO, active_prio = a, pend_irq = 0, pending_is_s_banked = False, pend_subprio = 0\<rparr> =
    (let act = fold (\<lambda>e a. if (sec_exists e \<and> active (vec_at s e)) \<and> gprio_of s e < a then gprio_of s e else a) xs a
     in case sec_scan.scan s xs of
          None \<Rightarrow> \<lparr>pend_prio = NVIC_NOEXC_PRIO, active_prio = act, pend_irq = 0, pending_is_s_banked = False,
                   pend_subprio = 0\<rparr>
        | Some e \<Rightarrow> \<lparr>pend_prio = gprio_of s e, active_prio = act, pend_irq = snd e, pending_is_s_banked = fst e,
                   pend_subprio = subprio_of s e\<rparr>)"
  using assms
proof (induction xs rule: rev_induct)
  case (snoc x xs)
  have lt: "sec_ready s x \<longrightarrow> gprio_of s x < NVIC_NOEXC_PRIO" using snoc.prems by simp
  show ?case
  proof (cases "sec_scan.scan s xs")
    case None
    with snoc lt show ?thesis
      by (simp add: sec_scan.scan_snoc sec_scan.scan_step_def recompute_secure_step_alt Let_def)
  next
    case (Some y)
    with snoc show ?thesis
      by (auto simp: sec_scan.scan_snoc sec_scan.scan_step_def recompute_secure_step_alt Let_def
          sec_beats_def [of s x y])
  qed
qed simp

section \<open>Well-formed controllers\<close>

text \<open>
  Reset, NMI and HardFault have fixed negative priorities, all others have priorities of eight bits;
  only external interrupts have a line level; the reset exception is never enabled.
\<close>

definition prio_ok :: "vec_ptr \<Rightarrow> int \<Rightarrow> bool" where
  "prio_ok p x \<longleftrightarrow>
     (if snd p \<ge> ARMV7M_EXCP_MEM then x \<in> {0..255}
      else if p = (False, ARMV7M_EXCP_RESET) then x \<in> {-4, -3}
      else if p = (False, ARMV7M_EXCP_NMI) then x = -2
      else if p = (False, ARMV7M_EXCP_HARD) then x = -1
      else if p = (True, ARMV7M_EXCP_HARD) then x \<in> {-3, -1, 0}
      else True)"

definition vec_ok :: "vec_ptr \<Rightarrow> VecInfo \<Rightarrow> bool" where
  "vec_ok p v \<longleftrightarrow> prio_ok p (prio v) \<and> (snd p < NVIC_FIRST_IRQ \<longrightarrow> level v = 0) \<and>
     (p = (False, ARMV7M_EXCP_RESET) \<longrightarrow> \<not> enabled v)"

definition nvic_wf :: "NVICState \<Rightarrow> bool" where
  "nvic_wf s \<longleftrightarrow> NVIC_FIRST_IRQ \<le> num_irq s \<and> num_irq s \<le> NVIC_MAX_VECTORS \<and>
     num_prio_bits s \<le> 8 \<and> (\<forall>b. unat (prigroup s b) \<le> 7) \<and>
     (vectpending_is_s_banked s \<longrightarrow> has_feature s ARM_FEATURE_M_SECURITY) \<and>
     (\<forall>p. vec_ok p (vec_at s p))"

lemma vec_at_simps [simp]: "vec_at s (False, i) = vectors s i" "vec_at s (True, i) = sec_vectors s i"
  by (simp_all add: vec_at_def)

lemma nvic_wf_vec: "nvic_wf s \<Longrightarrow> vec_ok p (vec_at s p)"
  unfolding nvic_wf_def by blast

lemma nvic_wf_prio:
  assumes "nvic_wf s" and "1 \<le> i"
  shows "prio (vectors s i) < NVIC_NOEXC_PRIO" and "-4 \<le> prio (vectors s i)"
    and "exc_is_banked i \<Longrightarrow> prio (sec_vectors s i) < NVIC_NOEXC_PRIO"
proof -
  have i: "i = 1 \<or> i = 2 \<or> i = 3 \<or> 4 \<le> i" using assms(2) by auto
  have "prio_ok (False, i) (prio (vectors s i))" "prio_ok (True, i) (prio (sec_vectors s i))"
    using nvic_wf_vec [OF assms(1), of "(False, i)"] nvic_wf_vec [OF assms(1), of "(True, i)"]
    by (simp_all add: vec_ok_def)
  with i show "prio (vectors s i) < NVIC_NOEXC_PRIO" "-4 \<le> prio (vectors s i)"
    "exc_is_banked i \<Longrightarrow> prio (sec_vectors s i) < NVIC_NOEXC_PRIO"
    by (auto simp: prio_ok_def exc_is_banked_def)
qed

text \<open>The group priority: the low bits of a positive priority are cleared.\<close>

definition group_prio :: "NVICState \<Rightarrow> int \<Rightarrow> int" where
  "group_prio s p = (if p > 0 then p - p mod 2 ^ (unat (prigroup s False) + 1) else p)"

lemma int_and_gprio:
  "0 \<le> p \<Longrightarrow> p \<le> NVIC_NOEXC_PRIO \<Longrightarrow>
   int_and p (nvic_gprio_mask s sec) = p - p mod 2 ^ (unat (prigroup s sec) + 1)"
  unfolding nvic_gprio_mask_def by (rule int_and_mask) auto

lemma group_prio_NOEXC: "nvic_wf s \<Longrightarrow> group_prio s NVIC_NOEXC_PRIO = NVIC_NOEXC_PRIO"
proof -
  assume "nvic_wf s"
  then have "unat (prigroup s False) \<le> 7" by (simp add: nvic_wf_def)
  then have "unat (prigroup s False) + 1 \<le> 8" by linarith
  then have "(2 :: int) ^ (unat (prigroup s False) + 1) dvd 2 ^ 8" by (rule le_imp_power_dvd)
  then show ?thesis by (simp add: group_prio_def mod_eq_0_iff_dvd)
qed

lemma group_prio_mono:
  assumes "p \<le> q"
  shows "group_prio s p \<le> group_prio s q"
proof -
  define k :: int where "k = 2 ^ (unat (prigroup s False) + 1)"
  have k: "0 < k" by (simp add: k_def)
  have g: "group_prio s x = (if x > 0 then x div k * k else x)" for x
    by (simp add: group_prio_def k_def minus_mod_eq_div_mult)
  have "p div k * k \<le> q div k * k" using assms k by (simp add: zdiv_mono1)
  moreover have "0 \<le> q div k * k" if "0 < q"
    using that k by (intro mult_nonneg_nonneg) (simp_all add: pos_imp_zdiv_nonneg_iff)
  ultimately show ?thesis using assms by (auto simp: g)
qed

lemma group_prio_le: "group_prio s p \<le> p"
  by (simp add: group_prio_def)

lemma group_prio_less_NOEXC: "p < NVIC_NOEXC_PRIO \<Longrightarrow> group_prio s p < NVIC_NOEXC_PRIO"
  using group_prio_le [of s p] by simp

section \<open>The selected exception\<close>

lemma nvic_recompute_ns:
  assumes "\<not> has_feature s ARM_FEATURE_M_SECURITY" and "nvic_wf s"
  shows "nvic_recompute_state s = s\<lparr>
    vectpending := (case ns_scan.scan s [1..<num_irq s] of None \<Rightarrow> 0 | Some i \<Rightarrow> i),
    vectpending_prio := (case ns_scan.scan s [1..<num_irq s] of None \<Rightarrow> NVIC_NOEXC_PRIO
       | Some i \<Rightarrow> group_prio s (prio (vectors s i))),
    exception_prio := group_prio s (Min (insert NVIC_NOEXC_PRIO
       ((\<lambda>i. prio (vectors s i)) ` {i \<in> {1..<num_irq s}. active (vectors s i)})))\<rparr>"
proof -
  let ?scan = "ns_scan.scan s [1..<num_irq s]"
  let ?p = "case ?scan of None \<Rightarrow> NVIC_NOEXC_PRIO | Some i \<Rightarrow> prio (vectors s i)"
  let ?a = "Min (insert NVIC_NOEXC_PRIO ((\<lambda>i. prio (vectors s i)) ` {i \<in> {1..<num_irq s}. active (vectors s i)}))"
  have lt: "\<forall>i\<in>set [1..<num_irq s]. prio (vectors s i) < NVIC_NOEXC_PRIO"
    using nvic_wf_prio(1) [OF assms(2)] by simp
  have fold: "fold (recompute_step s) [1..<num_irq s] (NVIC_NOEXC_PRIO, NVIC_NOEXC_PRIO, 0) =
      (?p, ?a, case ?scan of None \<Rightarrow> 0 | Some i \<Rightarrow> i)"
    using recompute_fold [OF lt, of NVIC_NOEXC_PRIO]
    by (simp add: fold_min [where P = "\<lambda>i. active (vectors s i)" and f = "\<lambda>i. prio (vectors s i)"])
  have grp: "(if q > 0 then int_and q (nvic_gprio_mask s False) else q) = group_prio s q"
    if "q \<le> NVIC_NOEXC_PRIO" for q
    using that int_and_gprio [of q s False] by (simp add: group_prio_def)
  have "?a \<le> NVIC_NOEXC_PRIO" by (simp add: Min_le_iff)
  moreover have p: "?p \<le> NVIC_NOEXC_PRIO"
    using ns_scan.scan_SomeD(1) [of s "[1..<num_irq s]"] lt by (auto split: option.split intro: less_imp_le)
  moreover have "group_prio s ?p = (case ?scan of None \<Rightarrow> NVIC_NOEXC_PRIO | Some i \<Rightarrow> group_prio s (prio (vectors s i)))"
    by (simp add: group_prio_NOEXC [OF assms(2)] split: option.split)
  ultimately show ?thesis
    unfolding nvic_recompute_state_def fold Let_def prod.case
    by (simp only: grp assms(1) if_False)
qed

lemma exc_group_prio_less:
  assumes "p < NVIC_NOEXC_PRIO"
  shows "exc_group_prio s p t < NVIC_NOEXC_PRIO"
proof (cases "p < 0")
  case False
  let ?q = "p - p mod 2 ^ (unat (prigroup s t) + 1)"
  have q: "int_and p (nvic_gprio_mask s t) = ?q" using False assms by (intro int_and_gprio) simp_all
  have "?q \<le> p" by simp
  then have "?q \<le> 255" using assms by linarith
  moreover from this have "drop_bit 1 ?q + NVIC_NS_PRIO_LIMIT \<le> 255" by (simp add: drop_bit_eq_div)
  ultimately show ?thesis using False unfolding exc_group_prio_def q Let_def by (auto simp del: One_nat_def)
qed (simp add: exc_group_prio_def)

lemma set_entries: "e \<in> set (entries is) \<longleftrightarrow> snd e \<in> set is"
  by (cases e) (auto simp: entries_def)

definition precedes :: "vec_ptr \<Rightarrow> vec_ptr \<Rightarrow> bool" where
  "precedes e e' \<longleftrightarrow> snd e < snd e' \<or> snd e = snd e' \<and> (fst e \<or> \<not> fst e')"

lemma sorted_entries: "sorted_wrt precedes (entries [a..<n])"
proof (induction n)
  case (Suc n)
  then show ?case
    by (cases "a \<le> n") (auto simp: entries_def sorted_wrt_append precedes_def)
qed (simp add: entries_def)

lemma nvic_recompute_sec:
  assumes "has_feature s ARM_FEATURE_M_SECURITY" and "nvic_wf s"
  shows "nvic_recompute_state s =
    (let act = Min (insert NVIC_NOEXC_PRIO (gprio_of s `
          {e \<in> set (entries [1..<num_irq s]). sec_exists e \<and> active (vec_at s e)}))
     in case sec_scan.scan s (entries [1..<num_irq s]) of
       None \<Rightarrow> s\<lparr>vectpending_is_s_banked := False, vectpending := 0, vectpending_prio := NVIC_NOEXC_PRIO, exception_prio := act\<rparr>
     | Some e \<Rightarrow> s\<lparr>vectpending_is_s_banked := fst e, vectpending := snd e, vectpending_prio := gprio_of s e,
          exception_prio := act\<rparr>)"
proof -
  have "gprio_of s e < NVIC_NOEXC_PRIO" if "e \<in> set (entries [1..<num_irq s])" "sec_ready s e" for e
    using that nvic_wf_prio [OF assms(2), of "snd e"]
    by (auto simp: set_entries gprio_of_def sec_ready_def sec_exists_def vec_at_def intro!: exc_group_prio_less)
  then have lt: "\<forall>e\<in>set (entries [1..<num_irq s]). sec_ready s e \<longrightarrow> gprio_of s e < NVIC_NOEXC_PRIO" by blast
  show ?thesis
    unfolding nvic_recompute_state_def nvic_recompute_state_secure_def recompute_secure_entries
      recompute_secure_fold [OF lt] fold_min
    using assms(1) by (simp add: Let_def split: option.split)
qed

section \<open>Properties\<close>

text \<open>
  C22.  Without the security extension, the exception the controller offers is an enabled pending one
  of lowest priority value, and of these the one with the lowest number; its cached priority is the
  group priority.  If there is none, the offer is 0 with a priority no exception has.  The cached
  execution priority is the group priority of the most urgent active exception.
\<close>
theorem nvic_offers_most_urgent:
  assumes "\<not> has_feature s ARM_FEATURE_M_SECURITY" and "nvic_wf s"
  shows "let s' = nvic_recompute_state s; v = vectpending s';
      ready = (\<lambda>i. 1 \<le> i \<and> i < num_irq s \<and> enabled (vectors s i) \<and> pending (vectors s i))
    in (if \<exists>i. ready i
        then ready v \<and> vectpending_prio s' = group_prio s (prio (vectors s v)) \<and>
          (\<forall>j. ready j \<longrightarrow> prio (vectors s v) < prio (vectors s j) \<or>
                           prio (vectors s v) = prio (vectors s j) \<and> v \<le> j)
        else v = 0 \<and> vectpending_prio s' = NVIC_NOEXC_PRIO) \<and>
       exception_prio s' = group_prio s (Min (insert NVIC_NOEXC_PRIO
          ((\<lambda>i. prio (vectors s i)) ` {i \<in> {1..<num_irq s}. active (vectors s i)})))"
proof (cases "ns_scan.scan s [1..<num_irq s]")
  case None
  then have "\<forall>i\<in>set [1..<num_irq s]. \<not> (enabled (vectors s i) \<and> pending (vectors s i))"
    by (simp only: ns_scan.scan_None_iff)
  then show ?thesis
    unfolding nvic_recompute_ns [OF assms] Let_def None option.case by (auto simp del: One_nat_def)
next
  case (Some v)
  note D = ns_scan.scan_SomeD [OF Some]
  have le: "prio (vectors s v) < prio (vectors s j) \<or> prio (vectors s v) = prio (vectors s j) \<and> v \<le> j"
    if j: "1 \<le> j" "j < num_irq s" "enabled (vectors s j)" "pending (vectors s j)" for j
  proof (cases "prio (vectors s v) < prio (vectors s j)")
    case False
    then have "v \<le> j"
      using ns_scan.scan_first [OF Some, of j "(\<le>)"] j by (simp del: One_nat_def)
    with False D(3) [of j] j show ?thesis by auto
  qed simp
  have "1 \<le> v \<and> v < num_irq s \<and> enabled (vectors s v) \<and> pending (vectors s v)" using D(1,2) by auto
  with le show ?thesis
    unfolding nvic_recompute_ns [OF assms] Let_def Some option.case by (auto simp del: One_nat_def)
qed

text \<open>
  C23.  With the security extension the offer follows rule \<open>R_CQRV\<close>: lowest group priority, then lowest
  subpriority, then lowest exception number, then the secure one of a banked pair.
\<close>
theorem nvic_secure_offers_most_urgent:
  assumes "has_feature s ARM_FEATURE_M_SECURITY" and "nvic_wf s"
  shows "let s' = nvic_recompute_state s; e = (vectpending_is_s_banked s', vectpending s');
      ready = (\<lambda>e. 1 \<le> snd e \<and> snd e < num_irq s \<and> sec_ready s e)
    in if \<exists>e'. ready e'
       then ready e \<and> vectpending_prio s' = gprio_of s e \<and>
         (\<forall>e'. ready e' \<longrightarrow> \<not> sec_beats s e' e \<and>
            (sec_beats s e e' \<or> snd e < snd e' \<or> snd e = snd e' \<and> (fst e \<or> \<not> fst e')))
       else vectpending s' = 0 \<and> vectpending_prio s' = NVIC_NOEXC_PRIO"
proof (cases "sec_scan.scan s (entries [1..<num_irq s])")
  case None
  then have "\<forall>e\<in>set (entries [1..<num_irq s]). \<not> sec_ready s e"
    by (simp only: sec_scan.scan_None_iff)
  then show ?thesis
    unfolding nvic_recompute_sec [OF assms] Let_def None option.case set_entries Ball_def
    by (auto simp del: One_nat_def)
next
  case (Some v)
  note D = sec_scan.scan_SomeD [OF Some]
  have "\<not> sec_beats s e v" "sec_beats s v e \<or> snd v < snd e \<or> snd v = snd e \<and> (fst v \<or> \<not> fst e)"
    if e: "1 \<le> snd e" "snd e < num_irq s" "sec_ready s e" for e
  proof -
    have "e \<in> set (entries [1..<num_irq s])" using e by (simp add: set_entries)
    with D(3) [of e] e sec_scan.scan_first [OF Some this, of precedes] sorted_entries
    show "\<not> sec_beats s e v" "sec_beats s v e \<or> snd v < snd e \<or> snd v = snd e \<and> (fst v \<or> \<not> fst e)"
      by (auto simp: precedes_def)
  qed
  moreover have "1 \<le> snd v \<and> snd v < num_irq s" using D(1) by (simp add: set_entries)
  ultimately show ?thesis
    using D(2) unfolding nvic_recompute_sec [OF assms] Let_def Some option.case
    by (auto simp del: One_nat_def split_paired_All split_paired_Ex)
qed

section \<open>Reset\<close>

lemma vec_upd_at:
  "vectors (vec_upd p f s) i = (if \<not> fst p \<and> i = snd p then f (vectors s i) else vectors s i)"
  "sec_vectors (vec_upd p f s) i = (if fst p \<and> i = snd p then f (sec_vectors s i) else sec_vectors s i)"
  "vec_at (vec_upd p f s) q = (if q = p then f (vec_at s p) else vec_at s q)"
  by (auto simp: vec_upd_def vec_at_def prod_eq_iff)

lemma vec_upd_frame [simp]:
  "cpu (vec_upd p f s) = cpu s" "num_irq (vec_upd p f s) = num_irq s"
  "num_prio_bits (vec_upd p f s) = num_prio_bits s" "prigroup (vec_upd p f s) = prigroup s"
  "itns (vec_upd p f s) = itns s" "excpout (vec_upd p f s) = excpout s"
  "vectpending (vec_upd p f s) = vectpending s" "vectpending_prio (vec_upd p f s) = vectpending_prio s"
  "vectpending_is_s_banked (vec_upd p f s) = vectpending_is_s_banked s"
  "exception_prio (vec_upd p f s) = exception_prio s" "sysresetreq (vec_upd p f s) = sysresetreq s"
  "system_reset_requests (vec_upd p f s) = system_reset_requests s"
  by (simp_all add: vec_upd_def)

lemma apply_updates_simps:
  "apply_updates [] s = s" "apply_updates (u # us) s = apply_updates us (vec_upd (fst u) (snd u) s)"
  "apply_updates (us @ vs) s = apply_updates vs (apply_updates us s)"
  by (simp_all add: apply_updates_def case_prod_unfold)

lemma apply_updates_frame [simp]:
  "cpu (apply_updates us s) = cpu s" "num_irq (apply_updates us s) = num_irq s"
  "num_prio_bits (apply_updates us s) = num_prio_bits s" "prigroup (apply_updates us s) = prigroup s"
  "itns (apply_updates us s) = itns s" "excpout (apply_updates us s) = excpout s"
  "vectpending (apply_updates us s) = vectpending s" "vectpending_prio (apply_updates us s) = vectpending_prio s"
  "vectpending_is_s_banked (apply_updates us s) = vectpending_is_s_banked s"
  "exception_prio (apply_updates us s) = exception_prio s" "sysresetreq (apply_updates us s) = sysresetreq s"
  "system_reset_requests (apply_updates us s) = system_reset_requests s"
  by (induction us arbitrary: s) (simp_all add: apply_updates_simps)

lemma nvic_reset_vectors:
  "vectors (armv7m_nvic_reset s) i =
     \<lparr>prio = (if i = 1 then if has_feature s ARM_FEATURE_V8 then -4 else -3 else if i = 2 then -2 else if i = 3 then -1 else 0),
      enabled = (i = 2 \<or> i = 11 \<or> i = 14 \<or> i = 15 \<or> i = 3 \<and> \<not> has_feature s ARM_FEATURE_M_SECURITY),
      pending = False, active = False, level = 0\<rparr>"
proof -
  consider "i = 1" | "i = 2" | "i = 3" | "i = 11" | "i = 12" | "i = 14" | "i = 15" | "i \<notin> {1, 2, 3, 11, 12, 14, 15}"
    by auto
  then show ?thesis
    by cases (simp_all add: armv7m_nvic_reset_def Let_def reset_updates_def apply_updates_simps vec_upd_at zero_vec_def)
qed

lemma nvic_reset_sec_vectors:
  "sec_vectors (armv7m_nvic_reset s) i =
     \<lparr>prio = (if i = 3 \<and> has_feature s ARM_FEATURE_M_SECURITY then -1 else 0),
      enabled = (has_feature s ARM_FEATURE_M_SECURITY \<and> (i = 3 \<or> i = 11 \<or> i = 14 \<or> i = 15)),
      pending = False, active = False, level = 0\<rparr>"
proof -
  consider "i = 3" | "i = 11" | "i = 14" | "i = 15" | "i \<notin> {3, 11, 14, 15}" by auto
  then show ?thesis
    by cases (simp_all add: armv7m_nvic_reset_def Let_def reset_updates_def apply_updates_simps vec_upd_at zero_vec_def)
qed

lemma nvic_reset_frame [simp]:
  "cpu (armv7m_nvic_reset s) = cpu s" "num_irq (armv7m_nvic_reset s) = num_irq s"
  "num_prio_bits (armv7m_nvic_reset s) = num_prio_bits s" "prigroup (armv7m_nvic_reset s) = (\<lambda>_. 0)"
  "excpout (armv7m_nvic_reset s) = excpout s" "vectpending (armv7m_nvic_reset s) = 0"
  "vectpending_is_s_banked (armv7m_nvic_reset s) = False"
  "vectpending_prio (armv7m_nvic_reset s) = NVIC_NOEXC_PRIO" "exception_prio (armv7m_nvic_reset s) = NVIC_NOEXC_PRIO"
  by (simp_all add: armv7m_nvic_reset_def Let_def)

lemma nvic_reset_wf:
  "\<lbrakk>NVIC_FIRST_IRQ \<le> num_irq s; num_irq s \<le> NVIC_MAX_VECTORS; num_prio_bits s \<le> 8\<rbrakk> \<Longrightarrow> nvic_wf (armv7m_nvic_reset s)"
  by (auto simp: nvic_wf_def vec_ok_def prio_ok_def vec_at_def nvic_reset_vectors nvic_reset_sec_vectors)

text \<open>Well-formedness of a controller after an update of one exception.\<close>

lemma nvic_wf_vec_upd:
  "\<lbrakk>nvic_wf s; vec_ok p (f (vec_at s p))\<rbrakk> \<Longrightarrow> nvic_wf (vec_upd p f s)"
  unfolding nvic_wf_def by (simp add: vec_upd_at(3) del: split_paired_All)

lemma vec_ok_flags [simp]:
  "vec_ok p (v\<lparr>pending := b\<rparr>) = vec_ok p v" "vec_ok p (v\<lparr>active := b\<rparr>) = vec_ok p v"
  "snd p \<noteq> ARMV7M_EXCP_RESET \<Longrightarrow> vec_ok p (v\<lparr>enabled := b\<rparr>) = vec_ok p v"
  "NVIC_FIRST_IRQ \<le> snd p \<Longrightarrow> vec_ok p (v\<lparr>level := l\<rparr>) = vec_ok p v"
  by (auto simp: vec_ok_def)

lemma vec_ok_prio: "\<lbrakk>vec_ok p v; prio_ok p x\<rbrakk> \<Longrightarrow> vec_ok p (v\<lparr>prio := x\<rparr>)"
  by (simp add: vec_ok_def)

section \<open>Witnesses\<close>

text \<open>A Cortex-M7 controller with eight interrupts; and one with the security extension.\<close>

definition nvic_blank :: "ARMCPU \<Rightarrow> NVICState" where
  "nvic_blank c = \<lparr>cpu = c, vectors = (\<lambda>_. zero_vec), sec_vectors = (\<lambda>_. zero_vec), prigroup = (\<lambda>_. 0),
     num_prio_bits = 4, itns = (\<lambda>_. False), vectpending = 0, vectpending_is_s_banked = False,
     exception_prio = 0, vectpending_prio = 0, num_irq = 24, excpout = [], sysresetreq = None,
     system_reset_requests = 0\<rparr>"

definition nvic_m7 :: NVICState where
  "nvic_m7 = armv7m_nvic_reset (nvic_blank (arm_cpu_reset_m 0 0 cortex_m7_initfn))"

definition nvic_m33 :: NVICState where
  "nvic_m33 = armv7m_nvic_reset (nvic_blank (arm_cpu_reset_m 0 0
     (cortex_m7_initfn\<lparr>features := (\<lambda>f. True)\<rparr>)))"

definition ready_at :: "int \<Rightarrow> VecInfo \<Rightarrow> VecInfo" where
  "ready_at p v = v\<lparr>prio := p, enabled := True, pending := True\<rparr>"

lemma nvic_demo_wf: "nvic_wf nvic_m7" "nvic_wf nvic_m33"
  unfolding nvic_m7_def nvic_m33_def by (rule nvic_reset_wf; simp add: nvic_blank_def)+

lemma nvic_demo_features:
  "\<not> has_feature nvic_m7 ARM_FEATURE_M_SECURITY" "has_feature nvic_m33 ARM_FEATURE_M_SECURITY"
  by (simp_all add: nvic_m7_def nvic_m33_def nvic_blank_def arm_feature_def arm_cpu_reset_m_def Let_def cortex_m7_initfn_def)

definition nvic_m7_busy :: NVICState where
  "nvic_m7_busy = vec_upd (False, 20) (ready_at 64) (vec_upd (False, 18) (ready_at 128)
     (vec_upd (False, 22) (ready_at 64) nvic_m7))"

definition nvic_m33_busy :: NVICState where
  "nvic_m33_busy = vec_upd (False, 15) (ready_at 64) (vec_upd (True, 15) (ready_at 64) nvic_m33)"

lemma nvic_wf_ready_at:
  "\<lbrakk>nvic_wf s; ARMV7M_EXCP_MEM \<le> snd p; x \<in> {0..255}\<rbrakk> \<Longrightarrow> nvic_wf (vec_upd p (ready_at x) s)"
  by (rule nvic_wf_vec_upd) (auto simp: ready_at_def prio_ok_def nvic_wf_vec intro!: vec_ok_prio)

lemma nvic_busy:
  "nvic_wf nvic_m7_busy" "\<not> has_feature nvic_m7_busy ARM_FEATURE_M_SECURITY"
  "nvic_wf nvic_m33_busy" "has_feature nvic_m33_busy ARM_FEATURE_M_SECURITY"
  by (simp_all add: nvic_m7_busy_def nvic_m33_busy_def nvic_wf_ready_at nvic_demo_wf nvic_demo_features)

theorem nvic_offers_most_urgent_witness:
  "vectpending (nvic_recompute_state nvic_m7_busy) = 20 \<and> vectpending_prio (nvic_recompute_state nvic_m7_busy) = 64 \<and>
   (prio (vectors nvic_m7_busy 20) < prio (vectors nvic_m7_busy 22) \<or>
    prio (vectors nvic_m7_busy 20) = prio (vectors nvic_m7_busy 22) \<and> (20 :: nat) \<le> 22)"
proof -
  have v: "vectpending (nvic_recompute_state nvic_m7_busy) = 20" by code_simp
  moreover have "group_prio nvic_m7_busy (prio (vectors nvic_m7_busy 20)) = 64" by code_simp
  moreover have "1 \<le> (20 :: nat) \<and> 20 < num_irq nvic_m7_busy \<and> enabled (vectors nvic_m7_busy 20) \<and>
    pending (vectors nvic_m7_busy 20)" by code_simp
  then have "\<exists>i. 1 \<le> i \<and> i < num_irq nvic_m7_busy \<and> enabled (vectors nvic_m7_busy i) \<and>
    pending (vectors nvic_m7_busy i)" by (rule exI [of _ 20])
  moreover have "1 \<le> (22 :: nat) \<and> 22 < num_irq nvic_m7_busy \<and> enabled (vectors nvic_m7_busy 22) \<and>
    pending (vectors nvic_m7_busy 22)" by code_simp
  ultimately show ?thesis
    using nvic_offers_most_urgent [OF nvic_busy(2,1)] by (simp only: Let_def if_True v)
qed

theorem nvic_secure_offers_most_urgent_witness:
  "vectpending (nvic_recompute_state nvic_m33_busy) = 15 \<and>
   vectpending_is_s_banked (nvic_recompute_state nvic_m33_busy) \<and>
   \<not> sec_beats nvic_m33_busy (False, 15) (True, 15)"
proof -
  have v: "vectpending (nvic_recompute_state nvic_m33_busy) = 15"
    "vectpending_is_s_banked (nvic_recompute_state nvic_m33_busy) = True"
    by code_simp+
  have r: "1 \<le> snd (False, 15 :: nat) \<and> snd (False, 15 :: nat) < num_irq nvic_m33_busy \<and>
    sec_ready nvic_m33_busy (False, 15)" by code_simp
  then have ex: "\<exists>e. 1 \<le> snd e \<and> snd e < num_irq nvic_m33_busy \<and> sec_ready nvic_m33_busy e"
    by (rule exI [of _ "(False, 15)"])
  have "\<forall>e'. 1 \<le> snd e' \<and> snd e' < num_irq nvic_m33_busy \<and> sec_ready nvic_m33_busy e' \<longrightarrow>
      \<not> sec_beats nvic_m33_busy e' (True, 15)"
    using nvic_secure_offers_most_urgent [OF nvic_busy(4,3)] by (simp only: Let_def ex if_True v) blast
  with r v show ?thesis by blast
qed

end
