(* ===== verification/Nvic_Regs.thy ===== *)
theory Nvic_Regs
  imports Nvic_Select Mem_Dispatch
begin

text \<open>
  The memory-mapped registers of the interrupt controller and the system control block
  (\<open>nvic_readl\<close>, \<open>nvic_writel\<close>, \<open>nvic_sysreg_read\<close> and \<open>nvic_sysreg_write\<close> of
  \<open>hw/intc/armv7m_nvic.c\<close>).  The two long switches are split by groups of registers, in the
  order of the source.  Log messages are left out, and so is the cache of CPU flags that
  \<open>arm_rebuild_hflags\<close> derives from the state.
\<close>

section \<open>Accesses\<close>

definition flag_if :: "nat \<Rightarrow> bool \<Rightarrow> u32" where
  "flag_if n c = (if c then push_bit n 1 else 0)"

abbreviation upd_cpu :: "(ARMCPU \<Rightarrow> ARMCPU) \<Rightarrow> NVICState \<Rightarrow> NVICState" where
  "upd_cpu f s \<equiv> s\<lparr>cpu := f (cpu s)\<rparr>"

abbreviation upd_v7m :: "(v7m_state \<Rightarrow> v7m_state) \<Rightarrow> NVICState \<Rightarrow> NVICState" where
  "upd_v7m f s \<equiv> s\<lparr>cpu := (cpu s)\<lparr>v7m := f (v7m (cpu s))\<rparr>\<rparr>"

abbreviation bfhfnmins :: "NVICState \<Rightarrow> bool" where
  "bfhfnmins s \<equiv> has_flag (aircr_of s) R_V7M_AIRCR_BFHFNMINS_MASK"

section \<open>Reads of single registers\<close>

definition read_itns :: "NVICState \<Rightarrow> u32 \<Rightarrow> bool \<Rightarrow> u32" where
  "read_itns s offset sec =
    (let startvec = 8 * unat (offset - 0x380) + NVIC_FIRST_IRQ
     in if \<not> has_feature s ARM_FEATURE_V8 then 0
        else if \<not> sec then 0
        else fold (\<lambda>i val. if startvec + i < num_irq s \<and> itns s (startvec + i) then val OR push_bit i 1 else val)
          [0..<32] 0)"

definition read_icsr :: "NVICState \<Rightarrow> bool \<Rightarrow> u32" where
  "read_icsr s sec =
    (let val = exception (v7m (cpu s));
         val = (if vectpending s \<noteq> 0 then
                  let vp = (if \<not> sec \<and> has_feature s ARM_FEATURE_V8_1M \<and> vectpending_targets_secure s
                            then 1 else vectpending s)
                  in val OR push_bit 12 (word_of_nat vp AND 0x1ff)
                else val);
         val = val OR flag_if 22 (nvic_isrpending s) OR flag_if 11 (nvic_rettobase s);
         val = (if sec
                then val OR flag_if 26 (pending (sec_vectors s ARMV7M_EXCP_SYSTICK)) OR
                  flag_if 28 (pending (sec_vectors s ARMV7M_EXCP_PENDSV))
                else val OR flag_if 26 (pending (vectors s ARMV7M_EXCP_SYSTICK)) OR
                  flag_if 28 (pending (vectors s ARMV7M_EXCP_PENDSV)))
     in val OR flag_if 31 ((sec \<or> bfhfnmins s) \<and> pending (vectors s ARMV7M_EXCP_NMI)))"

definition read_aircr :: "NVICState \<Rightarrow> bool \<Rightarrow> u32" where
  "read_aircr s sec =
    (let val = 0xfa050000 OR push_bit 8 (prigroup s sec)
     in if sec then val OR aircr_of s
        else if has_feature s ARM_FEATURE_V8 then val OR (aircr_of s AND R_V7M_AIRCR_BFHFNMINS_MASK)
        else val)"

definition read_ccr :: "NVICState \<Rightarrow> bool \<Rightarrow> u32" where
  "read_ccr s sec =
    (let e = v7m (cpu s);
         val = ccr e sec OR (ccr e False AND R_V7M_CCR_BFHFNMIGN_MASK)
     in if \<not> sec \<and> \<not> bfhfnmins s then val AND NOT R_V7M_CCR_BFHFNMIGN_MASK else val)"

definition read_shcsr :: "NVICState \<Rightarrow> bool \<Rightarrow> u32" where
  "read_shcsr s sec =
    (let S = sec_vectors s; N = vectors s; v8 = has_feature s ARM_FEATURE_V8;
         val = (if sec then
           flag_if 0 (active (S ARMV7M_EXCP_MEM)) OR flag_if 2 (active (S ARMV7M_EXCP_HARD)) OR
           flag_if 3 (active (S ARMV7M_EXCP_USAGE)) OR flag_if 7 (active (S ARMV7M_EXCP_SVC)) OR
           flag_if 10 (active (S ARMV7M_EXCP_PENDSV)) OR flag_if 11 (active (S ARMV7M_EXCP_SYSTICK)) OR
           flag_if 12 (pending (S ARMV7M_EXCP_USAGE)) OR flag_if 13 (pending (S ARMV7M_EXCP_MEM)) OR
           flag_if 15 (pending (S ARMV7M_EXCP_SVC)) OR flag_if 16 (enabled (S ARMV7M_EXCP_MEM)) OR
           flag_if 18 (enabled (S ARMV7M_EXCP_USAGE)) OR flag_if 21 (pending (S ARMV7M_EXCP_HARD)) OR
           flag_if 4 (active (N ARMV7M_EXCP_SECURE)) OR flag_if 19 (enabled (N ARMV7M_EXCP_SECURE)) OR
           flag_if 20 (pending (N ARMV7M_EXCP_SECURE))
         else
           flag_if 0 (active (N ARMV7M_EXCP_MEM)) OR
           flag_if 2 (v8 \<and> active (N ARMV7M_EXCP_HARD)) OR flag_if 21 (v8 \<and> pending (N ARMV7M_EXCP_HARD)) OR
           flag_if 3 (active (N ARMV7M_EXCP_USAGE)) OR flag_if 7 (active (N ARMV7M_EXCP_SVC)) OR
           flag_if 10 (active (N ARMV7M_EXCP_PENDSV)) OR flag_if 11 (active (N ARMV7M_EXCP_SYSTICK)) OR
           flag_if 12 (pending (N ARMV7M_EXCP_USAGE)) OR flag_if 13 (pending (N ARMV7M_EXCP_MEM)) OR
           flag_if 15 (pending (N ARMV7M_EXCP_SVC)) OR flag_if 16 (enabled (N ARMV7M_EXCP_MEM)) OR
           flag_if 18 (enabled (N ARMV7M_EXCP_USAGE)));
         val = (if sec \<or> bfhfnmins s then
           val OR flag_if 1 (active (N ARMV7M_EXCP_BUS)) OR flag_if 14 (pending (N ARMV7M_EXCP_BUS)) OR
           flag_if 17 (enabled (N ARMV7M_EXCP_BUS)) OR flag_if 5 (v8 \<and> active (N ARMV7M_EXCP_NMI))
         else val)
     in val OR flag_if 8 (active (N ARMV7M_EXCP_DEBUG)))"

text \<open>The identification registers from 0xd40 to 0xd74, in the order of their offsets.\<close>

definition read_idreg :: "NVICState \<Rightarrow> u32 \<Rightarrow> u32" where
  "read_idreg s offset =
     (if \<not> has_feature s ARM_FEATURE_M_MAIN then 0
      else ucast (idregs (isar (cpu s))
        (if offset = 0xd40 then ID_PFR0 else if offset = 0xd44 then ID_PFR1
         else if offset = 0xd48 then ID_DFR0 else if offset = 0xd4c then ID_AFR0
         else if offset = 0xd50 then ID_MMFR0 else if offset = 0xd54 then ID_MMFR1
         else if offset = 0xd58 then ID_MMFR2 else if offset = 0xd5c then ID_MMFR3
         else if offset = 0xd60 then ID_ISAR0 else if offset = 0xd64 then ID_ISAR1
         else if offset = 0xd68 then ID_ISAR2 else if offset = 0xd6c then ID_ISAR3
         else if offset = 0xd70 then ID_ISAR4 else ID_ISAR5)))"

definition mpu_region :: "NVICState \<Rightarrow> bool \<Rightarrow> u32 \<Rightarrow> u32" where
  "mpu_region s sec aliasno =
    (let region = rnr (pmsav7 (cpu s)) sec
     in if aliasno \<noteq> 0 then deposit32 region 0 2 aliasno else region)"

definition read_mpu_rbar :: "NVICState \<Rightarrow> u32 \<Rightarrow> bool \<Rightarrow> u32" where
  "read_mpu_rbar s offset sec =
    (let c = cpu s
     in if has_feature s ARM_FEATURE_V8 then
          let region = mpu_region s sec ((offset - 0xd9c) div 8)
          in if region \<ge> pmsav7_dregion c then 0 else p8_rbar (pmsav8 c) sec (unat region)
        else
          let region = rnr (pmsav7 c) sec
          in if region \<ge> pmsav7_dregion c then 0
             else (drbar (pmsav7 c) (unat region) AND NOT 0x1f) OR (region AND 0xf))"

definition read_mpu_rasr :: "NVICState \<Rightarrow> u32 \<Rightarrow> bool \<Rightarrow> u32" where
  "read_mpu_rasr s offset sec =
    (let c = cpu s
     in if has_feature s ARM_FEATURE_V8 then
          let region = mpu_region s sec ((offset - 0xda0) div 8)
          in if region \<ge> pmsav7_dregion c then 0 else p8_rlar (pmsav8 c) sec (unat region)
        else
          let region = rnr (pmsav7 c) sec
          in if region \<ge> pmsav7_dregion c then 0
             else push_bit 16 (dracr (pmsav7 c) (unat region) AND 0xffff) OR (drsr (pmsav7 c) (unat region) AND 0xffff))"

text \<open>The registers from 0xdc0 to 0xde8 exist in v8M only; those of the SAU read as zero from NS.\<close>

definition read_v8_regs :: "NVICState \<Rightarrow> u32 \<Rightarrow> bool \<Rightarrow> u32" where
  "read_v8_regs s offset sec =
    (let c = cpu s; region = sau_rnr (sau c)
     in if \<not> has_feature s ARM_FEATURE_V8 then 0
        else if offset = 0xdc0 then mair0 (pmsav8 c) sec
        else if offset = 0xdc4 then mair1 (pmsav8 c) sec
        else if \<not> sec then 0
        else if offset = 0xdd0 then sau_ctrl (sau c)
        else if offset = 0xdd4 then sau_sregion c
        else if offset = 0xdd8 then sau_rnr (sau c)
        else if offset = 0xddc then if region \<ge> sau_sregion c then 0 else sau_rbar (sau c) (unat region)
        else if offset = 0xde0 then if region \<ge> sau_sregion c then 0 else sau_rlar (sau c) (unat region)
        else if offset = 0xde4 then sfsr (v7m c)
        else sfar (v7m c))"

definition read_fpccr :: "NVICState \<Rightarrow> bool \<Rightarrow> u32" where
  "read_fpccr s sec =
    (let e = v7m (cpu s)
     in if \<not> isar_feature_aa32_vfp_simd (isar (cpu s)) then 0
        else if sec then fpccr e True
        else
          let m = R_V7M_FPCCR_LSPEN_MASK OR R_V7M_FPCCR_CLRONRET_MASK OR R_V7M_FPCCR_MONRDY_MASK;
              m = (if bfhfnmins s then m OR R_V7M_FPCCR_BFRDY_MASK OR R_V7M_FPCCR_HFRDY_MASK else m)
          in (fpccr e True AND m) OR fpccr e False)"

section \<open>nvic\_readl\<close>

definition nvic_readl :: "NVICState \<Rightarrow> u32 \<Rightarrow> MemTxAttrs \<Rightarrow> u32" where
  "nvic_readl s offset attrs =
    (let c = cpu s; e = v7m c; sec = at_secure attrs; main = has_feature s ARM_FEATURE_M_MAIN;
         vfp = isar_feature_aa32_vfp_simd (isar c)
     in if offset = 4 then
          if \<not> has_feature s ARM_FEATURE_V7 then 0 else word_of_nat (num_irq s - NVIC_FIRST_IRQ) div 32 - 1
        else if offset = 0xc then 0
        else if 0x380 \<le> offset \<and> offset \<le> 0x3bf then read_itns s offset sec
        else if offset = 0xcfc then if \<not> has_feature s ARM_FEATURE_V8_1M then 0 else revidr c
        else if offset = 0xd00 then ucast (midr c)
        else if offset = 0xd04 then read_icsr s sec
        else if offset = 0xd08 then vecbase e sec
        else if offset = 0xd0c then read_aircr s sec
        else if offset = 0xd10 then if \<not> has_feature s ARM_FEATURE_V7 then 0 else scr e sec
        else if offset = 0xd14 then read_ccr s sec
        else if offset = 0xd24 then if \<not> has_feature s ARM_FEATURE_V7 then 0 else read_shcsr s sec
        else if offset = 0xd2c then if \<not> main then 0 else hfsr e
        else if offset = 0xd30 then dfsr e
        else if offset = 0xd34 then if \<not> main then 0 else mmfar e sec
        else if offset = 0xd38 then if \<not> main then 0 else if \<not> sec \<and> \<not> bfhfnmins s then 0 else bfar e
        else if offset = 0xd3c then 0
        else if offset \<in> {0xd40, 0xd44, 0xd48, 0xd4c, 0xd50, 0xd54, 0xd58, 0xd5c, 0xd60, 0xd64, 0xd68, 0xd6c, 0xd70, 0xd74}
        then read_idreg s offset
        else if offset = 0xd78 then ucast (idregs (isar c) CLIDR)
        else if offset = 0xd7c then ucast (ctr c)
        else if offset = 0xd80 then ucast (ccsidr c (unat (csselr e sec AND R_V7M_CSSELR_INDEX_MASK)))
        else if offset = 0xd84 then csselr e sec
        else if offset = 0xd88 then if \<not> vfp then 0 else cpacr e sec
        else if offset = 0xd8c then if \<not> sec \<or> \<not> vfp then 0 else nsacr e
        else if offset = 0xd90 then push_bit 8 (pmsav7_dregion c)
        else if offset = 0xd94 then mpu_ctrl e sec
        else if offset = 0xd98 then rnr (pmsav7 c) sec
        else if offset \<in> {0xd9c, 0xda4, 0xdac, 0xdb4} then read_mpu_rbar s offset sec
        else if offset \<in> {0xda0, 0xda8, 0xdb0, 0xdb8} then read_mpu_rasr s offset sec
        else if offset \<in> {0xdc0, 0xdc4, 0xdd0, 0xdd4, 0xdd8, 0xddc, 0xde0, 0xde4, 0xde8} then read_v8_regs s offset sec
        else if offset = 0xf04 then 0
        else if offset = 0xf34 then read_fpccr s sec
        else if offset = 0xf38 then if \<not> vfp then 0 else fpcar e sec
        else if offset = 0xf3c then if \<not> vfp then 0 else fpdscr e sec
        else if offset = 0xf40 then mvfr0 (isar c)
        else if offset = 0xf44 then mvfr1 (isar c)
        else if offset = 0xf48 then mvfr2 (isar c)
        else 0)"

section \<open>Writes of single registers\<close>

definition write_itns :: "u32 \<Rightarrow> u32 \<Rightarrow> bool \<Rightarrow> NVICState \<Rightarrow> NVICState" where
  "write_itns offset value sec s =
    (let startvec = 8 * unat (offset - 0x380) + NVIC_FIRST_IRQ
     in if \<not> has_feature s ARM_FEATURE_V8 then s
        else if \<not> sec then s
        else nvic_irq_update (s\<lparr>itns := (\<lambda>n. if startvec \<le> n \<and> n < startvec + 32 \<and> n < num_irq s
               then bit value (n - startvec) else itns s n)\<rparr>))"

definition icsr_pend :: "bool \<Rightarrow> bool \<Rightarrow> nat \<Rightarrow> bool \<Rightarrow> NVICState \<Rightarrow> NVICState res" where
  "icsr_pend set_it clear_it irq sec s =
     (if set_it then armv7m_nvic_set_pending irq sec s
      else if clear_it then armv7m_nvic_clear_pending irq sec s
      else Inr s)"

definition write_icsr :: "u32 \<Rightarrow> bool \<Rightarrow> NVICState \<Rightarrow> NVICState res" where
  "write_icsr value sec s =
     res_bind (if sec \<or> bfhfnmins s
       then icsr_pend (bit value 31) (bit value 30 \<and> has_feature s ARM_FEATURE_V8) ARMV7M_EXCP_NMI False s
       else Inr s)
     (\<lambda>s. res_bind (icsr_pend (bit value 28) (bit value 27) ARMV7M_EXCP_PENDSV sec s)
     (\<lambda>s. icsr_pend (bit value 26) (bit value 25) ARMV7M_EXCP_SYSTICK sec s))"

definition write_aircr :: "u32 \<Rightarrow> bool \<Rightarrow> NVICState \<Rightarrow> NVICState" where
  "write_aircr value sec s =
     (if drop_bit 16 value \<noteq> 0x05fa then s
      else
        let s = (if has_flag value R_V7M_AIRCR_SYSRESETREQ_MASK \<and>
                    (sec \<or> \<not> has_flag (aircr_of s) R_V7M_AIRCR_SYSRESETREQS_MASK)
                 then signal_sysresetreq s else s);
            s = (if has_feature s ARM_FEATURE_M_MAIN
                 then s\<lparr>prigroup := (prigroup s)(sec := extract32 value 8 3)\<rparr> else s);
            s = (if sec then
                   let s = upd_v7m (\<lambda>e. e\<lparr>aircr := value AND
                         (R_V7M_AIRCR_SYSRESETREQS_MASK OR R_V7M_AIRCR_BFHFNMINS_MASK OR R_V7M_AIRCR_PRIS_MASK)\<rparr>) s
                   in if bfhfnmins s
                      then vec_upd (False, ARMV7M_EXCP_HARD) (\<lambda>v. v\<lparr>enabled := True\<rparr>)
                             (vec_upd (True, ARMV7M_EXCP_HARD) (\<lambda>v. v\<lparr>prio := -3\<rparr>) s)
                      else vec_upd (False, ARMV7M_EXCP_HARD) (\<lambda>v. v\<lparr>enabled := False\<rparr>)
                             (vec_upd (True, ARMV7M_EXCP_HARD) (\<lambda>v. v\<lparr>prio := -1\<rparr>) s)
                 else s)
        in nvic_irq_update s)"

definition write_ccr :: "u32 \<Rightarrow> bool \<Rightarrow> NVICState \<Rightarrow> NVICState" where
  "write_ccr value sec s =
     (if \<not> has_feature s ARM_FEATURE_M_MAIN then s
      else
        let m = R_V7M_CCR_STKALIGN_MASK OR R_V7M_CCR_BFHFNMIGN_MASK OR R_V7M_CCR_DIV_0_TRP_MASK OR
              R_V7M_CCR_UNALIGN_TRP_MASK OR R_V7M_CCR_USERSETMPEND_MASK OR R_V7M_CCR_NONBASETHRDENA_MASK;
            m = (if has_feature s ARM_FEATURE_V8_1M \<and> sec then m OR R_V7M_CCR_TRD_MASK else m);
            value = value AND m;
            value = (if has_feature s ARM_FEATURE_V8
              then value OR R_V7M_CCR_NONBASETHRDENA_MASK OR R_V7M_CCR_STKALIGN_MASK else value);
            ns = ccr (v7m (cpu s)) False
        in if sec then
             upd_v7m (\<lambda>e. e\<lparr>ccr := (\<lambda>b. if b then value AND NOT R_V7M_CCR_BFHFNMIGN_MASK
                 else (ns AND NOT R_V7M_CCR_BFHFNMIGN_MASK) OR (value AND R_V7M_CCR_BFHFNMIGN_MASK))\<rparr>) s
           else
             let value = (if \<not> bfhfnmins s
               then (value AND NOT R_V7M_CCR_BFHFNMIGN_MASK) OR (ns AND R_V7M_CCR_BFHFNMIGN_MASK) else value)
             in upd_v7m (\<lambda>e. e\<lparr>ccr := (ccr e)(False := value)\<rparr>) s)"

definition shcsr_updates :: "u32 \<Rightarrow> bool \<Rightarrow> NVICState \<Rightarrow> (vec_ptr \<times> (VecInfo \<Rightarrow> VecInfo)) list" where
  "shcsr_updates value sec s =
    (if sec then
       [((True, ARMV7M_EXCP_MEM), set_act (bit value 0)), ((True, ARMV7M_EXCP_USAGE), set_act (bit value 3)),
        ((True, ARMV7M_EXCP_SVC), set_act (bit value 7)), ((True, ARMV7M_EXCP_PENDSV), set_act (bit value 10)),
        ((True, ARMV7M_EXCP_SYSTICK), set_act (bit value 11)), ((True, ARMV7M_EXCP_USAGE), set_pen (bit value 12)),
        ((True, ARMV7M_EXCP_MEM), set_pen (bit value 13)), ((True, ARMV7M_EXCP_SVC), set_pen (bit value 15)),
        ((True, ARMV7M_EXCP_MEM), set_ena (bit value 16)), ((True, ARMV7M_EXCP_BUS), set_ena (bit value 17)),
        ((True, ARMV7M_EXCP_USAGE), set_ena (bit value 18)), ((True, ARMV7M_EXCP_HARD), set_pen (bit value 21)),
        ((False, ARMV7M_EXCP_SECURE), set_act (bit value 4)), ((False, ARMV7M_EXCP_SECURE), set_ena (bit value 19)),
        ((False, ARMV7M_EXCP_SECURE), set_pen (bit value 20))]
     else
       [((False, ARMV7M_EXCP_MEM), set_act (bit value 0))] @
       (if has_feature s ARM_FEATURE_V8 then [((False, ARMV7M_EXCP_HARD), set_pen (bit value 21))] else []) @
       [((False, ARMV7M_EXCP_USAGE), set_act (bit value 3)), ((False, ARMV7M_EXCP_SVC), set_act (bit value 7)),
        ((False, ARMV7M_EXCP_PENDSV), set_act (bit value 10)), ((False, ARMV7M_EXCP_SYSTICK), set_act (bit value 11)),
        ((False, ARMV7M_EXCP_USAGE), set_pen (bit value 12)), ((False, ARMV7M_EXCP_MEM), set_pen (bit value 13)),
        ((False, ARMV7M_EXCP_SVC), set_pen (bit value 15)), ((False, ARMV7M_EXCP_MEM), set_ena (bit value 16)),
        ((False, ARMV7M_EXCP_USAGE), set_ena (bit value 18))]) @
    (if sec \<or> bfhfnmins s then
       [((False, ARMV7M_EXCP_BUS), set_act (bit value 1)), ((False, ARMV7M_EXCP_BUS), set_pen (bit value 14)),
        ((False, ARMV7M_EXCP_BUS), set_ena (bit value 17))]
     else []) @
    (if \<not> sec \<and> secure (v7m (cpu s)) \<and> bfhfnmins s \<and> \<not> bit value 5
     then [((False, ARMV7M_EXCP_NMI), set_act False)] else []) @
    (if \<not> sec \<and> secure (v7m (cpu s)) \<and> bfhfnmins s \<and> \<not> bit value 2
     then [((False, ARMV7M_EXCP_HARD), set_act False)] else []) @
    [((False, ARMV7M_EXCP_DEBUG), set_act (bit value 8))]"

definition write_shcsr :: "u32 \<Rightarrow> bool \<Rightarrow> NVICState \<Rightarrow> NVICState" where
  "write_shcsr value sec s =
     (if \<not> has_feature s ARM_FEATURE_V7 then s
      else nvic_irq_update (apply_updates (shcsr_updates value sec s) s))"

abbreviation tlb_flush :: "ARMCPU \<Rightarrow> ARMCPU" where
  "tlb_flush c \<equiv> c\<lparr>tlb_flushes := tlb_flushes c + 1\<rparr>"

definition write_mpu_ctrl :: "u32 \<Rightarrow> bool \<Rightarrow> NVICState \<Rightarrow> NVICState" where
  "write_mpu_ctrl value sec s =
     upd_cpu tlb_flush (upd_v7m (\<lambda>e. e\<lparr>mpu_ctrl := (mpu_ctrl e)(sec := value AND
       (R_V7M_MPU_CTRL_ENABLE_MASK OR R_V7M_MPU_CTRL_HFNMIENA_MASK OR R_V7M_MPU_CTRL_PRIVDEFENA_MASK))\<rparr>) s)"

definition write_mpu_rbar :: "u32 \<Rightarrow> u32 \<Rightarrow> bool \<Rightarrow> NVICState \<Rightarrow> NVICState" where
  "write_mpu_rbar offset value sec s =
    (let dregion = pmsav7_dregion (cpu s)
     in if has_feature s ARM_FEATURE_V8 then
          let region = mpu_region s sec ((offset - 0xd9c) div 8)
          in if region \<ge> dregion then s
             else upd_cpu (\<lambda>c. tlb_flush (c\<lparr>pmsav8 := (pmsav8 c)\<lparr>p8_rbar :=
               (p8_rbar (pmsav8 c))(sec := (p8_rbar (pmsav8 c) sec)(unat region := value))\<rparr>\<rparr>)) s
        else if bit value 4 \<and> extract32 value 0 4 \<ge> dregion then s
        else
          let s = (if bit value 4
                then upd_cpu (\<lambda>c. c\<lparr>pmsav7 := (pmsav7 c)\<lparr>rnr := (rnr (pmsav7 c))(sec := extract32 value 0 4)\<rparr>\<rparr>) s
                else s);
              region = rnr (pmsav7 (cpu s)) sec
          in if region \<ge> dregion then s
             else upd_cpu (\<lambda>c. tlb_flush (c\<lparr>pmsav7 := (pmsav7 c)\<lparr>drbar :=
               (drbar (pmsav7 c))(unat region := value AND NOT 0x1f)\<rparr>\<rparr>)) s)"

definition write_mpu_rasr :: "u32 \<Rightarrow> u32 \<Rightarrow> bool \<Rightarrow> NVICState \<Rightarrow> NVICState" where
  "write_mpu_rasr offset value sec s =
    (let dregion = pmsav7_dregion (cpu s)
     in if has_feature s ARM_FEATURE_V8 then
          let region = mpu_region s sec ((offset - 0xd9c) div 8)
          in if region \<ge> dregion then s
             else upd_cpu (\<lambda>c. tlb_flush (c\<lparr>pmsav8 := (pmsav8 c)\<lparr>p8_rlar :=
               (p8_rlar (pmsav8 c))(sec := (p8_rlar (pmsav8 c) sec)(unat region := value))\<rparr>\<rparr>)) s
        else
          let region = rnr (pmsav7 (cpu s)) sec
          in if region \<ge> dregion then s
             else upd_cpu (\<lambda>c. tlb_flush (c\<lparr>pmsav7 := (pmsav7 c)\<lparr>
               drsr := (drsr (pmsav7 c))(unat region := value AND 0xff3f),
               dracr := (dracr (pmsav7 c))(unat region := drop_bit 16 value AND 0x173f)\<rparr>\<rparr>)) s)"

definition write_mair :: "bool \<Rightarrow> u32 \<Rightarrow> bool \<Rightarrow> NVICState \<Rightarrow> NVICState" where
  "write_mair second value sec s =
     (if \<not> has_feature s ARM_FEATURE_V8 then s
      else if pmsav7_dregion (cpu s) = 0 then s
      else if second
      then upd_cpu (\<lambda>c. c\<lparr>pmsav8 := (pmsav8 c)\<lparr>mair1 := (mair1 (pmsav8 c))(sec := value)\<rparr>\<rparr>) s
      else upd_cpu (\<lambda>c. c\<lparr>pmsav8 := (pmsav8 c)\<lparr>mair0 := (mair0 (pmsav8 c))(sec := value)\<rparr>\<rparr>) s)"

text \<open>The SAU and secure fault registers, writable from the secure state only.\<close>

definition write_sau_regs :: "u32 \<Rightarrow> u32 \<Rightarrow> bool \<Rightarrow> NVICState \<Rightarrow> NVICState" where
  "write_sau_regs offset value sec s =
    (let region = sau_rnr (sau (cpu s)); sregion = sau_sregion (cpu s)
     in if \<not> has_feature s ARM_FEATURE_V8 then s
        else if offset = 0xdd4 then s
        else if \<not> sec then s
        else if offset = 0xdd0 then upd_cpu (\<lambda>c. c\<lparr>sau := (sau c)\<lparr>sau_ctrl := value AND 3\<rparr>\<rparr>) s
        else if offset = 0xdd8 then
          if value \<ge> sregion then s else upd_cpu (\<lambda>c. c\<lparr>sau := (sau c)\<lparr>sau_rnr := value\<rparr>\<rparr>) s
        else if offset = 0xddc then
          if region \<ge> sregion then s
          else upd_cpu (\<lambda>c. tlb_flush (c\<lparr>sau := (sau c)\<lparr>sau_rbar := (sau_rbar (sau c))(unat region := value AND NOT 0x1f)\<rparr>\<rparr>)) s
        else if offset = 0xde0 then
          if region \<ge> sregion then s
          else upd_cpu (\<lambda>c. tlb_flush (c\<lparr>sau := (sau c)\<lparr>sau_rlar := (sau_rlar (sau c))(unat region := value AND NOT 0x1c)\<rparr>\<rparr>)) s
        else if offset = 0xde4 then upd_v7m (\<lambda>e. e\<lparr>sfsr := sfsr e AND NOT value\<rparr>) s
        else upd_v7m (\<lambda>e. e\<lparr>sfsr := value\<rparr>) s)"

definition copy_field :: "nat \<Rightarrow> u32 \<Rightarrow> u32 \<Rightarrow> u32" where
  "copy_field n value w = deposit32 w n 1 (extract32 value n 1)"

definition write_fpccr :: "u32 \<Rightarrow> bool \<Rightarrow> NVICState \<Rightarrow> NVICState" where
  "write_fpccr value sec s =
     (if \<not> isar_feature_aa32_vfp_simd (isar (cpu s)) then s
      else
        let value = (if \<not> has_feature s ARM_FEATURE_V8
              then value AND (R_V7M_FPCCR_LSPACT_MASK OR R_V7M_FPCCR_USER_MASK OR R_V7M_FPCCR_THREAD_MASK OR
                R_V7M_FPCCR_HFRDY_MASK OR R_V7M_FPCCR_MMRDY_MASK OR R_V7M_FPCCR_BFRDY_MASK OR
                R_V7M_FPCCR_MONRDY_MASK OR R_V7M_FPCCR_LSPEN_MASK OR R_V7M_FPCCR_ASPEN_MASK)
              else value);
            value = value AND NOT R_V7M_FPCCR_RES0_MASK
        in if \<not> sec then
             let w = fpccr (v7m (cpu s)) True;
                 w = (if \<not> has_flag w R_V7M_FPCCR_LSPENS_MASK then copy_field 30 value w else w);
                 w = (if \<not> has_flag w R_V7M_FPCCR_CLRONRETS_MASK then copy_field 28 value w else w);
                 w = (if bfhfnmins s then copy_field 6 value (copy_field 4 value w) else w);
                 w = copy_field 8 value w
             in upd_v7m (\<lambda>e. e\<lparr>fpccr := (\<lambda>b. if b then w else value AND R_V7M_FPCCR_BANKED_MASK)\<rparr>) s
           else upd_v7m (\<lambda>e. e\<lparr>fpccr := (fpccr e)(True := value)\<rparr>) s)"

definition write_fpdscr :: "u32 \<Rightarrow> bool \<Rightarrow> NVICState \<Rightarrow> NVICState" where
  "write_fpdscr value sec s =
     (if \<not> isar_feature_aa32_vfp_simd (isar (cpu s)) then s
      else
        let m = FPCR_AHP OR FPCR_DN OR FPCR_FZ OR FPCR_RMODE_MASK;
            m = (if isar_feature_any_fp16 (isar (cpu s)) then m OR FPCR_FZ16 else m);
            value = value AND m;
            value = (if isar_feature_aa32_lob (isar (cpu s)) then value OR push_bit FPCR_LTPSIZE_SHIFT 4 else value)
        in upd_v7m (\<lambda>e. e\<lparr>fpdscr := (fpdscr e)(sec := value)\<rparr>) s)"

section \<open>nvic\_writel\<close>

definition nvic_writel :: "u32 \<Rightarrow> u32 \<Rightarrow> MemTxAttrs \<Rightarrow> NVICState \<Rightarrow> NVICState res" where
  "nvic_writel offset value attrs s =
    (let sec = at_secure attrs; main = has_feature s ARM_FEATURE_M_MAIN;
         vfp = isar_feature_aa32_vfp_simd (isar (cpu s))
     in if 0x380 \<le> offset \<and> offset \<le> 0x3bf then Inr (write_itns offset value sec s)
        else if offset = 0xd04 then write_icsr value sec s
        else if offset = 0xd08 then Inr (upd_v7m (\<lambda>e. e\<lparr>vecbase := (vecbase e)(sec := value AND 0xffffff80)\<rparr>) s)
        else if offset = 0xd0c then Inr (write_aircr value sec s)
        else if offset = 0xd10 then
          if \<not> has_feature s ARM_FEATURE_V7 then Inr s
          else Inr (upd_v7m (\<lambda>e. e\<lparr>scr := (scr e)(sec := value AND NOT (R_V7M_SCR_SLEEPDEEP_MASK OR R_V7M_SCR_SLEEPDEEPS_MASK))\<rparr>) s)
        else if offset = 0xd14 then Inr (write_ccr value sec s)
        else if offset = 0xd24 then Inr (write_shcsr value sec s)
        else if offset = 0xd2c then
          if \<not> main then Inr s else Inr (upd_v7m (\<lambda>e. e\<lparr>hfsr := hfsr e AND NOT value\<rparr>) s)
        else if offset = 0xd30 then Inr (upd_v7m (\<lambda>e. e\<lparr>dfsr := dfsr e AND NOT value\<rparr>) s)
        else if offset = 0xd34 then
          if \<not> main then Inr s else Inr (upd_v7m (\<lambda>e. e\<lparr>mmfar := (mmfar e)(sec := value)\<rparr>) s)
        else if offset = 0xd38 then
          if \<not> main then Inr s else if \<not> sec \<and> \<not> bfhfnmins s then Inr s
          else Inr (upd_v7m (\<lambda>e. e\<lparr>bfar := value\<rparr>) s)
        else if offset = 0xd84 then
          if arm_v7m_csselr_razwi (cpu s) then Inr s
          else Inr (upd_v7m (\<lambda>e. e\<lparr>csselr := (csselr e)(sec := value AND R_V7M_CSSELR_INDEX_MASK)\<rparr>) s)
        else if offset = 0xd88 then
          if vfp then Inr (upd_v7m (\<lambda>e. e\<lparr>cpacr := (cpacr e)(sec := value AND push_bit 20 0xf)\<rparr>) s) else Inr s
        else if offset = 0xd8c then
          if sec \<and> vfp then Inr (upd_v7m (\<lambda>e. e\<lparr>nsacr := value AND push_bit 10 3\<rparr>) s) else Inr s
        else if offset = 0xd94 then Inr (write_mpu_ctrl value sec s)
        else if offset = 0xd98 then
          if value \<ge> pmsav7_dregion (cpu s) then Inr s
          else Inr (upd_cpu (\<lambda>c. c\<lparr>pmsav7 := (pmsav7 c)\<lparr>rnr := (rnr (pmsav7 c))(sec := value)\<rparr>\<rparr>) s)
        else if offset \<in> {0xd9c, 0xda4, 0xdac, 0xdb4} then Inr (write_mpu_rbar offset value sec s)
        else if offset \<in> {0xda0, 0xda8, 0xdb0, 0xdb8} then Inr (write_mpu_rasr offset value sec s)
        else if offset = 0xdc0 then Inr (write_mair False value sec s)
        else if offset = 0xdc4 then Inr (write_mair True value sec s)
        else if offset \<in> {0xdd0, 0xdd4, 0xdd8, 0xddc, 0xde0, 0xde4, 0xde8} then Inr (write_sau_regs offset value sec s)
        else if offset = 0xf00 then
          let excnum = unat (value AND 0x1ff) + NVIC_FIRST_IRQ
          in if \<not> main then Inr s
             else if excnum < num_irq s then armv7m_nvic_set_pending excnum False s
             else Inr s
        else if offset = 0xf34 then Inr (write_fpccr value sec s)
        else if offset = 0xf38 then
          if vfp then Inr (upd_v7m (\<lambda>e. e\<lparr>fpcar := (fpcar e)(sec := value AND NOT 7)\<rparr>) s) else Inr s
        else if offset = 0xf3c then Inr (write_fpdscr value sec s)
        else Inr s)"

section \<open>System register accesses\<close>

definition nvic_id :: "u8 list" where
  "nvic_id = [0x00, 0xb0, 0x1b, 0x00, 0x0d, 0xe0, 0x05, 0xb1]"

definition nvic_user_access_ok :: "NVICState \<Rightarrow> u64 \<Rightarrow> MemTxAttrs \<Rightarrow> bool" where
  "nvic_user_access_ok s offset attrs \<longleftrightarrow>
     (if offset = 0xf00 then has_flag (ccr (v7m (cpu s)) (at_secure attrs)) R_V7M_CCR_USERSETMPEND_MASK
      else False)"

text \<open>The bank of a system handler priority; \<open>None\<close> where the field reads as zero.\<close>

definition shpr_bank :: "NVICState \<Rightarrow> nat \<Rightarrow> MemTxAttrs \<Rightarrow> bool option res" where
  "shpr_bank s exc attrs =
     (if exc \<in> {ARMV7M_EXCP_MEM, ARMV7M_EXCP_USAGE, ARMV7M_EXCP_SVC, ARMV7M_EXCP_PENDSV, ARMV7M_EXCP_SYSTICK}
      then Inr (Some (at_secure attrs))
      else if exc = ARMV7M_EXCP_BUS then
        if \<not> at_secure attrs \<and> \<not> bfhfnmins s then Inr None else Inr (Some False)
      else if exc = ARMV7M_EXCP_SECURE then
        if \<not> at_secure attrs then Inr None else Inr (Some False)
      else if exc = ARMV7M_EXCP_DEBUG then Inr (Some False)
      else if 8 \<le> exc \<and> exc \<le> 10 \<or> exc = 13 then Inr None
      else Inl NotReached)"

definition irq_accessible :: "NVICState \<Rightarrow> MemTxAttrs \<Rightarrow> nat \<Rightarrow> bool" where
  "irq_accessible s attrs n \<longleftrightarrow> at_secure attrs \<or> itns s n"

definition read_irq_bits :: "(VecInfo \<Rightarrow> bool) \<Rightarrow> nat \<Rightarrow> nat \<Rightarrow> MemTxAttrs \<Rightarrow> NVICState \<Rightarrow> u32" where
  "read_irq_bits field startvec sz attrs s =
     fold (\<lambda>i val. if startvec + i < num_irq s \<and> field (vectors s (startvec + i)) \<and> irq_accessible s attrs (startvec + i)
       then val OR push_bit i 1 else val) [0..<sz * 8] 0"

definition read_irq_prios :: "nat \<Rightarrow> nat \<Rightarrow> MemTxAttrs \<Rightarrow> NVICState \<Rightarrow> u32" where
  "read_irq_prios startvec sz attrs s =
     fold (\<lambda>i val. if startvec + i < num_irq s \<and> irq_accessible s attrs (startvec + i)
       then val OR push_bit (8 * i) (word_of_int (prio (vectors s (startvec + i)))) else val) [0..<sz] 0"

fun read_shpr :: "nat \<Rightarrow> MemTxAttrs \<Rightarrow> NVICState \<Rightarrow> nat list \<Rightarrow> u32 \<Rightarrow> u32 res" where
  "read_shpr base attrs s [] val = Inr val"
| "read_shpr base attrs s (i # is) val =
     res_bind (shpr_bank s (base + i) attrs) (\<lambda>sbank.
       case sbank of
         None \<Rightarrow> read_shpr base attrs s is val
       | Some b \<Rightarrow> res_bind (get_prio (base + i) b s) (\<lambda>p.
           read_shpr base attrs s is (deposit32 val (i * 8) 8 (word_of_int p))))"

definition read_cfsr :: "u32 \<Rightarrow> nat \<Rightarrow> MemTxAttrs \<Rightarrow> NVICState \<Rightarrow> u32 res" where
  "read_cfsr offset sz attrs s =
     (if \<not> has_feature s ARM_FEATURE_M_MAIN then Inr 0
      else
        let e = v7m (cpu s); sec = at_secure attrs;
            val = (if \<not> sec \<and> \<not> bfhfnmins s then cfsr e sec AND NOT R_V7M_CFSR_BFSR_MASK
                   else cfsr e sec OR (cfsr e False AND R_V7M_CFSR_BFSR_MASK));
            start = unat (offset - 0xd28) * 8
        in assert_that (sz * 8 > 0 \<and> start + sz * 8 \<le> 32) (Inr (extract32 val start (sz * 8))))"

definition sysreg_read_value :: "u32 \<Rightarrow> nat \<Rightarrow> MemTxAttrs \<Rightarrow> NVICState \<Rightarrow> u32 res" where
  "sysreg_read_value offset sz attrs s =
    (let o' = unat offset
     in if 0x100 \<le> o' \<and> o' \<le> 0x13f then Inr (read_irq_bits enabled (8 * (o' + 0x80 - 0x180) + NVIC_FIRST_IRQ) sz attrs s)
        else if 0x180 \<le> o' \<and> o' \<le> 0x1bf then Inr (read_irq_bits enabled (8 * (o' - 0x180) + NVIC_FIRST_IRQ) sz attrs s)
        else if 0x200 \<le> o' \<and> o' \<le> 0x23f then Inr (read_irq_bits pending (8 * (o' + 0x80 - 0x280) + NVIC_FIRST_IRQ) sz attrs s)
        else if 0x280 \<le> o' \<and> o' \<le> 0x2bf then Inr (read_irq_bits pending (8 * (o' - 0x280) + NVIC_FIRST_IRQ) sz attrs s)
        else if 0x300 \<le> o' \<and> o' \<le> 0x33f then
          if \<not> has_feature s ARM_FEATURE_V7 then Inr 0
          else Inr (read_irq_bits active (8 * (o' - 0x300) + NVIC_FIRST_IRQ) sz attrs s)
        else if 0x400 \<le> o' \<and> o' \<le> 0x5ef then Inr (read_irq_prios (o' - 0x400 + NVIC_FIRST_IRQ) sz attrs s)
        else if 0xd18 \<le> o' \<and> o' \<le> 0xd1b \<and> \<not> has_feature s ARM_FEATURE_M_MAIN then Inr 0
        else if 0xd18 \<le> o' \<and> o' \<le> 0xd23 then read_shpr (o' - 0xd14) attrs s [0..<sz] 0
        else if 0xd28 \<le> o' \<and> o' \<le> 0xd2b then read_cfsr offset sz attrs s
        else if 0xfe0 \<le> o' \<and> o' \<le> 0xfff then
          if offset AND 3 \<noteq> 0 then Inr 0 else Inr (ucast (nvic_id ! ((o' - 0xfe0) div 4)))
        else if sz = 4 then Inr (nvic_readl s offset attrs)
        else Inr 0)"

definition nvic_sysreg_read :: "u64 \<Rightarrow> nat \<Rightarrow> MemTxAttrs \<Rightarrow> NVICState \<Rightarrow> (MemTxResult \<times> u64 option) res" where
  "nvic_sysreg_read addr sz attrs s =
     (if at_user attrs \<and> \<not> nvic_user_access_ok s addr attrs then Inr (MEMTX_ERROR, None)
      else res_bind (sysreg_read_value (ucast addr) sz attrs s) (\<lambda>val. Inr (MEMTX_OK, Some (ucast val))))"

text \<open>The value \<open>1 << i\<close> of type \<open>int\<close>, converted to 64 bits.\<close>

definition int_bit :: "nat \<Rightarrow> u64" where
  "int_bit i = scast (push_bit i 1 :: u32)"

definition write_irq_enable :: "bool \<Rightarrow> nat \<Rightarrow> u64 \<Rightarrow> nat \<Rightarrow> MemTxAttrs \<Rightarrow> NVICState \<Rightarrow> NVICState" where
  "write_irq_enable setval startvec value sz attrs s =
     fold (\<lambda>i s. if startvec + i < num_irq s \<and> has_flag value (int_bit i) \<and> irq_accessible s attrs (startvec + i)
       then vec_upd (False, startvec + i) (\<lambda>v. v\<lparr>enabled := setval\<rparr>) s else s) [0..<sz * 8] s"

definition write_irq_pend :: "bool \<Rightarrow> nat \<Rightarrow> u64 \<Rightarrow> nat \<Rightarrow> MemTxAttrs \<Rightarrow> NVICState \<Rightarrow> NVICState" where
  "write_irq_pend setval startvec value sz attrs s =
     fold (\<lambda>i s. if startvec + i < num_irq s \<and> has_flag value (int_bit i) \<and> irq_accessible s attrs (startvec + i) \<and>
         \<not> (\<not> setval \<and> level (vectors s (startvec + i)) \<noteq> 0 \<and> \<not> active (vectors s (startvec + i)))
       then vec_upd (False, startvec + i) (\<lambda>v. v\<lparr>pending := setval\<rparr>) s else s) [0..<sz * 8] s"

fun write_irq_prios :: "nat \<Rightarrow> u64 \<Rightarrow> MemTxAttrs \<Rightarrow> nat list \<Rightarrow> NVICState \<Rightarrow> NVICState res" where
  "write_irq_prios startvec value attrs [] s = Inr s"
| "write_irq_prios startvec value attrs (i # is) s =
     (if startvec + i < num_irq s then
        if irq_accessible s attrs (startvec + i)
        then res_bind (set_prio (startvec + i) False (ucast (drop_bit (i * 8) value AND 0xff)) s)
          (write_irq_prios startvec value attrs is)
        else write_irq_prios startvec value attrs is s
      else Inr s)"

fun write_shpr :: "nat \<Rightarrow> u64 \<Rightarrow> MemTxAttrs \<Rightarrow> nat list \<Rightarrow> NVICState \<Rightarrow> NVICState res" where
  "write_shpr base value attrs [] s = Inr s"
| "write_shpr base value attrs (i # is) s =
     res_bind (shpr_bank s (base + i) attrs) (\<lambda>sbank.
       case sbank of
         None \<Rightarrow> write_shpr base value attrs is s
       | Some b \<Rightarrow> res_bind (set_prio (base + i) b (ucast (extract32 (ucast value) (i * 8) 8)) s)
           (write_shpr base value attrs is))"

definition write_cfsr :: "u32 \<Rightarrow> u64 \<Rightarrow> MemTxAttrs \<Rightarrow> NVICState \<Rightarrow> NVICState" where
  "write_cfsr offset value attrs s =
     (if \<not> has_feature s ARM_FEATURE_M_MAIN then s
      else
        let sec = at_secure attrs;
            value = push_bit (unat (offset - 0xd28) * 8) value;
            value = (if \<not> sec \<and> \<not> bfhfnmins s then value AND NOT R_V7M_CFSR_BFSR_MASK else value);
            s = upd_v7m (\<lambda>e. e\<lparr>cfsr := (cfsr e)(sec := cfsr e sec AND NOT (ucast value))\<rparr>) s
        in if sec
           then upd_v7m (\<lambda>e. e\<lparr>cfsr := (cfsr e)(False := cfsr e False AND NOT (ucast (value AND R_V7M_CFSR_BFSR_MASK)))\<rparr>) s
           else s)"

definition sysreg_write_value :: "u32 \<Rightarrow> u64 \<Rightarrow> nat \<Rightarrow> MemTxAttrs \<Rightarrow> NVICState \<Rightarrow> NVICState res" where
  "sysreg_write_value offset value sz attrs s =
    (let o' = unat offset
     in if 0x100 \<le> o' \<and> o' \<le> 0x13f
        then Inr (nvic_irq_update (write_irq_enable True (8 * (o' + 0x80 - 0x180) + NVIC_FIRST_IRQ) value sz attrs s))
        else if 0x180 \<le> o' \<and> o' \<le> 0x1bf
        then Inr (nvic_irq_update (write_irq_enable False (8 * (o' - 0x180) + NVIC_FIRST_IRQ) value sz attrs s))
        else if 0x200 \<le> o' \<and> o' \<le> 0x23f
        then Inr (nvic_irq_update (write_irq_pend True (8 * (o' + 0x80 - 0x280) + NVIC_FIRST_IRQ) value sz attrs s))
        else if 0x280 \<le> o' \<and> o' \<le> 0x2bf
        then Inr (nvic_irq_update (write_irq_pend False (8 * (o' - 0x280) + NVIC_FIRST_IRQ) value sz attrs s))
        else if 0x300 \<le> o' \<and> o' \<le> 0x33f then Inr s
        else if 0x400 \<le> o' \<and> o' \<le> 0x5ef
        then res_bind (write_irq_prios (o' - 0x400 + NVIC_FIRST_IRQ) value attrs [0..<sz] s) (\<lambda>s. Inr (nvic_irq_update s))
        else if 0xd18 \<le> o' \<and> o' \<le> 0xd1b \<and> \<not> has_feature s ARM_FEATURE_M_MAIN then Inr s
        else if 0xd18 \<le> o' \<and> o' \<le> 0xd23
        then res_bind (write_shpr (o' - 0xd14) value attrs [0..<sz] s) (\<lambda>s. Inr (nvic_irq_update s))
        else if 0xd28 \<le> o' \<and> o' \<le> 0xd2b then Inr (write_cfsr offset value attrs s)
        else if sz = 4 then nvic_writel offset (ucast value) attrs s
        else Inr s)"

definition nvic_sysreg_write :: "u64 \<Rightarrow> u64 \<Rightarrow> nat \<Rightarrow> MemTxAttrs \<Rightarrow> NVICState \<Rightarrow> (MemTxResult \<times> NVICState) res" where
  "nvic_sysreg_write addr value sz attrs s =
     (if at_user attrs \<and> \<not> nvic_user_access_ok s addr attrs then Inr (MEMTX_ERROR, s)
      else res_bind (sysreg_write_value (ucast addr) value sz attrs s) (\<lambda>s. Inr (MEMTX_OK, s)))"

end
