(* ===== verification/Nvic_Ops.thy ===== *)
theory Nvic_Ops
  imports Nvic_Regs
begin

text \<open>
  The invariant of the interrupt controller and the operations that keep it: after every operation
  the cached choice of exception is the one the vectors demand, and the output line says whether it
  preempts the active exceptions.
\<close>

section \<open>Recomputing\<close>

lemma recompute_eta:
  "nvic_recompute_state s = s\<lparr>vectpending := vectpending (nvic_recompute_state s),
     vectpending_is_s_banked := vectpending_is_s_banked (nvic_recompute_state s),
     exception_prio := exception_prio (nvic_recompute_state s),
     vectpending_prio := vectpending_prio (nvic_recompute_state s)\<rparr>"
  by (simp add: nvic_recompute_state_def nvic_recompute_state_secure_def Let_def case_prod_unfold)

lemma recompute_frame [simp]:
  "cpu (nvic_recompute_state s) = cpu s" "vectors (nvic_recompute_state s) = vectors s"
  "sec_vectors (nvic_recompute_state s) = sec_vectors s" "prigroup (nvic_recompute_state s) = prigroup s"
  "num_prio_bits (nvic_recompute_state s) = num_prio_bits s" "itns (nvic_recompute_state s) = itns s"
  "num_irq (nvic_recompute_state s) = num_irq s" "excpout (nvic_recompute_state s) = excpout s"
  "sysresetreq (nvic_recompute_state s) = sysresetreq s"
  "system_reset_requests (nvic_recompute_state s) = system_reset_requests s"
  by (subst recompute_eta, simp)+

text \<open>The recomputation reads everything but line levels and the cached fields themselves.\<close>

definition same_vec :: "VecInfo \<Rightarrow> VecInfo \<Rightarrow> bool" where
  "same_vec v v' \<longleftrightarrow> prio v = prio v' \<and> enabled v = enabled v' \<and> pending v = pending v' \<and> active v = active v'"

definition same_inputs :: "NVICState \<Rightarrow> NVICState \<Rightarrow> bool" where
  "same_inputs s s' \<longleftrightarrow> features (cpu s) = features (cpu s') \<and> aircr_of s = aircr_of s' \<and>
     prigroup s = prigroup s' \<and> itns s = itns s' \<and> num_irq s = num_irq s' \<and>
     (\<forall>i. same_vec (vectors s i) (vectors s' i)) \<and> (\<forall>i. same_vec (sec_vectors s i) (sec_vectors s' i))"

lemma same_inputs_refl [simp]: "same_inputs s s"
  by (simp add: same_inputs_def same_vec_def)

lemma recompute_cong:
  assumes "same_inputs s s'"
  shows "vectpending (nvic_recompute_state s) = vectpending (nvic_recompute_state s')"
    and "exception_prio (nvic_recompute_state s) = exception_prio (nvic_recompute_state s')"
    and "vectpending_prio (nvic_recompute_state s) = vectpending_prio (nvic_recompute_state s')"
    and "has_feature s ARM_FEATURE_M_SECURITY \<or> vectpending_is_s_banked s = vectpending_is_s_banked s' \<Longrightarrow>
      vectpending_is_s_banked (nvic_recompute_state s) = vectpending_is_s_banked (nvic_recompute_state s')"
proof -
  have feat: "has_feature s = has_feature s'" using assms by (simp add: same_inputs_def arm_feature_def fun_eq_iff)
  have vec: "prio (vectors s i) = prio (vectors s' i)" "enabled (vectors s i) = enabled (vectors s' i)"
    "pending (vectors s i) = pending (vectors s' i)" "active (vectors s i) = active (vectors s' i)"
    "prio (sec_vectors s i) = prio (sec_vectors s' i)" "enabled (sec_vectors s i) = enabled (sec_vectors s' i)"
    "pending (sec_vectors s i) = pending (sec_vectors s' i)" "active (sec_vectors s i) = active (sec_vectors s' i)" for i
    using assms by (simp_all add: same_inputs_def same_vec_def)
  have rest: "aircr_of s = aircr_of s'" "prigroup s = prigroup s'" "itns s = itns s'" "num_irq s = num_irq s'"
    using assms by (simp_all add: same_inputs_def)
  have m: "nvic_gprio_mask s = nvic_gprio_mask s'" by (simp add: nvic_gprio_mask_def fun_eq_iff rest)
  have g: "exc_group_prio s = exc_group_prio s'" by (simp add: exc_group_prio_def fun_eq_iff m rest)
  have t: "exc_targets_secure s = exc_targets_secure s'"
    unfolding exc_targets_secure_def fun_eq_iff feat rest by simp
  have "recompute_step s = recompute_step s'"
    by (simp add: recompute_step_def fun_eq_iff vec Let_def)
  moreover have sec_v: "prio (if b then sec_vectors s i else vectors s i) = prio (if b then sec_vectors s' i else vectors s' i)"
    "enabled (if b then sec_vectors s i else vectors s i) = enabled (if b then sec_vectors s' i else vectors s' i)"
    "pending (if b then sec_vectors s i else vectors s i) = pending (if b then sec_vectors s' i else vectors s' i)"
    "active (if b then sec_vectors s i else vectors s i) = active (if b then sec_vectors s' i else vectors s' i)" for b i
    by (simp_all add: vec)
  have "recompute_secure_step s = recompute_secure_step s'"
    unfolding recompute_secure_step_def fun_eq_iff Let_def sec_v m g t by simp
  ultimately show
    "vectpending (nvic_recompute_state s) = vectpending (nvic_recompute_state s')"
    "exception_prio (nvic_recompute_state s) = exception_prio (nvic_recompute_state s')"
    "vectpending_prio (nvic_recompute_state s) = vectpending_prio (nvic_recompute_state s')"
    "has_feature s ARM_FEATURE_M_SECURITY \<or> vectpending_is_s_banked s = vectpending_is_s_banked s' \<Longrightarrow>
      vectpending_is_s_banked (nvic_recompute_state s) = vectpending_is_s_banked (nvic_recompute_state s')"
    by (auto simp: nvic_recompute_state_def nvic_recompute_state_secure_def Let_def case_prod_unfold feat m rest)
qed

lemma vectpending_is_s_banked_recompute:
  "\<not> has_feature s ARM_FEATURE_M_SECURITY \<Longrightarrow>
   vectpending_is_s_banked (nvic_recompute_state s) = vectpending_is_s_banked s"
  by (simp add: nvic_recompute_state_def Let_def case_prod_unfold)

text \<open>A state whose cached fields are those of the recomputation.\<close>

lemma recompute_fixI:
  assumes "same_inputs s t"
    and "vectpending s = vectpending (nvic_recompute_state t)"
    and "vectpending_is_s_banked s = vectpending_is_s_banked (nvic_recompute_state t)"
    and "exception_prio s = exception_prio (nvic_recompute_state t)"
    and "vectpending_prio s = vectpending_prio (nvic_recompute_state t)"
  shows "nvic_recompute_state s = s"
proof -
  have "vectpending_is_s_banked (nvic_recompute_state s) = vectpending_is_s_banked s"
  proof (cases "has_feature s ARM_FEATURE_M_SECURITY")
    case True
    with recompute_cong(4) [OF assms(1)] assms(3) show ?thesis by simp
  qed (simp add: vectpending_is_s_banked_recompute)
  with recompute_cong(1-3) [OF assms(1)] assms(2-5) show ?thesis
    by (subst recompute_eta) simp
qed

section \<open>The invariant\<close>

definition nvic_inv :: "NVICState \<Rightarrow> bool" where
  "nvic_inv s \<longleftrightarrow> nvic_wf s \<and> nvic_recompute_state s = s \<and>
     line_level (excpout s) = (if vectpending_prio s < exception_prio s then 1 else 0)"

lemma nvic_irq_update_alt:
  "nvic_irq_update s = (nvic_recompute_state s)\<lparr>excpout := excpout s @
     [if vectpending_prio (nvic_recompute_state s) < exception_prio (nvic_recompute_state s) then 1 else 0]\<rparr>"
  by (simp add: nvic_irq_update_def Let_def nvic_pending_prio_def)

lemma irq_update_frame [simp]:
  "cpu (nvic_irq_update s) = cpu s" "vectors (nvic_irq_update s) = vectors s"
  "sec_vectors (nvic_irq_update s) = sec_vectors s" "prigroup (nvic_irq_update s) = prigroup s"
  "num_prio_bits (nvic_irq_update s) = num_prio_bits s" "itns (nvic_irq_update s) = itns s"
  "num_irq (nvic_irq_update s) = num_irq s" "sysresetreq (nvic_irq_update s) = sysresetreq s"
  "system_reset_requests (nvic_irq_update s) = system_reset_requests s"
  "vec_at (nvic_irq_update s) p = vec_at s p"
  by (simp_all add: nvic_irq_update_alt vec_at_def)

lemma nvic_wf_cached:
  assumes "nvic_wf s" and "cpu t = cpu s" and "vectors t = vectors s" and "sec_vectors t = sec_vectors s"
    and "prigroup t = prigroup s" and "num_prio_bits t = num_prio_bits s" and "num_irq t = num_irq s"
    and "vectpending_is_s_banked t \<Longrightarrow> has_feature s ARM_FEATURE_M_SECURITY"
  shows "nvic_wf t"
proof -
  have "vec_at t = vec_at s" by (simp add: vec_at_def fun_eq_iff assms)
  with assms show ?thesis by (simp add: nvic_wf_def)
qed

lemma recompute_banked_feature:
  assumes "nvic_wf s" and "vectpending_is_s_banked (nvic_recompute_state s)"
  shows "has_feature s ARM_FEATURE_M_SECURITY"
  using assms vectpending_is_s_banked_recompute [of s]
  by (cases "has_feature s ARM_FEATURE_M_SECURITY") (simp_all add: nvic_wf_def)

lemma nvic_wf_recompute: "nvic_wf s \<Longrightarrow> nvic_wf (nvic_recompute_state s)"
  by (rule nvic_wf_cached) (auto intro: recompute_banked_feature)

lemma nvic_inv_irq_update: "nvic_wf s \<Longrightarrow> nvic_inv (nvic_irq_update s)"
proof -
  assume wf: "nvic_wf s"
  have "same_inputs (nvic_irq_update s) s" by (simp add: same_inputs_def same_vec_def)
  then have "nvic_recompute_state (nvic_irq_update s) = nvic_irq_update s"
    by (rule recompute_fixI) (simp_all add: nvic_irq_update_alt)
  moreover have "nvic_wf (nvic_irq_update s)"
    by (rule nvic_wf_cached [OF wf]) (auto simp: nvic_irq_update_alt intro: recompute_banked_feature [OF wf])
  ultimately show ?thesis by (simp add: nvic_inv_def nvic_irq_update_alt)
qed

text \<open>Steps that change nothing the recomputation reads.\<close>

lemma nvic_inv_same_inputs:
  assumes "nvic_inv s" and "same_inputs t s" and "nvic_wf t" and "excpout t = excpout s"
    and "vectpending t = vectpending s" and "vectpending_is_s_banked t = vectpending_is_s_banked s"
    and "exception_prio t = exception_prio s" and "vectpending_prio t = vectpending_prio s"
  shows "nvic_inv t"
proof -
  have "nvic_recompute_state s = s" using assms(1) by (simp add: nvic_inv_def)
  then have "nvic_recompute_state t = t" using assms(2,5-8) by (intro recompute_fixI [of t s]) simp_all
  with assms show ?thesis by (simp add: nvic_inv_def)
qed

lemma nvic_wf_cpu: "\<lbrakk>nvic_wf s; features c = features (cpu s)\<rbrakk> \<Longrightarrow> nvic_wf (s\<lparr>cpu := c\<rparr>)"
proof -
  assume "nvic_wf s" "features c = features (cpu s)"
  moreover have "vec_at (s\<lparr>cpu := c\<rparr>) = vec_at s" by (simp add: vec_at_def fun_eq_iff)
  ultimately show ?thesis by (simp add: nvic_wf_def arm_feature_def)
qed

lemma nvic_inv_cpu:
  assumes "nvic_inv s" and "features c = features (cpu s)" and "aircr (v7m c) = aircr_of s"
  shows "nvic_inv (s\<lparr>cpu := c\<rparr>)"
  using assms
  by (intro nvic_inv_same_inputs [OF assms(1)])
    (simp_all add: same_inputs_def same_vec_def nvic_wf_cpu nvic_inv_def)

lemma nvic_inv_wf: "nvic_inv s \<Longrightarrow> nvic_wf s"
  by (simp add: nvic_inv_def)

lemma nvic_inv_level:
  assumes "nvic_inv s" and "NVIC_FIRST_IRQ \<le> n"
  shows "nvic_inv (vec_upd (False, n) (\<lambda>v. v\<lparr>level := l\<rparr>) s)"
  using assms nvic_wf_vec [OF nvic_inv_wf [OF assms(1)], of "(False, n)"]
  by (intro nvic_inv_same_inputs [OF assms(1)] nvic_wf_vec_upd)
    (simp_all add: same_inputs_def same_vec_def vec_upd_at nvic_inv_wf)

section \<open>Pending\<close>

lemma nvic_inv_pending:
  "nvic_wf s \<Longrightarrow> nvic_inv (nvic_irq_update (vec_upd p (\<lambda>v. v\<lparr>pending := b\<rparr>) s))"
  by (intro nvic_inv_irq_update nvic_wf_vec_upd) (simp_all add: nvic_wf_vec)

lemma nvic_inv_set_pending_vec: "nvic_inv s \<Longrightarrow> nvic_inv (set_pending_vec p s)"
  by (simp add: set_pending_vec_def nvic_inv_pending nvic_inv_wf)

lemma nvic_inv_force_hardfault: "nvic_inv s \<Longrightarrow> nvic_inv (force_hardfault s)"
  by (rule nvic_inv_cpu) simp_all

lemma nvic_inv_clear_pending:
  "\<lbrakk>nvic_inv s; armv7m_nvic_clear_pending irq sec s = Inr s'\<rbrakk> \<Longrightarrow> nvic_inv s'"
  by (auto simp: armv7m_nvic_clear_pending_def assert_that_eq_Inr Let_def nvic_inv_pending nvic_inv_wf split: if_splits)

lemma nvic_inv_do_set_pending:
  "\<lbrakk>nvic_inv s; do_armv7m_nvic_set_pending irq sec derived s = Inr s'\<rbrakk> \<Longrightarrow> nvic_inv s'"
  by (auto simp: do_armv7m_nvic_set_pending_def assert_that_eq_Inr Let_def
      intro!: nvic_inv_set_pending_vec nvic_inv_force_hardfault split: if_splits)

lemmas nvic_inv_set_pending =
  nvic_inv_do_set_pending [where derived = False, folded armv7m_nvic_set_pending_def]
  nvic_inv_do_set_pending [where derived = True, folded armv7m_nvic_set_pending_derived_def]

section \<open>Taking and completing exceptions\<close>

lemma write_v7m_exception_frame [simp]:
  "features (write_v7m_exception n c) = features c" "aircr (v7m (write_v7m_exception n c)) = aircr (v7m c)"
  "exception (v7m (write_v7m_exception n c)) = n"
  by (simp_all add: write_v7m_exception_def Let_def)

lemma exception_prio_recompute_le:
  assumes "nvic_wf s"
  shows "exception_prio (nvic_recompute_state s) \<le> NVIC_NOEXC_PRIO"
proof (cases "has_feature s ARM_FEATURE_M_SECURITY")
  case True
  then show ?thesis
    unfolding nvic_recompute_sec [OF True assms] Let_def by (auto split: option.split simp: Min_le_iff)
next
  case False
  have "Min (insert NVIC_NOEXC_PRIO (f ` A)) \<le> NVIC_NOEXC_PRIO" if "finite A" for f and A :: "nat set"
    using that by (simp add: Min_le_iff)
  from group_prio_mono [OF this [of "{i \<in> {1..<num_irq s}. active (vectors s i)}" "\<lambda>i. prio (vectors s i)"], of s]
  show ?thesis
    unfolding nvic_recompute_ns [OF False assms] by (simp add: group_prio_NOEXC [OF assms])
qed

text \<open>An offered priority below the idle one belongs to an enabled pending exception.\<close>

lemma offered_ready:
  assumes "nvic_wf s" and "vectpending_prio (nvic_recompute_state s) < NVIC_NOEXC_PRIO"
  defines "e \<equiv> (vectpending_is_s_banked (nvic_recompute_state s), vectpending (nvic_recompute_state s))"
  shows "1 < snd e \<and> snd e < num_irq s \<and> enabled (vec_at s e) \<and> pending (vec_at s e)"
proof -
  have r: "\<not> enabled (vectors s 1)" using nvic_wf_vec [OF assms(1), of "(False, 1)"] by (simp add: vec_ok_def)
  have "1 \<le> snd e \<and> snd e < num_irq s \<and> enabled (vec_at s e) \<and> pending (vec_at s e) \<and> sec_exists e"
  proof (cases "has_feature s ARM_FEATURE_M_SECURITY")
    case True
    show ?thesis
    proof (cases "sec_scan.scan s (entries [1..<num_irq s])")
      case None
      then show ?thesis using assms(2) unfolding nvic_recompute_sec [OF True assms(1)] by (simp add: Let_def)
    next
      case (Some v)
      then have "e = v" unfolding e_def nvic_recompute_sec [OF True assms(1)] by (simp add: Let_def)
      with sec_scan.scan_SomeD(1,2) [OF Some] show ?thesis
        by (simp add: set_entries sec_ready_def del: One_nat_def)
    qed
  next
    case False
    then have b: "\<not> fst e" using assms(1) recompute_banked_feature [OF assms(1)] by (auto simp: e_def)
    show ?thesis
    proof (cases "ns_scan.scan s [1..<num_irq s]")
      case None
      then show ?thesis using assms(2) unfolding nvic_recompute_ns [OF False assms(1)] None by simp
    next
      case (Some v)
      then have "snd e = v" unfolding e_def nvic_recompute_ns [OF False assms(1)] Some by simp
      with b ns_scan.scan_SomeD(1,2) [OF Some] show ?thesis by (cases e) (auto simp: sec_exists_def)
    qed
  qed
  moreover have "e \<noteq> (True, 1)" using calculation by (auto simp: sec_exists_def exc_is_banked_def)
  moreover have "e \<noteq> (False, 1)" using calculation r by auto
  ultimately show ?thesis by (cases e; cases "snd e = 1") auto
qed

lemma nvic_exec_prio_le: "nvic_exec_prio s \<le> exception_prio s"
  unfolding nvic_exec_prio_def Let_def by (rule min.cobounded2)

definition acknowledged :: "NVICState \<Rightarrow> NVICState" where
  "acknowledged s = nvic_irq_update (let s = vec_upd (vectpending_is_s_banked s, vectpending s)
     (\<lambda>v. v\<lparr>active := True, pending := False\<rparr>) s
     in s\<lparr>cpu := write_v7m_exception (word_of_nat (vectpending s)) (cpu s)\<rparr>)"

lemma acknowledge_eq:
  assumes "nvic_inv s"
  shows "armv7m_nvic_can_take_pending_exception s \<Longrightarrow> armv7m_nvic_acknowledge_irq s = Inr (acknowledged s)"
    and "\<not> armv7m_nvic_can_take_pending_exception s \<Longrightarrow> armv7m_nvic_acknowledge_irq s = Inl AssertFailed"
proof -
  have fx: "nvic_recompute_state s = s" and wf: "nvic_wf s" using assms by (simp_all add: nvic_inv_def)
  show "armv7m_nvic_acknowledge_irq s = Inr (acknowledged s)" if can: "armv7m_nvic_can_take_pending_exception s"
  proof -
    have lt: "vectpending_prio s < nvic_exec_prio s"
      using can by (simp add: armv7m_nvic_can_take_pending_exception_def nvic_pending_prio_def)
    then have "vectpending_prio s < NVIC_NOEXC_PRIO"
      using nvic_exec_prio_le [of s] exception_prio_recompute_le [OF wf] fx by simp
    then have "1 < vectpending s \<and> vectpending s < num_irq s \<and>
        enabled (vec_at s (vectpending_is_s_banked s, vectpending s)) \<and>
        pending (vec_at s (vectpending_is_s_banked s, vectpending s))"
      using offered_ready [OF wf] fx by simp
    with lt show ?thesis
      by (simp add: armv7m_nvic_acknowledge_irq_def acknowledged_def Let_def assert_that_def)
  qed
  show "armv7m_nvic_acknowledge_irq s = Inl AssertFailed" if "\<not> armv7m_nvic_can_take_pending_exception s"
    using that by (simp add: armv7m_nvic_acknowledge_irq_def Let_def assert_that_def
        armv7m_nvic_can_take_pending_exception_def nvic_pending_prio_def)
qed

lemma nvic_inv_acknowledged:
  assumes "nvic_inv s"
  shows "nvic_inv (acknowledged s)"
  unfolding acknowledged_def Let_def
  by (intro nvic_inv_irq_update nvic_wf_cpu nvic_wf_vec_upd nvic_inv_wf [OF assms])
    (simp_all add: nvic_wf_vec nvic_inv_wf [OF assms])

lemma nvic_inv_acknowledge:
  "\<lbrakk>nvic_inv s; armv7m_nvic_acknowledge_irq s = Inr s'\<rbrakk> \<Longrightarrow> nvic_inv s'"
  by (cases "armv7m_nvic_can_take_pending_exception s") (auto simp: acknowledge_eq nvic_inv_acknowledged)

lemma nvic_inv_complete:
  assumes "nvic_inv s" and "armv7m_nvic_complete_irq irq sec s = Inr (ret, s')"
  shows "nvic_inv s'"
proof -
  have "nvic_wf (vec_upd p (\<lambda>v. v\<lparr>active := False\<rparr>) s)" for p
    using assms(1) by (intro nvic_wf_vec_upd) (simp_all add: nvic_wf_vec nvic_inv_wf)
  then show ?thesis
    using assms nvic_inv_irq_update nvic_inv_pending
    by (auto simp: armv7m_nvic_complete_irq_def assert_that_eq_Inr Let_def case_prod_unfold
        split: option.splits if_splits)
qed

section \<open>Input lines\<close>

lemma nvic_inv_set_irq_level:
  assumes "nvic_inv s" and "set_irq_level n lev s = Inr s'"
  shows "nvic_inv s'"
proof -
  have "nvic_inv (vec_upd (False, n + NVIC_FIRST_IRQ) (\<lambda>v. v\<lparr>level := word_of_int lev\<rparr>) s)"
    using assms(1) by (rule nvic_inv_level) simp
  with assms nvic_inv_set_pending(1) [OF this] show ?thesis
    by (auto simp: set_irq_level_def Let_def assert_that_eq_Inr split: if_splits)
qed

lemma nvic_inv_nmi: "\<lbrakk>nvic_inv s; nvic_nmi_trigger lev s = Inr s'\<rbrakk> \<Longrightarrow> nvic_inv s'"
  by (auto simp: nvic_nmi_trigger_def intro: nvic_inv_set_pending(1) split: if_splits)

lemma nvic_inv_systick: "\<lbrakk>nvic_inv s; nvic_systick_trigger b lev s = Inr s'\<rbrakk> \<Longrightarrow> nvic_inv s'"
  by (auto simp: nvic_systick_trigger_def intro: nvic_inv_set_pending(1) split: if_splits)

section \<open>Reset\<close>

text \<open>With nothing pending or active the recomputation offers no exception.\<close>

lemma recompute_idle:
  assumes "nvic_wf s" and "\<And>p. \<not> pending (vec_at s p) \<and> \<not> active (vec_at s p)"
  shows "vectpending (nvic_recompute_state s) = 0" and "vectpending_prio (nvic_recompute_state s) = NVIC_NOEXC_PRIO"
    and "exception_prio (nvic_recompute_state s) = NVIC_NOEXC_PRIO"
    and "vectpending_is_s_banked (nvic_recompute_state s) \<Longrightarrow> vectpending_is_s_banked s"
proof -
  have idle: "\<not> pending (vectors s i)" "\<not> active (vectors s i)" for i
    using assms(2) [of "(False, i)"] by simp_all
  have ns: "ns_scan.scan s xs = None" for xs unfolding ns_scan.scan_None_iff by (simp add: idle)
  have sec: "sec_scan.scan s xs = None" for xs
    unfolding sec_scan.scan_None_iff sec_ready_def by (simp add: assms(2))
  have "vectpending (nvic_recompute_state s) = 0 \<and> vectpending_prio (nvic_recompute_state s) = NVIC_NOEXC_PRIO \<and>
      exception_prio (nvic_recompute_state s) = NVIC_NOEXC_PRIO \<and>
      (vectpending_is_s_banked (nvic_recompute_state s) \<longrightarrow> vectpending_is_s_banked s)"
  proof (cases "has_feature s ARM_FEATURE_M_SECURITY")
    case True
    then show ?thesis unfolding nvic_recompute_sec [OF True assms(1)] sec by (simp add: Let_def assms(2))
  next
    case False
    then show ?thesis
      unfolding nvic_recompute_ns [OF False assms(1)] ns by (simp add: idle group_prio_NOEXC [OF assms(1)])
  qed
  then show "vectpending (nvic_recompute_state s) = 0" "vectpending_prio (nvic_recompute_state s) = NVIC_NOEXC_PRIO"
    "exception_prio (nvic_recompute_state s) = NVIC_NOEXC_PRIO"
    "vectpending_is_s_banked (nvic_recompute_state s) \<Longrightarrow> vectpending_is_s_banked s" by blast+
qed

lemma nvic_reset_inv:
  assumes "NVIC_FIRST_IRQ \<le> num_irq s" and "num_irq s \<le> NVIC_MAX_VECTORS" and "num_prio_bits s \<le> 8"
    and "line_level (excpout s) = 0"
  shows "nvic_inv (armv7m_nvic_reset s)"
proof -
  let ?r = "armv7m_nvic_reset s"
  have wf: "nvic_wf ?r" using assms(1-3) by (rule nvic_reset_wf)
  have "\<not> pending (vec_at ?r p) \<and> \<not> active (vec_at ?r p)" for p
    by (cases p; cases "fst p") (simp_all add: nvic_reset_vectors nvic_reset_sec_vectors vec_at_def)
  note idle = recompute_idle [OF wf this]
  have "nvic_recompute_state ?r = ?r"
    using idle by (intro recompute_fixI [of ?r ?r]) auto
  with wf assms(4) show ?thesis by (simp add: nvic_inv_def)
qed

text \<open>A device realized from its properties has room for the internal exceptions.\<close>

lemma nvic_realize_bounds:
  assumes "armv7m_nvic_realize d = Inr s"
  shows "NVIC_FIRST_IRQ \<le> num_irq s" and "num_irq s \<le> NVIC_MAX_VECTORS" and "num_prio_bits s \<le> 8"
    and "2 \<le> num_prio_bits s" and "excpout s = excpout d" and "has_feature s ARM_FEATURE_M"
  using assms by (auto simp: armv7m_nvic_realize_def Let_def split: if_splits)

end
