(* ===== verification/Nvic_Access.thy ===== *)
theory Nvic_Access
  imports Nvic_Ops
begin

text \<open>
  The guest's register accesses: every write keeps the invariant of the controller, aligned accesses
  by privileged code neither abort the emulator nor leave it, and unprivileged ones are refused.
\<close>

section \<open>Results\<close>

text \<open>A predicate on the results of a fallible operation, followed through its branches.\<close>

definition res_all :: "('a \<Rightarrow> bool) \<Rightarrow> 'a res \<Rightarrow> bool" where
  "res_all P r \<longleftrightarrow> (\<forall>x. r = Inr x \<longrightarrow> P x)"

lemma res_all_if: "\<lbrakk>res_all P a; res_all P b\<rbrakk> \<Longrightarrow> res_all P (if c then a else b)"
  by simp

lemma res_all_Inr: "P x \<Longrightarrow> res_all P (Inr x)"
  by (simp add: res_all_def)

lemma res_allI: "(\<And>x. r = Inr x \<Longrightarrow> P x) \<Longrightarrow> res_all P r"
  by (simp add: res_all_def)

lemma res_all_bind: "\<lbrakk>res_all Q r; \<And>x. Q x \<Longrightarrow> res_all P (k x)\<rbrakk> \<Longrightarrow> res_all P (res_bind r k)"
  by (cases r) (simp_all add: res_all_def)

section \<open>Writes keep the invariant\<close>

lemma nvic_wf_signal_sysresetreq: "nvic_wf s \<Longrightarrow> nvic_wf (signal_sysresetreq s)"
  by (rule nvic_wf_cached) (auto simp: signal_sysresetreq_def nvic_wf_def split: option.splits)

lemma nvic_wf_prigroup:
  assumes "nvic_wf s" and "unat w \<le> 7"
  shows "nvic_wf (s\<lparr>prigroup := (prigroup s)(b := w)\<rparr>)"
proof -
  have "vec_at (s\<lparr>prigroup := (prigroup s)(b := w)\<rparr>) = vec_at s" by (simp add: vec_at_def fun_eq_iff)
  with assms show ?thesis by (simp add: nvic_wf_def)
qed

lemma nvic_wf_itns: "nvic_wf s \<Longrightarrow> nvic_wf (s\<lparr>itns := t\<rparr>)"
  by (rule nvic_wf_cached) (auto simp: nvic_wf_def)

lemma nvic_wf_apply_updates:
  assumes "nvic_wf s" and "\<forall>u\<in>set us. \<forall>v. vec_ok (fst u) v \<longrightarrow> vec_ok (fst u) (snd u v)"
  shows "nvic_wf (apply_updates us s)"
  using assms
  by (induction us arbitrary: s) (simp_all add: apply_updates_simps nvic_wf_vec_upd nvic_wf_vec)

lemma unat_extract32_le: "l \<le> 32 \<Longrightarrow> unat (extract32 v s l) < 2 ^ l"
proof -
  assume "l \<le> 32"
  then have "extract32 v s l = take_bit l (extract32 v s l)"
    by (intro bit_word_eqI) (auto simp: bit_take_bit_iff bit_extract32)
  then show ?thesis by (metis take_bit_nat_less_exp unsigned_take_bit_eq)
qed

lemma nvic_inv_write_itns: "nvic_inv s \<Longrightarrow> nvic_inv (write_itns offset value sec s)"
  by (simp add: write_itns_def Let_def nvic_inv_irq_update nvic_wf_itns nvic_inv_wf)

lemma nvic_inv_icsr_pend: "\<lbrakk>nvic_inv s; icsr_pend a b irq sec s = Inr s'\<rbrakk> \<Longrightarrow> nvic_inv s'"
  by (auto simp: icsr_pend_def split: if_splits intro: nvic_inv_set_pending(1) nvic_inv_clear_pending)

lemma nvic_inv_write_icsr: "\<lbrakk>nvic_inv s; write_icsr value sec s = Inr s'\<rbrakk> \<Longrightarrow> nvic_inv s'"
  by (auto simp: write_icsr_def res_bind_eq_Inr split: if_splits dest!: nvic_inv_icsr_pend [rotated])

lemma nvic_wf_aircr_hardfault:
  "\<lbrakk>nvic_wf s; x \<in> {-3, -1}\<rbrakk> \<Longrightarrow>
   nvic_wf (vec_upd (False, ARMV7M_EXCP_HARD) (\<lambda>v. v\<lparr>enabled := b\<rparr>) (vec_upd (True, ARMV7M_EXCP_HARD) (\<lambda>v. v\<lparr>prio := x\<rparr>) s))"
  using nvic_wf_vec [of s "(False, ARMV7M_EXCP_HARD)"] nvic_wf_vec [of s "(True, ARMV7M_EXCP_HARD)"]
  by (intro nvic_wf_vec_upd) (auto simp: vec_upd_at prio_ok_def intro!: vec_ok_prio)

lemma nvic_inv_write_aircr: "nvic_inv s \<Longrightarrow> nvic_inv (write_aircr w sec s)"
proof -
  assume "nvic_inv s"
  then have wf: "nvic_wf s" by (rule nvic_inv_wf)
  have pg: "unat (extract32 w 8 3) \<le> 7" using unat_extract32_le [of 3 w 8] by simp
  show ?thesis
    unfolding write_aircr_def Let_def
    by (auto intro!: nvic_inv_irq_update nvic_wf_aircr_hardfault nvic_wf_cpu nvic_wf_prigroup
        nvic_wf_signal_sysresetreq pg wf \<open>nvic_inv s\<close> split: if_splits)
qed

lemma nvic_inv_write_ccr: "nvic_inv s \<Longrightarrow> nvic_inv (write_ccr value sec s)"
  by (simp add: write_ccr_def Let_def nvic_inv_cpu)

lemma nvic_inv_write_shcsr: "nvic_inv s \<Longrightarrow> nvic_inv (write_shcsr w sec s)"
  unfolding write_shcsr_def
  by (simp add: nvic_inv_irq_update nvic_wf_apply_updates nvic_inv_wf shcsr_updates_def)

lemma nvic_inv_write_cpu:
  "nvic_inv s \<Longrightarrow> nvic_inv (write_mpu_ctrl w sec s)" "nvic_inv s \<Longrightarrow> nvic_inv (write_mpu_rbar offset w sec s)"
  "nvic_inv s \<Longrightarrow> nvic_inv (write_mpu_rasr offset w sec s)" "nvic_inv s \<Longrightarrow> nvic_inv (write_mair b w sec s)"
  "nvic_inv s \<Longrightarrow> nvic_inv (write_sau_regs offset w sec s)" "nvic_inv s \<Longrightarrow> nvic_inv (write_fpccr w sec s)"
  "nvic_inv s \<Longrightarrow> nvic_inv (write_fpdscr w sec s)" "nvic_inv s \<Longrightarrow> nvic_inv (write_cfsr offset w' attrs s)"
  by (simp_all add: write_mpu_ctrl_def write_mpu_rbar_def write_mpu_rasr_def write_mair_def write_sau_regs_def
      write_fpccr_def write_fpdscr_def write_cfsr_def Let_def nvic_inv_cpu)

lemma nvic_inv_writel: "\<lbrakk>nvic_inv s; nvic_writel offset w attrs s = Inr s'\<rbrakk> \<Longrightarrow> nvic_inv s'"
proof -
  assume inv: "nvic_inv s" and w: "nvic_writel offset w attrs s = Inr s'"
  have "res_all nvic_inv (nvic_writel offset w attrs s)"
    unfolding nvic_writel_def Let_def
    by (intro res_all_if res_all_Inr; (rule res_allI)?)
      (simp_all add: inv nvic_inv_cpu nvic_inv_write_itns nvic_inv_write_aircr nvic_inv_write_ccr
        nvic_inv_write_shcsr nvic_inv_write_cpu nvic_inv_write_icsr [OF inv] nvic_inv_set_pending(1) [OF inv])
  with w show ?thesis by (simp add: res_all_def)
qed

lemma nvic_wf_fold:
  assumes "nvic_wf s" and "\<And>i s. nvic_wf s \<Longrightarrow> nvic_wf (f i s)"
  shows "nvic_wf (fold f is s)"
  using assms(1) by (induction "is" arbitrary: s) (simp_all add: assms(2))

lemma nvic_wf_write_irq:
  "\<lbrakk>nvic_wf s; NVIC_FIRST_IRQ \<le> startvec\<rbrakk> \<Longrightarrow> nvic_wf (write_irq_enable b startvec w sz attrs s)"
  "\<lbrakk>nvic_wf s; NVIC_FIRST_IRQ \<le> startvec\<rbrakk> \<Longrightarrow> nvic_wf (write_irq_pend b startvec w sz attrs s)"
  unfolding write_irq_enable_def write_irq_pend_def
  by (rule nvic_wf_fold, assumption, auto intro!: nvic_wf_vec_upd simp: nvic_wf_vec simp del: vec_at_simps)+

lemma nvic_wf_set_prio: "\<lbrakk>nvic_wf s; ARMV7M_EXCP_MEM \<le> irq\<rbrakk> \<Longrightarrow> res_all nvic_wf (set_prio irq sec p s)"
proof -
  assume wf: "nvic_wf s" and irq: "ARMV7M_EXCP_MEM \<le> irq"
  have "uint (x :: u8) \<in> {0..255}" for x using uint_bounded [of x] by (simp add: zle_diff1_eq [symmetric])
  then have "nvic_wf (vec_upd (b, irq) (\<lambda>v. v\<lparr>prio := uint (x :: u8)\<rparr>) s)" for b x
    using irq by (intro nvic_wf_vec_upd wf vec_ok_prio nvic_wf_vec) (simp_all add: prio_ok_def)
  then show ?thesis by (auto simp: res_all_def set_prio_def assert_that_eq_Inr Let_def split: if_splits)
qed

lemma nvic_wf_write_irq_prios:
  "\<lbrakk>nvic_wf s; NVIC_FIRST_IRQ \<le> startvec\<rbrakk> \<Longrightarrow> res_all nvic_wf (write_irq_prios startvec w attrs is s)"
proof (induction "is" arbitrary: s)
  case (Cons i "is")
  then have "res_all nvic_wf (set_prio (startvec + i) False p s)" for p
    by (intro nvic_wf_set_prio) simp_all
  with Cons show ?case by (auto intro: res_all_bind [where Q = nvic_wf] res_all_Inr)
qed (simp add: res_all_Inr)

lemma nvic_wf_write_shpr:
  "\<lbrakk>nvic_wf s; ARMV7M_EXCP_MEM \<le> base\<rbrakk> \<Longrightarrow> res_all nvic_wf (write_shpr base w attrs is s)"
proof (induction "is" arbitrary: s)
  case (Cons i "is")
  then have "res_all nvic_wf (set_prio (base + i) b p s)" for b p
    by (intro nvic_wf_set_prio) simp_all
  from res_all_bind [OF this] Cons have "res_all nvic_wf (res_bind (set_prio (base + i) b p s) (write_shpr base w attrs is))" for b p
    by blast
  with Cons show ?case
    by (auto split: option.split intro!: res_all_bind [of "\<lambda>_. True" "shpr_bank s (base + i) attrs"] simp: res_allI)
qed (simp add: res_all_Inr)

lemma nvic_inv_sysreg_write_value:
  "nvic_inv s \<Longrightarrow> res_all nvic_inv (sysreg_write_value offset w sz attrs s)"
proof -
  assume inv: "nvic_inv s"
  note wf = nvic_inv_wf [OF inv]
  have irq: "nvic_inv (nvic_irq_update (write_irq_enable b (k + NVIC_FIRST_IRQ) w sz attrs s))"
    "nvic_inv (nvic_irq_update (write_irq_pend b (k + NVIC_FIRST_IRQ) w sz attrs s))" for b k
    by (simp_all add: nvic_inv_irq_update nvic_wf_write_irq wf)
  have upd: "res_all nvic_inv (res_bind r (\<lambda>s. Inr (nvic_irq_update s)))" if "res_all nvic_wf r" for r
    using that by (rule res_all_bind) (simp add: res_all_Inr nvic_inv_irq_update)
  have shpr: "res_all nvic_inv (if 0xd18 \<le> n \<and> n \<le> m
      then res_bind (write_shpr (n - 0xd14) w attrs [0..<sz] s) (\<lambda>s. Inr (nvic_irq_update s)) else r)"
    if "res_all nvic_inv r" for n m r
    using that by (auto intro!: upd nvic_wf_write_shpr [OF wf])
  show ?thesis
    unfolding sysreg_write_value_def Let_def
    by (intro shpr res_all_if res_all_Inr irq upd nvic_wf_write_irq_prios [OF wf] nvic_inv_write_cpu inv
        res_allI [OF nvic_inv_writel [OF inv]]) simp_all
qed

lemma nvic_inv_sysreg_write:
  "\<lbrakk>nvic_inv s; nvic_sysreg_write addr w sz attrs s = Inr (r, s')\<rbrakk> \<Longrightarrow> nvic_inv s'"
  by (auto simp: nvic_sysreg_write_def res_bind_eq_Inr split: if_splits
      dest: nvic_inv_sysreg_write_value [unfolded res_all_def, rule_format])

section \<open>Aligned accesses do not abort\<close>

definition never_aborts :: "'a res \<Rightarrow> bool" where
  "never_aborts r \<longleftrightarrow> (\<exists>x. r = Inr x)"

lemma never_aborts_Inr [simp]: "never_aborts (Inr x)"
  by (simp add: never_aborts_def)

lemma never_aborts_if: "\<lbrakk>c \<Longrightarrow> never_aborts a; never_aborts b\<rbrakk> \<Longrightarrow> never_aborts (if c then a else b)"
  by simp

lemma never_aborts_bind:
  "\<lbrakk>never_aborts r; res_all P r; \<And>x. P x \<Longrightarrow> never_aborts (k x)\<rbrakk> \<Longrightarrow> never_aborts (res_bind r k)"
  by (auto simp: never_aborts_def res_all_def)

lemma never_aborts_pending:
  assumes "irq = ARMV7M_EXCP_NMI \<or> ARMV7M_EXCP_PENDSV \<le> irq" and "irq < num_irq s" and "sec \<longrightarrow> exc_is_banked irq"
  shows "never_aborts (armv7m_nvic_set_pending irq sec s)" "never_aborts (armv7m_nvic_clear_pending irq sec s)"
  using assms
  by (auto simp: armv7m_nvic_set_pending_def do_armv7m_nvic_set_pending_def armv7m_nvic_clear_pending_def
      Let_def never_aborts_def)

lemma never_aborts_icsr_pend:
  assumes "irq = ARMV7M_EXCP_NMI \<or> ARMV7M_EXCP_PENDSV \<le> irq" and "irq < num_irq s" and "sec \<longrightarrow> exc_is_banked irq"
  shows "never_aborts (icsr_pend a b irq sec s)"
  using never_aborts_pending [OF assms] by (simp add: icsr_pend_def)

lemma num_irq_wf: "nvic_wf s \<Longrightarrow> NVIC_FIRST_IRQ \<le> num_irq s"
  by (simp add: nvic_wf_def)

lemma never_aborts_write_icsr:
  assumes "nvic_inv s"
  shows "never_aborts (write_icsr w sec s)"
proof -
  have n: "never_aborts (icsr_pend a b irq sec s)"
    if "nvic_inv s" "irq = ARMV7M_EXCP_NMI \<and> \<not> sec \<or> irq = ARMV7M_EXCP_PENDSV \<or> irq = ARMV7M_EXCP_SYSTICK" for a b irq sec s
    using that num_irq_wf [of s] by (intro never_aborts_icsr_pend) (auto simp: nvic_inv_wf exc_is_banked_def)
  have inv: "res_all nvic_inv (icsr_pend a b irq sec s)" if "nvic_inv s" for a b irq sec s
    using that by (intro res_allI) (rule nvic_inv_icsr_pend)
  show ?thesis
    unfolding write_icsr_def using assms
    by (intro never_aborts_bind [where P = nvic_inv] never_aborts_if res_all_if n inv never_aborts_Inr res_all_Inr) simp_all
qed

text \<open>
  The accesses the memory core lets through to the region: naturally aligned, of one, two or four
  bytes, inside its 4096 bytes.
\<close>

definition sysreg_access :: "u64 \<Rightarrow> nat \<Rightarrow> bool" where
  "sysreg_access addr sz \<longleftrightarrow> sz \<in> {1, 2, 4} \<and> unat addr mod sz = 0 \<and> unat addr < 0x1000"

lemma unat_sysreg_addr: "unat (addr :: u64) < 0x1000 \<Longrightarrow> unat (ucast addr :: u32) = unat addr"
  by (simp add: unsigned_ucast_eq take_bit_nat_eq_self_iff)

lemma aligned_block:
  assumes "sz \<in> {1, 2, 4 :: nat}" and "n mod sz = 0" and "b \<le> n" and "n < b + 4 * k" and "b mod 4 = 0"
  shows "n + sz \<le> b + 4 * k"
proof -
  consider "sz = 1" | "sz = 2" | "sz = 4" using assms(1) by blast
  then show ?thesis using assms by cases (simp, presburger+)
qed

lemma never_aborts_writel:
  assumes "nvic_inv s"
  shows "never_aborts (nvic_writel offset w attrs s)"
proof -
  have stir: "never_aborts (if n < num_irq s then armv7m_nvic_set_pending n False s else Inr s)"
    if "NVIC_FIRST_IRQ \<le> n" for n
    using that by (simp add: never_aborts_pending)
  show ?thesis
    unfolding nvic_writel_def Let_def
    by (intro stir never_aborts_if never_aborts_Inr never_aborts_write_icsr assms) simp_all
qed

lemma never_aborts_set_prio:
  "\<lbrakk>ARMV7M_EXCP_MEM \<le> irq; irq < num_irq s; sec \<longrightarrow> exc_is_banked irq\<rbrakk> \<Longrightarrow> never_aborts (set_prio irq sec p s)"
  "\<lbrakk>ARMV7M_EXCP_MEM \<le> irq; irq < num_irq s; sec \<longrightarrow> exc_is_banked irq\<rbrakk> \<Longrightarrow> never_aborts (get_prio irq sec s)"
  by (auto simp: set_prio_def get_prio_def Let_def)

lemma never_aborts_write_irq_prios:
  "\<lbrakk>nvic_wf s; NVIC_FIRST_IRQ \<le> startvec\<rbrakk> \<Longrightarrow> never_aborts (write_irq_prios startvec w attrs is s)"
proof (induction "is" arbitrary: s)
  case (Cons i "is")
  have "res_all nvic_wf (set_prio (startvec + i) False p s)" for p
    using Cons.prems by (intro nvic_wf_set_prio) simp_all
  with Cons show ?case
    by (auto intro!: never_aborts_bind [where P = nvic_wf] never_aborts_set_prio)
qed simp

lemma shpr_bank_ok:
  assumes "4 \<le> exc" and "exc \<le> 15"
  shows "never_aborts (shpr_bank s exc attrs)"
    and "res_all (\<lambda>b. b = Some True \<longrightarrow> exc_is_banked exc) (shpr_bank s exc attrs)"
  using assms by (auto simp: shpr_bank_def never_aborts_def res_all_def exc_is_banked_def)

lemma never_aborts_shpr:
  assumes "ARMV7M_EXCP_MEM \<le> base" and "\<forall>i\<in>set is. base + i \<le> 15"
  shows "nvic_wf s \<Longrightarrow> never_aborts (write_shpr base w attrs is s)"
    and "nvic_wf s \<Longrightarrow> never_aborts (read_shpr base attrs s is v)"
  using assms
proof (induction "is" arbitrary: s v)
  case (Cons i "is")
  note b = shpr_bank_ok [of "base + i"]
  {
    case 1
    have set: "never_aborts (set_prio (base + i) x p s)" "res_all nvic_wf (set_prio (base + i) x p s)"
      if "x \<longrightarrow> exc_is_banked (base + i)" for x p
      using 1 that num_irq_wf [of s]
      by (auto intro!: never_aborts_set_prio nvic_wf_set_prio)
    have "never_aborts (res_bind (set_prio (base + i) x p s) (write_shpr base w attrs is))"
      if "x \<longrightarrow> exc_is_banked (base + i)" for x p
      by (rule never_aborts_bind [OF set [OF that]]) (use Cons.IH(1) 1 in simp)
    then show ?case
      unfolding write_shpr.simps using b 1 Cons.IH(1) [of s]
      by (intro never_aborts_bind [OF b(1) b(2)]) (auto split: option.split)
  next
    case 2
    have "never_aborts (res_bind (get_prio (base + i) x s) (\<lambda>p. read_shpr base attrs s is (f p)))"
      if "x \<longrightarrow> exc_is_banked (base + i)" for x f
      using 2 that num_irq_wf [of s] Cons.IH(2) [of s]
      by (intro never_aborts_bind [where P = "\<lambda>_. True"] never_aborts_set_prio) (auto simp: res_all_def)
    then show ?case
      unfolding read_shpr.simps using 2 Cons.IH(2) [of s]
      by (intro never_aborts_bind [OF b(1) b(2)]) (auto split: option.split)
  }
qed simp_all

lemma never_aborts_read_cfsr:
  "\<lbrakk>sz \<in> {1, 2, 4}; unat offset mod sz = 0; 0xd28 \<le> unat offset; unat offset \<le> 0xd2b\<rbrakk> \<Longrightarrow>
   never_aborts (read_cfsr offset sz attrs s)"
proof -
  assume a: "sz \<in> {1, 2, 4}" "unat offset mod sz = 0" "0xd28 \<le> unat offset" "unat offset \<le> 0xd2b"
  then have "unat (offset - 0xd28) = unat offset - 0xd28" by (simp add: unat_sub_if')
  moreover have "unat offset + sz \<le> 0xd28 + 4 * 1" using a by (intro aligned_block) auto
  ultimately have "0 < sz * 8 \<and> unat (offset - 0xd28) * 8 + sz * 8 \<le> 32" using a by auto
  then show ?thesis by (simp add: read_cfsr_def Let_def)
qed

lemma shpr_block:
  assumes "sz \<in> {1, 2, 4}" and "n mod sz = 0" and "0xd18 \<le> n" and "n \<le> 0xd23"
  shows "\<forall>i\<in>set [0..<sz]. n - 0xd14 + i \<le> 15"
proof -
  have "n + sz \<le> 0xd18 + 4 * 3" using assms by (intro aligned_block) auto
  with assms(3) show ?thesis by auto
qed

lemma never_aborts_sysreg:
  assumes "nvic_inv s" and "sysreg_access addr sz"
  shows "never_aborts (sysreg_write_value (ucast addr) w sz attrs s)"
    and "never_aborts (sysreg_read_value (ucast addr) sz attrs s)"
proof -
  define n where "n = unat (ucast addr :: u32)"
  have n: "sz \<in> {1, 2, 4}" "n mod sz = 0"
    using assms(2) unat_sysreg_addr [of addr] by (auto simp: n_def sysreg_access_def)
  note wf = nvic_inv_wf [OF assms(1)]
  have prios: "never_aborts (res_bind (write_irq_prios (x + NVIC_FIRST_IRQ) w attrs is s) (\<lambda>s. Inr (nvic_irq_update s)))" for x "is"
    by (rule never_aborts_bind [OF never_aborts_write_irq_prios [OF wf] nvic_wf_write_irq_prios [OF wf]]) simp_all
  have shpr: "never_aborts (res_bind (write_shpr (n - 0xd14) w attrs [0..<sz] s) (\<lambda>s. Inr (nvic_irq_update s)))"
    "never_aborts (read_shpr (n - 0xd14) attrs s [0..<sz] v)" if r: "0xd18 \<le> n \<and> n \<le> 0xd23" for v
  proof -
    have base: "ARMV7M_EXCP_MEM \<le> n - 0xd14" using r by auto
    note S = never_aborts_shpr [OF base shpr_block [OF n(1,2)] wf]
    show "never_aborts (res_bind (write_shpr (n - 0xd14) w attrs [0..<sz] s) (\<lambda>s. Inr (nvic_irq_update s)))"
      using r by (intro never_aborts_bind [OF S(1) nvic_wf_write_shpr [OF wf base]]) simp_all
    show "never_aborts (read_shpr (n - 0xd14) attrs s [0..<sz] v)" using S(2) r by simp
  qed
  have cfsr: "never_aborts (read_cfsr (ucast addr) sz attrs s)" if "0xd28 \<le> n \<and> n \<le> 0xd2b"
    using that n by (intro never_aborts_read_cfsr) (simp_all add: n_def)
  show "never_aborts (sysreg_write_value (ucast addr) w sz attrs s)"
    unfolding sysreg_write_value_def Let_def n_def [symmetric]
    by (intro never_aborts_if never_aborts_Inr prios shpr(1) never_aborts_writel assms(1))
  show "never_aborts (sysreg_read_value (ucast addr) sz attrs s)"
    unfolding sysreg_read_value_def Let_def n_def [symmetric]
    by (intro never_aborts_if never_aborts_Inr shpr(2) cfsr)
qed

section \<open>Reads and writes of interrupt bits\<close>

lemma bit_fold_or:
  "bit (fold (\<lambda>i v. if P i then v OR push_bit i 1 else v) [0..<n] (0 :: 'a::len word)) k \<longleftrightarrow>
   k < n \<and> k < LENGTH('a) \<and> P k"
  by (induction n) (auto simp: bit_or_iff bit_exp_iff less_Suc_eq)

lemma bit_read_irq_bits:
  "sz \<le> 4 \<Longrightarrow> bit (read_irq_bits field startvec sz attrs s) i \<longleftrightarrow>
     i < sz * 8 \<and> startvec + i < num_irq s \<and> field (vectors s (startvec + i)) \<and> irq_accessible s attrs (startvec + i)"
  unfolding read_irq_bits_def by (auto simp: bit_fold_or)

lemma bit_int_bit: "i < 32 \<Longrightarrow> n < 32 \<Longrightarrow> bit (int_bit i) n \<longleftrightarrow> n = i"
  by (auto simp: int_bit_def bit_signed_iff bit_exp_iff min_def)

lemma has_flag_int_bit: "i < 32 \<Longrightarrow> has_flag (ucast (w :: u32)) (int_bit i) \<longleftrightarrow> bit w i"
proof -
  assume i: "i < 32"
  have "bit (ucast w :: u64) n \<longleftrightarrow> n < 32 \<and> bit w n" for n
    by (auto simp: bit_ucast_iff dest: bit_imp_le_length)
  then show ?thesis using bit_int_bit [OF i] i unfolding has_flag_iff_bit by blast
qed

text \<open>A write of a word of enable bits sets or clears the accessible interrupts whose bit is set.\<close>

lemma write_irq_enable_at:
  "vectors (write_irq_enable b startvec (ucast (w :: u32)) 4 attrs s) j =
     (if startvec \<le> j \<and> j < startvec + 32 \<and> j < num_irq s \<and> bit w (j - startvec) \<and> irq_accessible s attrs j
      then (vectors s j)\<lparr>enabled := b\<rparr> else vectors s j)"
proof -
  let ?f = "\<lambda>i s. if startvec + i < num_irq s \<and> has_flag (ucast w :: u64) (int_bit i) \<and> irq_accessible s attrs (startvec + i)
       then vec_upd (False, startvec + i) (\<lambda>v. v\<lparr>enabled := b\<rparr>) s else s"
  have frame: "num_irq (fold ?f [0..<n] s) = num_irq s \<and> itns (fold ?f [0..<n] s) = itns s" for n
    by (induction n) auto
  have "vectors (fold ?f [0..<n] s) j =
     (if startvec \<le> j \<and> j < startvec + n \<and> j < num_irq s \<and> bit w (j - startvec) \<and> irq_accessible s attrs j
      then (vectors s j)\<lparr>enabled := b\<rparr> else vectors s j)" if "n \<le> 32" for n
    using that
  proof (induction n)
    case (Suc n)
    then show ?case
      using frame [of n] by (auto simp: vec_upd_at has_flag_int_bit irq_accessible_def)
  qed auto
  from this [of 32] show ?thesis unfolding write_irq_enable_def by simp
qed

section \<open>Properties\<close>

text \<open>
  C26.  Every aligned access of one, two or four bytes to the register page has an outcome: the
  emulator never aborts.  An unprivileged access is refused, and leaves the controller as it was,
  unless it is to the software trigger register and the configuration register allows it; every
  other access succeeds.
\<close>
theorem nvic_guest_access_outcome:
  assumes "nvic_inv s" and "sysreg_access addr sz"
  shows "let refused = at_user attrs \<and>
      \<not> (addr = 0xf00 \<and> has_flag (ccr (v7m (cpu s)) (at_secure attrs)) R_V7M_CCR_USERSETMPEND_MASK)
    in (if refused then nvic_sysreg_write addr w sz attrs s = Inr (MEMTX_ERROR, s)
        else \<exists>s'. nvic_sysreg_write addr w sz attrs s = Inr (MEMTX_OK, s')) \<and>
       (if refused then nvic_sysreg_read addr sz attrs s = Inr (MEMTX_ERROR, None)
        else \<exists>v. nvic_sysreg_read addr sz attrs s = Inr (MEMTX_OK, Some v))"
  using never_aborts_sysreg(1) [OF assms, of w attrs] never_aborts_sysreg(2) [OF assms, of attrs]
  by (auto simp: nvic_sysreg_write_def nvic_sysreg_read_def never_aborts_def Let_def nvic_user_access_ok_def)

lemma sysreg_offset:
  assumes "n < 0x1000"
  shows "unat (ucast (word_of_nat n :: u64) :: u32) = n"
  using assms unat_sysreg_addr [of "word_of_nat n"] by (simp add: unat_of_nat take_bit_nat_eq_self_iff)

lemma read_irq_bits_update [simp]:
  "read_irq_bits field startvec sz attrs (nvic_irq_update s) = read_irq_bits field startvec sz attrs s"
  by (simp add: read_irq_bits_def irq_accessible_def)

lemma write_irq_enable_frame [simp]:
  "num_irq (write_irq_enable b startvec w sz attrs s) = num_irq s"
  "irq_accessible (write_irq_enable b startvec w sz attrs s) = irq_accessible s"
proof -
  let ?f = "\<lambda>i s. if startvec + i < num_irq s \<and> has_flag w (int_bit i) \<and> irq_accessible s attrs (startvec + i)
       then vec_upd (False, startvec + i) (\<lambda>v. v\<lparr>enabled := b\<rparr>) s else s"
  have "num_irq (fold ?f xs s) = num_irq s \<and> itns (fold ?f xs s) = itns s" for xs
    by (induction xs arbitrary: s) auto
  then show "num_irq (write_irq_enable b startvec w sz attrs s) = num_irq s"
    "irq_accessible (write_irq_enable b startvec w sz attrs s) = irq_accessible s"
    unfolding write_irq_enable_def by (simp_all add: irq_accessible_def fun_eq_iff)
qed


text \<open>
  C28.  A priority byte written for an implemented interrupt that is accessible to the writer reads
  back with only its upper \<open>num_prio_bits\<close> bits, and no other exception's state changes.
\<close>
theorem nvic_priority_round_trip:
  assumes "NVIC_FIRST_IRQ + n < num_irq s" and "num_irq s \<le> NVIC_MAX_VECTORS" and "\<not> at_user attrs"
    and "irq_accessible s attrs (NVIC_FIRST_IRQ + n)"
  shows "\<exists>s'. nvic_sysreg_write (word_of_nat (0x400 + n)) (ucast (p :: u8)) 1 attrs s = Inr (MEMTX_OK, s') \<and>
    nvic_sysreg_read (word_of_nat (0x400 + n)) 1 attrs s' =
      Inr (MEMTX_OK, Some (ucast (p AND field_mask (8 - num_prio_bits s) (num_prio_bits s)))) \<and>
    (\<forall>q. q \<noteq> (False, NVIC_FIRST_IRQ + n) \<longrightarrow> vec_at s' q = vec_at s q)"
proof -
  have a: "unat (ucast (word_of_nat (0x400 + n) :: u64) :: u32) = 0x400 + n"
    using assms(1,2) by (intro sysreg_offset) simp
  define x where "x = p AND field_mask (8 - num_prio_bits s) (num_prio_bits s)"
  define t where "t = vec_upd (False, NVIC_FIRST_IRQ + n) (\<lambda>v. v\<lparr>prio := uint x\<rparr>) s"
  have byte: "ucast ((ucast p :: u64) AND 0xff) = p"
    by (rule bit_word_eqI) (simp add: and_255 bit_ucast_iff bit_take_bit_iff)
  have "nvic_sysreg_write (word_of_nat (0x400 + n)) (ucast p) 1 attrs s = Inr (MEMTX_OK, nvic_irq_update t)"
    using assms a byte
    by (simp add: nvic_sysreg_write_def sysreg_write_value_def set_prio_def Let_def t_def x_def add.commute)
  moreover have "nvic_sysreg_read (word_of_nat (0x400 + n)) 1 attrs (nvic_irq_update t) = Inr (MEMTX_OK, Some (ucast x))"
    using assms a
    by (simp add: nvic_sysreg_read_def sysreg_read_value_def read_irq_prios_def t_def vec_upd_at
        irq_accessible_def add.commute)
  moreover have "\<forall>q. q \<noteq> (False, NVIC_FIRST_IRQ + n) \<longrightarrow> vec_at (nvic_irq_update t) q = vec_at s q"
    by (simp add: t_def vec_upd_at(3) del: split_paired_All)
  ultimately show ?thesis unfolding x_def by blast
qed

section \<open>Witnesses\<close>

lemma nvic_demo_inv: "nvic_inv nvic_m7" "nvic_inv nvic_m33"
  unfolding nvic_m7_def nvic_m33_def by (rule nvic_reset_inv; simp add: nvic_blank_def)+

abbreviation privileged :: MemTxAttrs where "privileged \<equiv> \<lparr>at_secure = False, at_user = False\<rparr>"
abbreviation unprivileged :: MemTxAttrs where "unprivileged \<equiv> \<lparr>at_secure = False, at_user = True\<rparr>"

theorem nvic_guest_access_outcome_witness:
  "nvic_sysreg_write 0x100 1 4 unprivileged nvic_m7 = Inr (MEMTX_ERROR, nvic_m7) \<and>
   (\<exists>s'. nvic_sysreg_write 0xd18 1 4 privileged nvic_m7 = Inr (MEMTX_OK, s'))"
  using nvic_guest_access_outcome [OF nvic_demo_inv(1), where addr = "0x100" and sz = 4 and attrs = unprivileged and w = 1]
    nvic_guest_access_outcome [OF nvic_demo_inv(1), where addr = "0xd18" and sz = 4 and attrs = privileged and w = 1]
  by (simp add: sysreg_access_def)


theorem nvic_priority_round_trip_witness:
  "\<exists>s'. nvic_sysreg_write (word_of_nat 0x404) (ucast (0xff :: u8)) 1 privileged nvic_m7 = Inr (MEMTX_OK, s') \<and>
     nvic_sysreg_read (word_of_nat 0x404) 1 privileged s' = Inr (MEMTX_OK, Some 0xf0)"
proof -
  have n: "num_irq nvic_m7 = 24" "num_prio_bits nvic_m7 = 4" "irq_accessible nvic_m7 privileged 20" by code_simp+
  have "ucast ((0xff :: u8) AND field_mask 4 4) = (0xf0 :: u64)" by code_simp
  with n nvic_priority_round_trip [of 4 nvic_m7 privileged "0xff"] show ?thesis by auto
qed

end
