(* ===== verification/Nvic_Run.thy ===== *)
theory Nvic_Run
  imports Nvic_Access
begin

text \<open>
  Runs of the interrupt controller: sequences of register writes, changes of input lines, faults and
  exception entries and returns requested by the CPU.  The invariants are proved for every event and
  carried along runs.
\<close>

section \<open>Events\<close>

text \<open>
  \<open>Set_Masks\<close> is the CPU writing \<open>BASEPRI\<close>, \<open>PRIMASK\<close> and \<open>FAULTMASK\<close>, which the controller only
  reads.
\<close>

datatype nvic_event =
    Reg_Write u64 u64 nat MemTxAttrs
  | Irq_In nat int
  | Nmi_In int
  | Systick_In bool int
  | Fault nat bool
  | Derived_Fault nat bool
  | Take
  | Return nat bool
  | Set_Masks "bool \<Rightarrow> u32" "bool \<Rightarrow> u32" "bool \<Rightarrow> u32"

fun nvic_exec :: "nvic_event \<Rightarrow> NVICState \<Rightarrow> NVICState res" where
  "nvic_exec (Reg_Write addr w sz attrs) s = res_bind (nvic_sysreg_write addr w sz attrs s) (\<lambda>(_, s). Inr s)"
| "nvic_exec (Irq_In n lev) s = set_irq_level n lev s"
| "nvic_exec (Nmi_In lev) s = nvic_nmi_trigger lev s"
| "nvic_exec (Systick_In b lev) s = nvic_systick_trigger b lev s"
| "nvic_exec (Fault irq sec) s = armv7m_nvic_set_pending irq sec s"
| "nvic_exec (Derived_Fault irq sec) s = armv7m_nvic_set_pending_derived irq sec s"
| "nvic_exec Take s = armv7m_nvic_acknowledge_irq s"
| "nvic_exec (Return irq sec) s = res_bind (armv7m_nvic_complete_irq irq sec s) (\<lambda>(_, s). Inr s)"
| "nvic_exec (Set_Masks bp pm fm) s = Inr (upd_v7m (\<lambda>e. e\<lparr>basepri := bp, primask := pm, faultmask := fm\<rparr>) s)"

primrec nvic_run :: "nvic_event list \<Rightarrow> NVICState \<Rightarrow> NVICState res" where
  "nvic_run [] s = Inr s"
| "nvic_run (ev # evs) s = res_bind (nvic_exec ev s) (nvic_run evs)"

lemma nvic_run_invariant:
  assumes "\<And>ev s. I s \<Longrightarrow> res_all I (nvic_exec ev s)" and "I s" and "nvic_run evs s = Inr s'"
  shows "I s'"
  using assms(2,3)
proof (induction evs arbitrary: s)
  case (Cons ev evs)
  with assms(1) [of s ev] show ?case by (auto simp: res_bind_eq_Inr res_all_def)
qed simp

lemma nvic_inv_exec: "nvic_inv s \<Longrightarrow> res_all nvic_inv (nvic_exec ev s)"
  by (cases ev)
    (auto simp: res_all_def res_bind_eq_Inr nvic_inv_cpu
      dest: nvic_inv_sysreg_write nvic_inv_set_irq_level nvic_inv_nmi nvic_inv_systick nvic_inv_set_pending
        nvic_inv_acknowledge nvic_inv_complete)

section \<open>Held lines\<close>

text \<open>An external interrupt whose line is high is pending or being served.\<close>

definition vec_held :: "vec_ptr \<Rightarrow> VecInfo \<Rightarrow> bool" where
  "vec_held p v \<longleftrightarrow> snd p < NVIC_FIRST_IRQ \<or> level v = 0 \<or> pending v \<or> active v"

definition nvic_held :: "NVICState \<Rightarrow> bool" where
  "nvic_held s \<longleftrightarrow> (\<forall>p. vec_held p (vec_at s p))"

lemma nvic_held_cong: "vec_at t = vec_at s \<Longrightarrow> nvic_held t = nvic_held s"
  by (simp add: nvic_held_def)

lemma nvic_held_vec_upd: "\<lbrakk>nvic_held s; vec_held p (f (vec_at s p))\<rbrakk> \<Longrightarrow> nvic_held (vec_upd p f s)"
  by (simp add: nvic_held_def vec_upd_at(3) del: split_paired_All)

lemma nvic_held_vec: "nvic_held s \<Longrightarrow> vec_held p (vec_at s p)"
  unfolding nvic_held_def by blast

lemma vec_held_flags [simp]:
  "vec_held p (v\<lparr>pending := True\<rparr>)" "vec_held p (v\<lparr>active := True\<rparr>)"
  "vec_held p (v\<lparr>enabled := b\<rparr>) = vec_held p v" "vec_held p (v\<lparr>prio := x\<rparr>) = vec_held p v"
  "vec_held p (v\<lparr>level := 0\<rparr>)" "vec_held p (v\<lparr>active := True, pending := b\<rparr>)"
  "snd p < NVIC_FIRST_IRQ \<Longrightarrow> vec_held p v"
  by (simp_all add: vec_held_def)

lemma nvic_held_update [simp]: "nvic_held (nvic_irq_update s) = nvic_held s"
  by (rule nvic_held_cong) (simp add: fun_eq_iff del: split_paired_All)

lemma nvic_held_cpu [simp]: "nvic_held (s\<lparr>cpu := c\<rparr>) = nvic_held s"
  by (rule nvic_held_cong) (simp add: vec_at_def fun_eq_iff)

lemma nvic_held_other [simp]:
  "nvic_held (s\<lparr>prigroup := g\<rparr>) = nvic_held s" "nvic_held (s\<lparr>itns := t\<rparr>) = nvic_held s"
  "nvic_held (s\<lparr>sysresetreq := l\<rparr>) = nvic_held s" "nvic_held (s\<lparr>system_reset_requests := n\<rparr>) = nvic_held s"
  by (rule nvic_held_cong, simp add: vec_at_def fun_eq_iff)+

lemma nvic_held_set_pending_vec: "nvic_held s \<Longrightarrow> nvic_held (set_pending_vec p s)"
  by (simp add: set_pending_vec_def nvic_held_vec_upd)

lemma nvic_held_do_set_pending: "nvic_held s \<Longrightarrow> res_all nvic_held (do_armv7m_nvic_set_pending irq sec derived s)"
  by (auto simp: res_all_def do_armv7m_nvic_set_pending_def assert_that_eq_Inr Let_def
      intro!: nvic_held_set_pending_vec split: if_splits)

lemmas nvic_held_set_pending =
  nvic_held_do_set_pending [where derived = False, folded armv7m_nvic_set_pending_def]
  nvic_held_do_set_pending [where derived = True, folded armv7m_nvic_set_pending_derived_def]

lemma nvic_held_clear_pending:
  "\<lbrakk>nvic_held s; irq < NVIC_FIRST_IRQ\<rbrakk> \<Longrightarrow> res_all nvic_held (armv7m_nvic_clear_pending irq sec s)"
  by (auto simp: res_all_def armv7m_nvic_clear_pending_def assert_that_eq_Inr Let_def nvic_held_vec_upd split: if_splits)

lemma nvic_held_acknowledge: "nvic_held s \<Longrightarrow> res_all nvic_held (armv7m_nvic_acknowledge_irq s)"
  by (auto simp: res_all_def armv7m_nvic_acknowledge_irq_def assert_that_eq_Inr Let_def nvic_held_vec_upd)

text \<open>Deactivating an exception while its line is high makes it pending again.\<close>

definition deactivate :: "VecInfo \<Rightarrow> VecInfo" where
  "deactivate v = v\<lparr>active := False, pending := pending v \<or> level v \<noteq> 0\<rparr>"

lemma complete_irq_eq:
  assumes "irq > ARMV7M_EXCP_RESET" and "irq < num_irq s"
  shows "res_all (\<lambda>(ret, s'). s' = s \<or> (\<exists>p. s' = nvic_irq_update (vec_upd p deactivate s))) (armv7m_nvic_complete_irq irq sec s)"
proof -
  have two: "vec_upd p (\<lambda>v. v\<lparr>pending := True\<rparr>) (vec_upd p (\<lambda>v. v\<lparr>active := False\<rparr>) s) = vec_upd p deactivate s"
    if "level (vec_at s p) \<noteq> 0" for p
    using that by (cases p) (auto simp: vec_upd_def deactivate_def vec_at_def)
  have one: "vec_upd p (\<lambda>v. v\<lparr>active := False\<rparr>) s = vec_upd p deactivate s" if "level (vec_at s p) = 0" for p
    using that by (cases p) (auto simp: vec_upd_def deactivate_def vec_at_def)
  have target: "res_all (\<lambda>(ret, s'). s' = s \<or> (\<exists>p. s' = nvic_irq_update (vec_upd p deactivate s)))
      (case target of None \<Rightarrow> Inr (ret, s)
       | Some vec \<Rightarrow> if level (vec_at (vec_upd vec (\<lambda>v. v\<lparr>active := False\<rparr>) s) vec) \<noteq> 0
           then assert_that c (Inr (ret, nvic_irq_update (vec_upd vec (\<lambda>v. v\<lparr>pending := True\<rparr>)
             (vec_upd vec (\<lambda>v. v\<lparr>active := False\<rparr>) s))))
           else Inr (ret, nvic_irq_update (vec_upd vec (\<lambda>v. v\<lparr>active := False\<rparr>) s)))" for target c and ret :: int
    by (cases target) (auto simp: res_all_def assert_that_eq_Inr vec_upd_at(3) two one)
  show ?thesis
    unfolding armv7m_nvic_complete_irq_def Let_def case_prod_unfold using assms
    by (simp only: assert_that_simps simp_thms target [unfolded case_prod_unfold])
qed

lemma nvic_held_complete: "nvic_held s \<Longrightarrow> res_all (\<lambda>(_, s'). nvic_held s') (armv7m_nvic_complete_irq irq sec s)"
proof (cases "irq > ARMV7M_EXCP_RESET \<and> irq < num_irq s")
  case True
  assume held: "nvic_held s"
  have "vec_held p (deactivate v)" for p v by (auto simp: vec_held_def deactivate_def)
  then have "nvic_held (nvic_irq_update (vec_upd p deactivate s))" for p
    using held by (simp add: nvic_held_vec_upd)
  with held complete_irq_eq [of irq s sec] True show ?thesis by (auto simp: res_all_def)
next
  case False
  then show ?thesis by (simp only: armv7m_nvic_complete_irq_def assert_that_def if_False) (simp add: res_all_def)
qed

lemma nvic_held_set_irq_level:
  assumes "nvic_held s"
  shows "res_all nvic_held (set_irq_level n lev s)"
proof -
  let ?p = "(False, n + NVIC_FIRST_IRQ)"
  let ?t = "vec_upd ?p (\<lambda>v. v\<lparr>level := word_of_int lev\<rparr>) s"
  have "nvic_held (set_pending_vec ?p ?t)"
  proof (cases "pending (vec_at ?t ?p)")
    case True
    then have "nvic_held ?t" using assms by (intro nvic_held_vec_upd) (simp_all add: vec_held_def vec_upd_at)
    with True show ?thesis by (simp add: set_pending_vec_def)
  next
    case False
    have "vec_upd ?p (\<lambda>v. v\<lparr>pending := True\<rparr>) ?t =
        vec_upd ?p (\<lambda>v. v\<lparr>level := word_of_int lev\<rparr>) (vec_upd ?p (\<lambda>v. v\<lparr>pending := True\<rparr>) s)"
      by (cases "vectors s (n + NVIC_FIRST_IRQ)") (simp add: vec_upd_def)
    with False assms show ?thesis
      by (simp add: set_pending_vec_def) (intro nvic_held_vec_upd, simp_all add: vec_upd_at vec_held_def)
  qed
  moreover have "armv7m_nvic_set_pending (n + NVIC_FIRST_IRQ) False ?t = Inr (set_pending_vec ?p ?t)" if "n + NVIC_FIRST_IRQ < num_irq s"
    using that by (simp add: armv7m_nvic_set_pending_def do_armv7m_nvic_set_pending_def Let_def exc_is_banked_def)
  moreover have "nvic_held ?t" if "lev = 0" using that assms by (intro nvic_held_vec_upd) simp_all
  ultimately show ?thesis
    using assms by (auto simp: res_all_def set_irq_level_def Let_def assert_that_eq_Inr split: if_splits)
qed

text \<open>Register writes.\<close>

lemma nvic_held_fold:
  assumes "nvic_held s" and "\<And>i s. nvic_held s \<Longrightarrow> nvic_held (f i s)"
  shows "nvic_held (fold f is s)"
  using assms(1) by (induction "is" arbitrary: s) (simp_all add: assms(2))

lemma nvic_held_write_irq:
  "nvic_held s \<Longrightarrow> nvic_held (write_irq_enable b startvec w sz attrs s)"
  "nvic_held s \<Longrightarrow> nvic_held (write_irq_pend b startvec w sz attrs s)"
proof -
  assume s: "nvic_held s"
  show "nvic_held (write_irq_enable b startvec w sz attrs s)"
    unfolding write_irq_enable_def
    by (rule nvic_held_fold [OF s]) (auto intro!: nvic_held_vec_upd simp: nvic_held_vec simp del: vec_at_simps)
  have "vec_held (False, j) ((vectors t j)\<lparr>pending := b\<rparr>)"
    if "nvic_held t" "\<not> (\<not> b \<and> level (vectors t j) \<noteq> 0 \<and> \<not> active (vectors t j))" for t j
    using that nvic_held_vec [of t "(False, j)"] by (auto simp: vec_held_def)
  then show "nvic_held (write_irq_pend b startvec w sz attrs s)"
    unfolding write_irq_pend_def by (intro nvic_held_fold [OF s]) (auto intro!: nvic_held_vec_upd)
qed

lemma nvic_held_set_prio: "nvic_held s \<Longrightarrow> res_all nvic_held (set_prio irq sec p s)"
  by (auto simp: res_all_def set_prio_def assert_that_eq_Inr Let_def nvic_held_vec simp del: vec_at_simps
      intro!: nvic_held_vec_upd split: if_splits)

lemma nvic_held_write_irq_prios: "nvic_held s \<Longrightarrow> res_all nvic_held (write_irq_prios startvec w attrs is s)"
proof (induction "is" arbitrary: s)
  case (Cons i "is")
  then show ?case by (auto intro: res_all_bind [where Q = nvic_held] nvic_held_set_prio res_all_Inr)
qed (simp add: res_all_Inr)

lemma nvic_held_write_shpr: "nvic_held s \<Longrightarrow> res_all nvic_held (write_shpr base w attrs is s)"
proof (induction "is" arbitrary: s)
  case (Cons i "is")
  from res_all_bind [OF nvic_held_set_prio [OF Cons.prems]] Cons.IH
  have "res_all nvic_held (res_bind (set_prio (base + i) b p s) (write_shpr base w attrs is))" for b p
    by blast
  with Cons show ?case
    by (auto split: option.split intro!: res_all_bind [of "\<lambda>_. True" "shpr_bank s (base + i) attrs"] simp: res_allI)
qed (simp add: res_all_Inr)

lemma nvic_held_apply_updates:
  "\<lbrakk>nvic_held s; \<forall>u\<in>set us. snd (fst u) < NVIC_FIRST_IRQ\<rbrakk> \<Longrightarrow> nvic_held (apply_updates us s)"
  by (induction us arbitrary: s) (simp_all add: apply_updates_simps nvic_held_vec_upd)

lemma nvic_held_write_cpu [simp]:
  "nvic_held (write_mpu_ctrl w sec s) = nvic_held s" "nvic_held (write_mpu_rbar offset w sec s) = nvic_held s"
  "nvic_held (write_mpu_rasr offset w sec s) = nvic_held s" "nvic_held (write_mair b w sec s) = nvic_held s"
  "nvic_held (write_sau_regs offset w sec s) = nvic_held s" "nvic_held (write_fpccr w sec s) = nvic_held s"
  "nvic_held (write_fpdscr w sec s) = nvic_held s" "nvic_held (write_cfsr offset w' attrs s) = nvic_held s"
  "nvic_held (write_ccr w sec s) = nvic_held s" "nvic_held (write_itns offset w sec s) = nvic_held s"
  "nvic_held (signal_sysresetreq s) = nvic_held s"
  by (simp_all add: write_mpu_ctrl_def write_mpu_rbar_def write_mpu_rasr_def write_mair_def write_sau_regs_def
      write_fpccr_def write_fpdscr_def write_cfsr_def write_ccr_def write_itns_def signal_sysresetreq_def Let_def
      split: option.split)

lemma nvic_held_write_aircr: "nvic_held s \<Longrightarrow> nvic_held (write_aircr w sec s)"
  unfolding write_aircr_def Let_def by (auto intro!: nvic_held_vec_upd split: if_splits)

lemma nvic_held_write_shcsr: "nvic_held s \<Longrightarrow> nvic_held (write_shcsr w sec s)"
  by (simp add: write_shcsr_def nvic_held_apply_updates shcsr_updates_def)

lemma nvic_held_write_icsr: "nvic_held s \<Longrightarrow> res_all nvic_held (write_icsr w sec s)"
proof -
  assume s: "nvic_held s"
  have pend: "res_all nvic_held (icsr_pend a b irq sec s)" if "irq < NVIC_FIRST_IRQ" "nvic_held s" for a b irq sec s
    using that by (simp add: icsr_pend_def nvic_held_set_pending nvic_held_clear_pending res_all_Inr)
  show ?thesis
    unfolding write_icsr_def
    by (intro res_all_bind [where Q = nvic_held] res_all_if pend res_all_Inr s) simp_all
qed

lemma nvic_held_writel: "nvic_held s \<Longrightarrow> res_all nvic_held (nvic_writel offset w attrs s)"
  unfolding nvic_writel_def Let_def
  by (intro res_all_if res_all_Inr nvic_held_write_icsr nvic_held_set_pending(1))
    (simp_all add: nvic_held_write_aircr nvic_held_write_shcsr)

lemma nvic_held_sysreg_write: "nvic_held s \<Longrightarrow> res_all (\<lambda>(_, s'). nvic_held s') (nvic_sysreg_write addr w sz attrs s)"
proof -
  assume s: "nvic_held s"
  have upd: "res_all nvic_held (res_bind r (\<lambda>s. Inr (nvic_irq_update s)))" if "res_all nvic_held r" for r
    using that by (rule res_all_bind) (simp add: res_all_Inr)
  have "res_all nvic_held (sysreg_write_value (ucast addr) w sz attrs s)"
    unfolding sysreg_write_value_def Let_def
    by (intro res_all_if upd nvic_held_write_irq_prios nvic_held_write_shpr nvic_held_writel s; (rule res_all_Inr)?)
      (simp_all add: s nvic_held_write_irq)
  with s show ?thesis
    unfolding nvic_sysreg_write_def by (intro res_all_if res_all_bind [where Q = nvic_held]) (simp_all add: res_all_def)
qed

lemma nvic_held_exec: "nvic_held s \<Longrightarrow> res_all nvic_held (nvic_exec ev s)"
proof (cases ev)
  case (Reg_Write addr w sz attrs)
  assume "nvic_held s"
  then show ?thesis unfolding Reg_Write nvic_exec.simps
    by (intro res_all_bind [OF nvic_held_sysreg_write]) (auto simp: res_all_def)
next
  case (Return irq sec)
  assume "nvic_held s"
  then show ?thesis unfolding Return nvic_exec.simps
    by (intro res_all_bind [OF nvic_held_complete]) (auto simp: res_all_def)
qed (simp_all add: nvic_held_set_irq_level nvic_nmi_trigger_def nvic_systick_trigger_def nvic_held_set_pending
    nvic_held_acknowledge res_all_Inr)

lemma nvic_held_reset: "nvic_held (armv7m_nvic_reset s)"
  by (auto simp: nvic_held_def vec_held_def vec_at_def nvic_reset_vectors nvic_reset_sec_vectors)

end
