(* ===== verification/Nvic_Service.thy ===== *)
theory Nvic_Service
  imports Nvic_Run
begin

text \<open>
  Serving exceptions: what the controller's choice means for the exceptions that are active or
  pending, and what taking and completing an exception do.
\<close>

section \<open>Urgency\<close>

definition implemented :: "NVICState \<Rightarrow> vec_ptr \<Rightarrow> bool" where
  "implemented s e \<longleftrightarrow> 1 \<le> snd e \<and> snd e < num_irq s \<and>
     (fst e \<longrightarrow> exc_is_banked (snd e) \<and> has_feature s ARM_FEATURE_M_SECURITY)"

text \<open>The priority at which an exception competes.\<close>

definition urgency :: "NVICState \<Rightarrow> vec_ptr \<Rightarrow> int" where
  "urgency s e = (if has_feature s ARM_FEATURE_M_SECURITY then gprio_of s e else group_prio s (prio (vec_at s e)))"

lemma implemented_entries:
  "implemented s e \<Longrightarrow> e \<in> set (entries [1..<num_irq s])" "implemented s e \<Longrightarrow> sec_exists e"
  by (simp_all add: implemented_def set_entries sec_exists_def)

lemma exception_prio_le:
  assumes "nvic_wf s" and "implemented s e" and "active (vec_at s e)"
  shows "exception_prio (nvic_recompute_state s) \<le> urgency s e"
proof (cases "has_feature s ARM_FEATURE_M_SECURITY")
  case True
  let ?A = "{e \<in> set (entries [1..<num_irq s]). sec_exists e \<and> active (vec_at s e)}"
  have "e \<in> ?A" using assms(2,3) implemented_entries by simp
  then have "Min (insert NVIC_NOEXC_PRIO (gprio_of s ` ?A)) \<le> gprio_of s e" by (intro Min_le) auto
  with True show ?thesis
    unfolding nvic_recompute_sec [OF True assms(1)] urgency_def by (simp add: Let_def split: option.split)
next
  case False
  let ?A = "{i \<in> {1..<num_irq s}. active (vectors s i)}"
  have "\<not> fst e" using assms(2) False by (simp add: implemented_def)
  then have "Min (insert NVIC_NOEXC_PRIO ((\<lambda>i. prio (vectors s i)) ` ?A)) \<le> prio (vec_at s e)"
    using assms(2,3) by (intro Min_le) (auto simp: vec_at_def implemented_def)
  from group_prio_mono [OF this] False show ?thesis
    unfolding nvic_recompute_ns [OF False assms(1)] urgency_def by simp
qed

lemma vectpending_prio_le:
  assumes "nvic_wf s" and "implemented s e" and "enabled (vec_at s e)" and "pending (vec_at s e)"
  shows "vectpending_prio (nvic_recompute_state s) \<le> urgency s e"
proof (cases "has_feature s ARM_FEATURE_M_SECURITY")
  case True
  have ready: "sec_ready s e" using assms implemented_entries(2) by (simp add: sec_ready_def)
  show ?thesis
  proof (cases "sec_scan.scan s (entries [1..<num_irq s])")
    case None
    then show ?thesis using ready implemented_entries(1) [OF assms(2)] unfolding sec_scan.scan_None_iff by blast
  next
    case (Some v)
    then have "\<not> sec_beats s e v" using ready implemented_entries(1) [OF assms(2)] by (intro sec_scan.scan_SomeD(3))
    then have "gprio_of s v \<le> gprio_of s e" by (auto simp: sec_beats_def)
    with True Some show ?thesis unfolding nvic_recompute_sec [OF True assms(1)] urgency_def by (simp add: Let_def)
  qed
next
  case False
  have e: "\<not> fst e" "snd e \<in> set [1..<num_irq s]" "enabled (vectors s (snd e)) \<and> pending (vectors s (snd e))"
    using assms(2-4) False by (auto simp: implemented_def vec_at_def)
  show ?thesis
  proof (cases "ns_scan.scan s [1..<num_irq s]")
    case None
    then show ?thesis using e unfolding ns_scan.scan_None_iff by blast
  next
    case (Some v)
    then have "prio (vectors s v) \<le> prio (vectors s (snd e))" using ns_scan.scan_SomeD(3) [OF Some e(2,3)] by simp
    from group_prio_mono [OF this] False e(1) show ?thesis
      unfolding nvic_recompute_ns [OF False assms(1)] urgency_def Some by (simp add: vec_at_def)
  qed
qed

lemma offered:
  assumes "nvic_wf s" and "vectpending_prio (nvic_recompute_state s) < NVIC_NOEXC_PRIO"
  defines "e \<equiv> (vectpending_is_s_banked (nvic_recompute_state s), vectpending (nvic_recompute_state s))"
  shows "implemented s e" and "vectpending_prio (nvic_recompute_state s) = urgency s e"
    and "1 < snd e" and "enabled (vec_at s e)" and "pending (vec_at s e)"
proof -
  note R = offered_ready [OF assms(1,2), folded e_def]
  then show "1 < snd e" "enabled (vec_at s e)" "pending (vec_at s e)" by blast+
  have "implemented s e \<and> vectpending_prio (nvic_recompute_state s) = urgency s e"
  proof (cases "has_feature s ARM_FEATURE_M_SECURITY")
    case True
    show ?thesis
    proof (cases "sec_scan.scan s (entries [1..<num_irq s])")
      case None
      then show ?thesis using assms(2) unfolding nvic_recompute_sec [OF True assms(1)] by (simp add: Let_def)
    next
      case (Some v)
      then have "e = v" unfolding e_def nvic_recompute_sec [OF True assms(1)] by (simp add: Let_def)
      with sec_scan.scan_SomeD(2) [OF Some] R True Some show ?thesis
        unfolding nvic_recompute_sec [OF True assms(1)] urgency_def
        by (simp add: implemented_def sec_ready_def sec_exists_def Let_def)
    qed
  next
    case False
    then have b: "\<not> fst e" using assms(1) recompute_banked_feature [OF assms(1)] by (auto simp: e_def)
    show ?thesis
    proof (cases "ns_scan.scan s [1..<num_irq s]")
      case None
      then show ?thesis using assms(2) unfolding nvic_recompute_ns [OF False assms(1)] None by simp
    next
      case (Some v)
      then have "snd e = v" unfolding e_def nvic_recompute_ns [OF False assms(1)] Some by simp
      with b R Some False show ?thesis
        unfolding nvic_recompute_ns [OF False assms(1)] urgency_def by (simp add: implemented_def vec_at_def)
    qed
  qed
  then show "implemented s e" "vectpending_prio (nvic_recompute_state s) = urgency s e" by blast+
qed

lemma exception_prio_inv: "nvic_inv s \<Longrightarrow> exception_prio s \<le> NVIC_NOEXC_PRIO"
  using exception_prio_recompute_le [of s] by (simp add: nvic_inv_def)

lemma offered_inv:
  assumes "nvic_inv s" and "armv7m_nvic_can_take_pending_exception s"
  defines "e \<equiv> (vectpending_is_s_banked s, vectpending s)"
  shows "implemented s e" and "vectpending_prio s = urgency s e" and "1 < snd e" and "enabled (vec_at s e)"
    and "pending (vec_at s e)" and "\<not> active (vec_at s e)" and "vectpending_prio s < exception_prio s"
proof -
  have fx: "nvic_recompute_state s = s" and wf: "nvic_wf s" using assms(1) by (simp_all add: nvic_inv_def)
  show lt: "vectpending_prio s < exception_prio s"
    using assms(2) nvic_exec_prio_le [of s]
    by (simp add: armv7m_nvic_can_take_pending_exception_def nvic_pending_prio_def)
  then have "vectpending_prio s < NVIC_NOEXC_PRIO" using exception_prio_inv [OF assms(1)] by simp
  with offered [OF wf] show e: "implemented s e" "vectpending_prio s = urgency s e" "1 < snd e" "enabled (vec_at s e)"
    "pending (vec_at s e)" unfolding fx e_def by blast+
  show "\<not> active (vec_at s e)" using exception_prio_le [OF wf e(1)] lt e(2) fx by auto
qed
text \<open>Urgency depends on priorities and configuration only.\<close>

lemma urgency_cong:
  assumes "features (cpu t) = features (cpu s)" and "aircr_of t = aircr_of s" and "prigroup t = prigroup s"
    and "itns t = itns s" and "prio (vec_at t e) = prio (vec_at s e)"
  shows "urgency t e = urgency s e"
proof -
  have f: "has_feature t = has_feature s" using assms(1) by (simp add: arm_feature_def fun_eq_iff)
  have "exc_targets_secure t = exc_targets_secure s"
    unfolding exc_targets_secure_def fun_eq_iff f assms by simp
  then show ?thesis
    unfolding urgency_def gprio_of_def target_of_def group_prio_def exc_group_prio_def nvic_gprio_mask_def f assms by simp
qed

lemma implemented_cong:
  "\<lbrakk>features (cpu t) = features (cpu s); num_irq t = num_irq s\<rbrakk> \<Longrightarrow> implemented t e = implemented s e"
  by (simp add: implemented_def arm_feature_def)

lemma prio_vec_upd: "(\<And>v. prio (f v) = prio v) \<Longrightarrow> prio (vec_at (vec_upd p f s) e) = prio (vec_at s e)"
  by (simp add: vec_upd_at(3))

section \<open>Taking an exception\<close>

lemma acknowledged_frame:
  "cpu (acknowledged s) = write_v7m_exception (word_of_nat (vectpending s)) (cpu s)"
  "vec_at (acknowledged s) p = (if p = (vectpending_is_s_banked s, vectpending s)
     then (vec_at s p)\<lparr>active := True, pending := False\<rparr> else vec_at s p)"
  "prigroup (acknowledged s) = prigroup s" "itns (acknowledged s) = itns s" "num_irq (acknowledged s) = num_irq s"
proof -
  have "vec_at (s\<lparr>cpu := c\<rparr>) = vec_at s" for s c by (simp add: vec_at_def fun_eq_iff)
  then show "vec_at (acknowledged s) p = (if p = (vectpending_is_s_banked s, vectpending s)
     then (vec_at s p)\<lparr>active := True, pending := False\<rparr> else vec_at s p)"
    by (simp add: acknowledged_def Let_def vec_upd_at(3))
qed (simp_all add: acknowledged_def Let_def)

lemma exception_prio_acknowledged:
  assumes "nvic_inv s" and "armv7m_nvic_can_take_pending_exception s"
  shows "exception_prio (acknowledged s) \<le> vectpending_prio s"
proof -
  let ?e = "(vectpending_is_s_banked s, vectpending s)"
  have inv: "nvic_inv (acknowledged s)" by (rule nvic_inv_acknowledged [OF assms(1)])
  have "implemented (acknowledged s) ?e"
    using offered_inv(1) [OF assms] implemented_cong [of "acknowledged s" s] by (simp add: acknowledged_frame)
  moreover have "active (vec_at (acknowledged s) ?e)" by (simp add: acknowledged_frame(2))
  ultimately have "exception_prio (acknowledged s) \<le> urgency (acknowledged s) ?e"
    using exception_prio_le [OF nvic_inv_wf [OF inv]] inv by (simp add: nvic_inv_def)
  also have "\<dots> = urgency s ?e"
    by (rule urgency_cong) (simp_all add: acknowledged_frame(1,3,4) acknowledged_frame(2))
  also have "\<dots> = vectpending_prio s" using offered_inv(2) [OF assms] by simp
  finally show ?thesis .
qed

text \<open>
  C7.  When the CPU may take an exception, acknowledging succeeds: the offered exception becomes
  active and is no longer pending, all others are unchanged, its number is the CPU's current
  exception, and from then on only an exception of strictly smaller priority value can preempt.
  When the CPU may not take an exception, the call fails its assertion.
\<close>
theorem nvic_acknowledge_takes_offer:
  assumes "nvic_inv s"
  shows "if armv7m_nvic_can_take_pending_exception s
    then \<exists>s'. armv7m_nvic_acknowledge_irq s = Inr s' \<and>
      (let e = (vectpending_is_s_banked s, vectpending s)
       in enabled (vec_at s e) \<and> vec_at s' e = (vec_at s e)\<lparr>active := True, pending := False\<rparr> \<and>
          (\<forall>p. p \<noteq> e \<longrightarrow> vec_at s' p = vec_at s p) \<and>
          exception (v7m (cpu s')) = word_of_nat (snd e) \<and>
          nvic_exec_prio s' \<le> vectpending_prio s \<and>
          (armv7m_nvic_can_take_pending_exception s' \<longrightarrow> vectpending_prio s' < vectpending_prio s))
    else armv7m_nvic_acknowledge_irq s = Inl AssertFailed"
proof (cases "armv7m_nvic_can_take_pending_exception s")
  case True
  have "nvic_exec_prio (acknowledged s) \<le> vectpending_prio s"
    using exception_prio_acknowledged [OF assms True] nvic_exec_prio_le [of "acknowledged s"] by simp
  moreover from this have "armv7m_nvic_can_take_pending_exception (acknowledged s) \<Longrightarrow>
      vectpending_prio (acknowledged s) < vectpending_prio s"
    by (simp add: armv7m_nvic_can_take_pending_exception_def nvic_pending_prio_def)
  ultimately show ?thesis
    using True acknowledge_eq(1) [OF assms True] offered_inv(4) [OF assms True]
    by (simp add: acknowledged_frame Let_def del: split_paired_All)
qed (simp add: acknowledge_eq(2) [OF assms])

section \<open>Completing an exception\<close>

lemma complete_irq_v7:
  assumes "\<not> has_feature s ARM_FEATURE_V8" and "\<not> has_feature s ARM_FEATURE_M_SECURITY"
    and "1 < irq" and "irq < num_irq s" and "irq < NVIC_FIRST_IRQ \<longrightarrow> level (vectors s irq) = 0"
  shows "armv7m_nvic_complete_irq irq False s =
    Inr (if active (vectors s irq) then if nvic_rettobase s then 1 else 0 else - 1,
         nvic_irq_update (vec_upd (False, irq) deactivate s))"
proof -
  have d: "vec_upd (False, irq) (\<lambda>v. v\<lparr>pending := True\<rparr>) (vec_upd (False, irq) (\<lambda>v. v\<lparr>active := False\<rparr>) s) =
      vec_upd (False, irq) deactivate s" if "level (vectors s irq) \<noteq> 0"
    using that by (simp add: vec_upd_def deactivate_def)
  have d': "vec_upd (False, irq) (\<lambda>v. v\<lparr>active := False\<rparr>) s = vec_upd (False, irq) deactivate s"
    if "level (vectors s irq) = 0"
    using that by (simp add: vec_upd_def deactivate_def)
  show ?thesis
    using assms by (auto simp: armv7m_nvic_complete_irq_def complete_target_def exc_targets_secure_def vec_upd_at d d' Let_def)
qed


text \<open>The execution priority due to active exceptions does not depend on what is pending.\<close>

lemma exception_prio_cong:
  assumes "features (cpu t) = features (cpu s)" and "aircr_of t = aircr_of s" and "prigroup t = prigroup s"
    and "itns t = itns s" and "num_irq t = num_irq s" and "nvic_wf s" and "nvic_wf t"
    and "\<And>e. prio (vec_at t e) = prio (vec_at s e) \<and> active (vec_at t e) = active (vec_at s e)"
  shows "exception_prio (nvic_recompute_state t) = exception_prio (nvic_recompute_state s)"
proof -
  have f: "has_feature t = has_feature s" using assms(1) by (simp add: arm_feature_def fun_eq_iff)
  have u: "urgency t e = urgency s e" for e using assms by (intro urgency_cong) simp_all
  show ?thesis
  proof (cases "has_feature s ARM_FEATURE_M_SECURITY")
    case True
    then have T: "has_feature t ARM_FEATURE_M_SECURITY" by (simp add: f)
    have "gprio_of t = gprio_of s" using u True T by (simp add: urgency_def fun_eq_iff)
    then show ?thesis
      unfolding nvic_recompute_sec [OF True assms(6)] nvic_recompute_sec [OF T assms(7)]
      by (simp add: Let_def assms split: option.split)
  next
    case False
    then have T: "\<not> has_feature t ARM_FEATURE_M_SECURITY" by (simp add: f)
    have v: "prio (vectors t i) = prio (vectors s i)" "active (vectors t i) = active (vectors s i)" for i
      using assms(8) [of "(False, i)"] by simp_all
    have "group_prio t = group_prio s" by (simp add: group_prio_def fun_eq_iff assms(3))
    then show ?thesis
      unfolding nvic_recompute_ns [OF False assms(6)] nvic_recompute_ns [OF T assms(7)]
      by (simp add: v assms(5))
  qed
qed

lemma nvic_wf_deactivate: "nvic_wf s \<Longrightarrow> nvic_wf (vec_upd p deactivate s)"
  by (rule nvic_wf_vec_upd) (simp_all add: deactivate_def nvic_wf_vec)


section \<open>Faults\<close>

lemma exec_prio_cong:
  assumes "exception_prio t = exception_prio s" and "prigroup t = prigroup s" and "aircr_of t = aircr_of s"
    and "basepri (v7m (cpu t)) = basepri (v7m (cpu s))" and "primask (v7m (cpu t)) = primask (v7m (cpu s))"
    and "faultmask (v7m (cpu t)) = faultmask (v7m (cpu s))"
  shows "nvic_exec_prio t = nvic_exec_prio s"
  unfolding nvic_exec_prio_def exc_group_prio_def nvic_gprio_mask_def
    Let_def [of "v7m (cpu s)"] Let_def [of "v7m (cpu t)"] assms ..

lemma group_prio_le_exc_group_prio:
  assumes "p < NVIC_NOEXC_PRIO"
  shows "group_prio s p \<le> exc_group_prio s p False"
proof (cases "p \<le> 0")
  case True
  then show ?thesis using int_and_gprio [of 0 s False] by (auto simp: group_prio_def exc_group_prio_def Let_def)
next
  case False
  let ?q = "p - p mod 2 ^ (unat (prigroup s False) + 1)"
  have "int_and p (nvic_gprio_mask s False) = ?q" using False assms by (intro int_and_gprio) simp_all
  moreover have half: "q \<le> drop_bit 1 q + NVIC_NS_PRIO_LIMIT" if "q \<le> 255" for q :: int
    using that by (simp add: drop_bit_eq_div)
  have "?q \<le> p" by simp
  then have "?q \<le> drop_bit 1 ?q + NVIC_NS_PRIO_LIMIT" using assms by (intro half) linarith
  ultimately show ?thesis using False by (simp add: group_prio_def exc_group_prio_def Let_def)
qed

lemma pended_taken:
  assumes "nvic_inv s" and "implemented s p" and "enabled (vec_at s p)" and "urgency s p < nvic_exec_prio s"
  shows "armv7m_nvic_can_take_pending_exception (set_pending_vec p s)" and "pending (vec_at (set_pending_vec p s) p)"
proof -
  let ?s = "set_pending_vec p s"
  have inv: "nvic_inv ?s" using assms(1) by (rule nvic_inv_set_pending_vec)
  have frame: "cpu ?s = cpu s" "prigroup ?s = prigroup s" "itns ?s = itns s" "num_irq ?s = num_irq s"
    by (simp_all add: set_pending_vec_def)
  have vec: "vec_at ?s q = (if q = p then (vec_at s q)\<lparr>pending := True\<rparr> else vec_at s q)" for q
    by (auto simp: set_pending_vec_def vec_upd_at(3))
  show pend: "pending (vec_at ?s p)" by (simp add: vec)
  have "exception_prio (nvic_recompute_state ?s) = exception_prio (nvic_recompute_state s)"
    by (rule exception_prio_cong) (simp_all add: frame vec nvic_inv_wf assms(1) inv)
  then have "nvic_exec_prio ?s = nvic_exec_prio s"
    using assms(1) inv by (intro exec_prio_cong) (simp_all add: frame nvic_inv_def)
  moreover have "vectpending_prio ?s \<le> urgency ?s p"
    using vectpending_prio_le [OF nvic_inv_wf [OF inv], of p] pend assms(2,3) implemented_cong [of ?s s p] inv
    by (simp add: frame vec nvic_inv_def)
  moreover have "urgency ?s p = urgency s p" by (rule urgency_cong) (simp_all add: frame vec)
  ultimately show "armv7m_nvic_can_take_pending_exception ?s"
    using assms(4) by (simp add: armv7m_nvic_can_take_pending_exception_def nvic_pending_prio_def)
qed


section \<open>Bounds\<close>

lemma exc_group_prio_ge:
  assumes "0 \<le> p" and "p < NVIC_NOEXC_PRIO"
  shows "0 \<le> exc_group_prio s p b"
proof -
  let ?q = "p - p mod 2 ^ (unat (prigroup s b) + 1)"
  have q: "int_and p (nvic_gprio_mask s b) = ?q" using assms by (intro int_and_gprio) simp_all
  have "0 \<le> ?q" using assms(1) zmod_le_nonneg_dividend [of p] by simp
  moreover from this have "0 \<le> drop_bit 1 ?q" by (simp only: drop_bit_nonnegative_int_iff)
  ultimately show ?thesis using assms(1) unfolding exc_group_prio_def Let_def q by (auto simp del: One_nat_def)
qed

lemma urgency_ge: "\<lbrakk>nvic_wf s; implemented s e\<rbrakk> \<Longrightarrow> -4 \<le> urgency s e"
proof -
  assume wf: "nvic_wf s" and e: "implemented s e"
  have "prio_ok e (prio (vec_at s e))" using nvic_wf_vec [OF wf, of e] by (simp add: vec_ok_def)
  moreover from this e have "prio (vec_at s e) < NVIC_NOEXC_PRIO"
    using nvic_wf_prio [OF wf, of "snd e"] by (auto simp: vec_at_def implemented_def)
  moreover have "snd e = 1 \<or> snd e = 2 \<or> snd e = 3 \<or> 4 \<le> snd e" using e by (auto simp: implemented_def)
  ultimately have p: "-4 \<le> prio (vec_at s e)" "prio (vec_at s e) < NVIC_NOEXC_PRIO"
    using e by (cases e; auto simp: prio_ok_def implemented_def exc_is_banked_def split: if_splits)+
  have "-4 \<le> exc_group_prio s (prio (vec_at s e)) b" for b
    using p exc_group_prio_ge [of "prio (vec_at s e)" s b] by (cases "prio (vec_at s e) < 0") (auto simp: exc_group_prio_def)
  moreover have "-4 \<le> group_prio s (prio (vec_at s e))"
    using group_prio_mono [OF p(1), of s] by (simp add: group_prio_def)
  ultimately show ?thesis by (simp add: urgency_def gprio_of_def)
qed

lemma exception_prio_ge:
  assumes "nvic_wf s"
  shows "-4 \<le> exception_prio (nvic_recompute_state s)"
proof (cases "has_feature s ARM_FEATURE_M_SECURITY")
  case True
  have "-4 \<le> gprio_of s e" if "e \<in> set (entries [1..<num_irq s])" "sec_exists e" for e
    using urgency_ge [OF assms, of e] that True by (simp add: urgency_def implemented_def set_entries sec_exists_def)
  then show ?thesis
    unfolding nvic_recompute_sec [OF True assms] by (auto simp: Let_def split: option.split)
next
  case False
  let ?m = "Min (insert NVIC_NOEXC_PRIO ((\<lambda>i. prio (vectors s i)) ` {i \<in> {1..<num_irq s}. active (vectors s i)}))"
  have "-4 \<le> ?m" using nvic_wf_prio(2) [OF assms] by auto
  from group_prio_mono [OF this, of s] show ?thesis
    unfolding nvic_recompute_ns [OF False assms] by (simp add: group_prio_def)
qed

lemma vectpending_prio_recompute_le:
  assumes "nvic_wf s"
  shows "vectpending_prio (nvic_recompute_state s) \<le> NVIC_NOEXC_PRIO"
proof (cases "has_feature s ARM_FEATURE_M_SECURITY")
  case True
  have "gprio_of s e \<le> NVIC_NOEXC_PRIO" if "sec_scan.scan s (entries [1..<num_irq s]) = Some e" for e
  proof -
    have "e \<in> set (entries [1..<num_irq s])" "sec_ready s e" using sec_scan.scan_SomeD(1,2) [OF that] .
    then have "prio (vec_at s e) < NVIC_NOEXC_PRIO"
      using nvic_wf_prio [OF assms, of "snd e"] by (auto simp: set_entries sec_ready_def sec_exists_def vec_at_def)
    then show ?thesis using exc_group_prio_less [of "prio (vec_at s e)" s "target_of s e"] by (simp add: gprio_of_def)
  qed
  then show ?thesis unfolding nvic_recompute_sec [OF True assms] by (simp add: Let_def split: option.split)
next
  case False
  have "group_prio s (prio (vectors s i)) \<le> NVIC_NOEXC_PRIO" if "ns_scan.scan s [1..<num_irq s] = Some i" for i
    using ns_scan.scan_SomeD(1) [OF that] nvic_wf_prio(1) [OF assms, of i] group_prio_less_NOEXC [of "prio (vectors s i)" s]
    by simp
  then show ?thesis unfolding nvic_recompute_ns [OF False assms] by (simp split: option.split)
qed

lemma if_geI: "\<lbrakk>k \<le> a; k \<le> b\<rbrakk> \<Longrightarrow> k \<le> (if c then a else b)" for k :: int
  by simp


section \<open>Runs from reset\<close>

lemma nvic_inv_runs:
  assumes "armv7m_nvic_realize d = Inr s0" and "line_level (excpout d) = 0"
    and "nvic_run evs (armv7m_nvic_reset s0) = Inr s"
  shows "nvic_inv s"
proof -
  have "nvic_inv (armv7m_nvic_reset s0)"
    using nvic_realize_bounds [OF assms(1)] assms(2) by (intro nvic_reset_inv) simp_all
  with assms(3) show ?thesis using nvic_run_invariant [of nvic_inv] nvic_inv_exec by blast
qed


text \<open>
  C30.  In every run from reset the priorities keep their types: configurable exceptions have
  priorities of eight bits, NMI and HardFault their fixed negative ones, the priority grouping has
  three bits, and no internal exception has a line level.
\<close>
theorem nvic_priorities_typed_in_runs:
  assumes "armv7m_nvic_realize d = Inr s0" and "line_level (excpout d) = 0"
    and "nvic_run evs (armv7m_nvic_reset s0) = Inr s"
  shows "(\<forall>i \<ge> ARMV7M_EXCP_MEM. prio (vectors s i) \<in> {0..255} \<and> prio (sec_vectors s i) \<in> {0..255}) \<and>
    prio (vectors s ARMV7M_EXCP_NMI) = -2 \<and> prio (vectors s ARMV7M_EXCP_HARD) = -1 \<and>
    (\<forall>b. unat (prigroup s b) \<le> 7) \<and> (\<forall>i < NVIC_FIRST_IRQ. level (vectors s i) = 0)"
proof -
  note wf = nvic_inv_wf [OF nvic_inv_runs [OF assms]]
  have v: "vec_ok (False, i) (vectors s i)" "vec_ok (True, i) (sec_vectors s i)" for i
    using nvic_wf_vec [OF wf, of "(False, i)"] nvic_wf_vec [OF wf, of "(True, i)"] by simp_all
  have "prio (vectors s i) \<in> {0..255} \<and> prio (sec_vectors s i) \<in> {0..255}" if "ARMV7M_EXCP_MEM \<le> i" for i
    using v [of i] that by (simp add: vec_ok_def prio_ok_def)
  moreover have "prio (vectors s ARMV7M_EXCP_NMI) = -2" "prio (vectors s ARMV7M_EXCP_HARD) = -1"
    using v(1) [of ARMV7M_EXCP_NMI] v(1) [of ARMV7M_EXCP_HARD] by (simp_all add: vec_ok_def prio_ok_def)
  moreover have "level (vectors s i) = 0" if "i < NVIC_FIRST_IRQ" for i
    using v(1) [of i] that by (simp add: vec_ok_def)
  moreover have "\<forall>b. unat (prigroup s b) \<le> 7" using wf unfolding nvic_wf_def by blast
  ultimately show ?thesis by blast
qed

text \<open>
  C6.  No level-triggered interrupt is lost: in every run from reset, an external interrupt whose
  line is high is pending or active.
\<close>
theorem nvic_level_interrupt_not_lost:
  assumes "nvic_run evs (armv7m_nvic_reset s0) = Inr s" and "level (vectors s (NVIC_FIRST_IRQ + n)) \<noteq> 0"
  shows "pending (vectors s (NVIC_FIRST_IRQ + n)) \<or> active (vectors s (NVIC_FIRST_IRQ + n))"
proof -
  have "nvic_held s"
    using nvic_run_invariant [of nvic_held, OF nvic_held_exec nvic_held_reset assms(1)] .
  from nvic_held_vec [OF this, of "(False, NVIC_FIRST_IRQ + n)"] assms(2) show ?thesis by (simp add: vec_held_def)
qed

section \<open>Witnesses\<close>

text \<open>One interrupt; it is enabled and its line raised, and its handler runs.\<close>

definition demo_device :: NVICState where
  "demo_device = (nvic_blank (arm_cpu_reset_m 0 0 cortex_m7_initfn))\<lparr>num_irq := 1\<rparr>"

definition demo_events :: "nvic_event list" where
  "demo_events = [Reg_Write 0x100 1 4 privileged, Reg_Write 0x400 0x80 1 privileged, Irq_In 0 1]"

lemma demo_realize: "armv7m_nvic_realize demo_device = Inr (demo_device\<lparr>num_irq := 17\<rparr>)"
  by (simp add: armv7m_nvic_realize_def demo_device_def nvic_blank_def arm_feature_def arm_cpu_reset_m_def Let_def
      cortex_m7_initfn_def)

definition demo_state :: NVICState where
  "demo_state = (case nvic_run demo_events (armv7m_nvic_reset (demo_device\<lparr>num_irq := 17\<rparr>)) of Inr s \<Rightarrow> s)"

lemma demo_run:
  "nvic_run demo_events (armv7m_nvic_reset (demo_device\<lparr>num_irq := 17\<rparr>)) = Inr demo_state"
proof -
  have "case nvic_run demo_events (armv7m_nvic_reset (demo_device\<lparr>num_irq := 17\<rparr>)) of Inr s \<Rightarrow> True | Inl e \<Rightarrow> False"
    by code_simp
  then show ?thesis unfolding demo_state_def by (auto split: sum.splits)
qed

lemma demo_inv: "nvic_inv demo_state"
  using nvic_inv_runs [OF demo_realize _ demo_run] by (simp add: demo_device_def nvic_blank_def)

lemma demo_values:
  "vectpending demo_state = 16" "vectpending_prio demo_state = 128" "exception_prio demo_state = 256"
  "\<not> vectpending_is_s_banked demo_state" "level (vectors demo_state 16) = 1" "enabled (vectors demo_state 3)"
  "\<not> has_feature demo_state ARM_FEATURE_V8" "\<not> has_feature demo_state ARM_FEATURE_M_SECURITY"
  "armv7m_nvic_can_take_pending_exception demo_state" "nvic_exec_prio demo_state = 256"
  by code_simp+


theorem nvic_priorities_typed_in_runs_witness:
  "prio (vectors demo_state ARMV7M_EXCP_NMI) = -2 \<and> prio (vectors demo_state 16) \<in> {0..255}"
proof -
  have "line_level (excpout demo_device) = 0" by (simp add: demo_device_def nvic_blank_def)
  from nvic_priorities_typed_in_runs [OF demo_realize this demo_run] show ?thesis by simp
qed

theorem nvic_level_interrupt_not_lost_witness:
  "pending (vectors demo_state (16 + 0)) \<or> active (vectors demo_state (16 + 0))"
  by (rule nvic_level_interrupt_not_lost [OF demo_run]) (simp add: demo_values)

theorem nvic_acknowledge_takes_offer_witness:
  "\<exists>s'. armv7m_nvic_acknowledge_irq demo_state = Inr s' \<and> exception (v7m (cpu s')) = 16 \<and> nvic_exec_prio s' \<le> 128"
  using nvic_acknowledge_takes_offer [OF demo_inv] demo_values by (auto simp: Let_def)




end
