(* ===== verification/Nvic_Lines.thy ===== *)
theory Nvic_Lines
  imports Nvic_Service
begin

text \<open>
  The input lines as the controller sees them: only \<open>set_irq_level\<close> changes the level of a vector, and
  nothing changes the number of vectors.  A board that drives the lines relies on this.
\<close>

definition lines :: "NVICState \<Rightarrow> nat \<times> (nat \<Rightarrow> u8)" where
  "lines s = (num_irq s, \<lambda>n. level (vectors s n))"

lemma lines_vec_upd: "(\<And>v. level (f v) = level v) \<Longrightarrow> lines (vec_upd p f s) = lines s"
  by (auto simp: lines_def vec_upd_def fun_eq_iff)

lemma lines_frame [simp]:
  "lines (nvic_irq_update s) = lines s" "lines (nvic_recompute_state s) = lines s" "lines (s\<lparr>cpu := c\<rparr>) = lines s"
  "lines (s\<lparr>prigroup := g\<rparr>) = lines s" "lines (s\<lparr>itns := t\<rparr>) = lines s" "lines (s\<lparr>sysresetreq := l\<rparr>) = lines s"
  "lines (s\<lparr>system_reset_requests := n\<rparr>) = lines s"
  by (simp_all add: lines_def)

lemma lines_set_pending_vec [simp]: "lines (set_pending_vec p s) = lines s"
  by (simp add: set_pending_vec_def lines_vec_upd)

lemma lines_do_set_pending: "res_all (\<lambda>s'. lines s' = lines s) (do_armv7m_nvic_set_pending irq sec derived s)"
  by (auto simp: res_all_def do_armv7m_nvic_set_pending_def assert_that_eq_Inr Let_def split: if_splits)

lemmas lines_set_pending =
  lines_do_set_pending [where derived = False, folded armv7m_nvic_set_pending_def]
  lines_do_set_pending [where derived = True, folded armv7m_nvic_set_pending_derived_def]

lemma lines_clear_pending: "res_all (\<lambda>s'. lines s' = lines s) (armv7m_nvic_clear_pending irq sec s)"
  by (auto simp: res_all_def armv7m_nvic_clear_pending_def assert_that_eq_Inr Let_def lines_vec_upd split: if_splits)

lemma lines_acknowledge: "res_all (\<lambda>s'. lines s' = lines s) (armv7m_nvic_acknowledge_irq s)"
  by (auto simp: res_all_def armv7m_nvic_acknowledge_irq_def assert_that_eq_Inr Let_def lines_vec_upd)

lemma lines_complete: "res_all (\<lambda>(_, s'). lines s' = lines s) (armv7m_nvic_complete_irq irq sec s)"
proof (cases "irq > ARMV7M_EXCP_RESET \<and> irq < num_irq s")
  case True
  then show ?thesis using complete_irq_eq [of irq s sec] by (auto simp: res_all_def lines_vec_upd deactivate_def)
next
  case False
  then show ?thesis by (simp only: armv7m_nvic_complete_irq_def assert_that_def if_False) (simp add: res_all_def)
qed

text \<open>A predicate on the lines is kept by everything but the lines themselves.\<close>

definition wired :: "nat \<times> (nat \<Rightarrow> u8) \<Rightarrow> NVICState \<Rightarrow> bool" where
  "wired w s \<longleftrightarrow> lines s = w"

lemma wired_kept: "res_all (\<lambda>s'. lines s' = lines s) r \<Longrightarrow> wired w s \<Longrightarrow> res_all (wired w) r"
  by (auto simp: res_all_def wired_def)

lemma wired_frame [simp]:
  "(\<And>v. level (f v) = level v) \<Longrightarrow> wired w (vec_upd p f s) = wired w s" "wired w (nvic_irq_update s) = wired w s"
  by (simp_all add: wired_def lines_vec_upd)

lemma wired_fold:
  assumes "wired w s" and "\<And>i s. wired w s \<Longrightarrow> wired w (f i s)"
  shows "wired w (fold f is s)"
  using assms(1) by (induction "is" arbitrary: s) (simp_all add: assms(2))

lemma wired_write_irq:
  "wired w s \<Longrightarrow> wired w (write_irq_enable b startvec v sz attrs s)" "wired w s \<Longrightarrow> wired w (write_irq_pend b startvec v sz attrs s)"
  unfolding write_irq_enable_def write_irq_pend_def by (rule wired_fold, assumption, simp)+

lemma wired_set_prio: "wired w s \<Longrightarrow> res_all (wired w) (set_prio irq sec p s)"
  by (auto simp: res_all_def set_prio_def assert_that_eq_Inr Let_def split: if_splits)

lemma wired_write_irq_prios: "wired w s \<Longrightarrow> res_all (wired w) (write_irq_prios startvec v attrs is s)"
proof (induction "is" arbitrary: s)
  case (Cons i "is")
  then show ?case by (auto intro: res_all_bind [where Q = "wired w"] wired_set_prio res_all_Inr)
qed (simp add: res_all_Inr)

lemma wired_write_shpr: "wired w s \<Longrightarrow> res_all (wired w) (write_shpr base v attrs is s)"
proof (induction "is" arbitrary: s)
  case (Cons i "is")
  from res_all_bind [OF wired_set_prio [OF Cons.prems]] Cons.IH
  have "res_all (wired w) (res_bind (set_prio (base + i) b p s) (write_shpr base v attrs is))" for b p
    by blast
  with Cons show ?case
    by (auto split: option.split intro!: res_all_bind [of "\<lambda>_. True" "shpr_bank s (base + i) attrs"] simp: res_allI)
qed (simp add: res_all_Inr)

lemma wired_apply_updates: "\<lbrakk>wired w s; \<forall>u\<in>set us. \<forall>v. level (snd u v) = level v\<rbrakk> \<Longrightarrow> wired w (apply_updates us s)"
  by (induction us arbitrary: s) (simp_all add: apply_updates_simps)

lemma lines_write_cpu [simp]:
  "lines (write_mpu_ctrl w sec s) = lines s" "lines (write_mpu_rbar offset w sec s) = lines s"
  "lines (write_mpu_rasr offset w sec s) = lines s" "lines (write_mair b w sec s) = lines s"
  "lines (write_sau_regs offset w sec s) = lines s" "lines (write_fpccr w sec s) = lines s"
  "lines (write_fpdscr w sec s) = lines s" "lines (write_cfsr offset w' attrs s) = lines s"
  "lines (write_ccr w sec s) = lines s" "lines (write_itns offset w sec s) = lines s"
  "lines (signal_sysresetreq s) = lines s"
  by (simp_all add: write_mpu_ctrl_def write_mpu_rbar_def write_mpu_rasr_def write_mair_def write_sau_regs_def
      write_fpccr_def write_fpdscr_def write_cfsr_def write_ccr_def write_itns_def signal_sysresetreq_def Let_def
      split: option.split)

lemma lines_write_aircr [simp]: "lines (write_aircr w sec s) = lines s"
  unfolding write_aircr_def Let_def by (simp add: lines_vec_upd)

lemma wired_write_shcsr: "wired w s \<Longrightarrow> wired w (write_shcsr v sec s)"
  by (simp add: write_shcsr_def wired_apply_updates shcsr_updates_def)

lemma wired_write_icsr: "wired w s \<Longrightarrow> res_all (wired w) (write_icsr v sec s)"
proof -
  assume s: "wired w s"
  have pend: "res_all (wired w) (icsr_pend a b irq sec s)" if "wired w s" for a b irq sec s
    using that by (auto simp: icsr_pend_def res_all_Inr intro: wired_kept lines_set_pending lines_clear_pending)
  show ?thesis
    unfolding write_icsr_def
    by (intro res_all_bind [where Q = "wired w"] res_all_if pend res_all_Inr s) simp_all
qed

lemma wired_writel: "wired w s \<Longrightarrow> res_all (wired w) (nvic_writel offset v attrs s)"
  unfolding nvic_writel_def Let_def
  by (intro res_all_if res_all_Inr wired_write_icsr wired_kept [OF lines_set_pending(1)])
    (simp_all add: wired_write_shcsr, simp_all add: wired_def)

lemma wired_sysreg_write: "wired w s \<Longrightarrow> res_all (\<lambda>(_, s'). wired w s') (nvic_sysreg_write addr v sz attrs s)"
proof -
  assume s: "wired w s"
  have upd: "res_all (wired w) (res_bind r (\<lambda>s. Inr (nvic_irq_update s)))" if "res_all (wired w) r" for r
    using that by (rule res_all_bind) (simp add: res_all_Inr)
  have cfsr: "wired w (write_cfsr offset v' attrs s)" for offset v' using s by (simp add: wired_def)
  have "res_all (wired w) (sysreg_write_value (ucast addr) v sz attrs s)"
    unfolding sysreg_write_value_def Let_def
    by (intro res_all_if upd wired_write_irq_prios wired_write_shpr wired_writel s; (rule res_all_Inr)?)
      (simp_all add: s cfsr wired_write_irq)
  with s show ?thesis
    unfolding nvic_sysreg_write_def by (intro res_all_if res_all_bind [where Q = "wired w"]) (simp_all add: res_all_def)
qed

text \<open>The line that is driven takes the level it is driven to.\<close>

lemma lines_set_irq_level:
  assumes "set_irq_level n lev s = Inr s'" and "lev \<in> {0, 1}"
  shows "lines s' = (num_irq s, (\<lambda>k. level (vectors s k))(n + NVIC_FIRST_IRQ := word_of_int lev))"
proof -
  let ?t = "vec_upd (False, n + NVIC_FIRST_IRQ) (\<lambda>v. v\<lparr>level := word_of_int lev\<rparr>) s"
  have t: "lines ?t = (num_irq s, (\<lambda>k. level (vectors s k))(n + NVIC_FIRST_IRQ := word_of_int lev))"
    by (auto simp: lines_def vec_upd_def fun_eq_iff)
  have same: "lines s = (num_irq s, (\<lambda>k. level (vectors s k))(n + NVIC_FIRST_IRQ := word_of_int lev))"
    if "lev = uint (level (vectors s (n + NVIC_FIRST_IRQ)))"
    using that by (auto simp: lines_def fun_eq_iff)
  have "lines s' = lines ?t" if "armv7m_nvic_set_pending (n + NVIC_FIRST_IRQ) False ?t = Inr s'"
    using lines_set_pending(1) [of ?t "n + NVIC_FIRST_IRQ" False] that by (simp add: res_all_def)
  with assms t same show ?thesis
    by (auto simp: set_irq_level_def Let_def assert_that_eq_Inr split: if_splits)
qed

end
