(* ===== verification/Ptimer.thy ===== *)
theory Ptimer
  imports Irq_Line
begin

text \<open>
  The periodic countdown timer of \<open>hw/core/ptimer.c\<close> and the clocks it is driven by
  (\<open>hw/core/clock.c\<close>).  The owner of a timer is a state \<open>'d\<close>; the callback acts on the owner and the
  timer.  \<open>pt_timer\<close> is the expiry time of the underlying \<open>QEMUTimer\<close>, -1 when it is not armed.  The
  virtual time is an argument.  Instruction counting and the test mode are off.

  \<open>ptimer_transaction_commit\<close> loops as long as the callback asks for another reload; a run that does
  not end is the value \<^term>\<open>None\<close>.
\<close>

section \<open>Clocks\<close>

record Clock =
  clk_period :: u64
  clk_multiplier :: u32
  clk_divider :: u32
  clk_source :: bool

definition CLOCK_PERIOD_1SEC :: u64 where "CLOCK_PERIOD_1SEC = push_bit 32 1000000000"

definition CLOCK_PERIOD_FROM_HZ :: "u64 \<Rightarrow> u64" where
  "CLOCK_PERIOD_FROM_HZ hz = (if hz \<noteq> 0 then CLOCK_PERIOD_1SEC div hz else 0)"

definition muldiv64 :: "u64 \<Rightarrow> u32 \<Rightarrow> u32 \<Rightarrow> u64" where
  "muldiv64 a b c = word_of_int (uint a * uint b div uint c)"

definition clock_initfn :: Clock where
  "clock_initfn = \<lparr>clk_period = 0, clk_multiplier = 1, clk_divider = 1, clk_source = False\<rparr>"

definition clock_set :: "u64 \<Rightarrow> Clock \<Rightarrow> bool \<times> Clock" where
  "clock_set p clk = (if clk_period clk = p then (False, clk) else (True, clk\<lparr>clk_period := p\<rparr>))"

definition clock_set_hz :: "u32 \<Rightarrow> Clock \<Rightarrow> bool \<times> Clock" where
  "clock_set_hz hz clk = clock_set (CLOCK_PERIOD_FROM_HZ (ucast hz)) clk"

definition clock_get_child_period :: "Clock \<Rightarrow> u64" where
  "clock_get_child_period clk = muldiv64 (clk_period clk) (clk_multiplier clk) (clk_divider clk)"

text \<open>The clocks below the one being connected are connected later.\<close>

definition clock_set_source :: "Clock \<Rightarrow> Clock \<Rightarrow> Clock res" where
  "clock_set_source clk src =
     assert_that (\<not> clk_source clk) (Inr (clk\<lparr>clk_period := clock_get_child_period src, clk_source := True\<rparr>))"

definition clock_set_mul_div :: "u32 \<Rightarrow> u32 \<Rightarrow> Clock \<Rightarrow> (bool \<times> Clock) res" where
  "clock_set_mul_div multiplier divider clk =
     assert_that (divider \<noteq> 0)
       (if clk_multiplier clk = multiplier \<and> clk_divider clk = divider then Inr (False, clk)
        else Inr (True, clk\<lparr>clk_multiplier := multiplier, clk_divider := divider\<rparr>))"

definition clock_has_source :: "Clock \<Rightarrow> bool" where
  "clock_has_source clk \<longleftrightarrow> clk_source clk"

definition clock_get :: "Clock \<Rightarrow> u64" where
  "clock_get clk = clk_period clk"

definition clock_ticks_to_ns :: "Clock \<Rightarrow> u64 \<Rightarrow> u64" where
  "clock_ticks_to_ns clk ticks =
    (let p = uint (clk_period clk) * uint ticks; ns_low = word_of_int p :: u64; ns_high = word_of_int (p div 2 ^ 64) :: u64
     in if has_flag ns_high (push_bit 31 (mask 33)) then 0x7fffffffffffffff
        else drop_bit 32 ns_low OR push_bit 32 ns_high)"

definition clock_ns_to_ticks :: "Clock \<Rightarrow> u64 \<Rightarrow> u64" where
  "clock_ns_to_ticks clk ns =
     (if clk_period clk = 0 then 0 else word_of_int (uint ns * 2 ^ 32 div uint (clk_period clk)))"

section \<open>The timer\<close>

record ptimer_state =
  pt_enabled :: u8
  pt_limit :: u64
  pt_delta :: u64
  pt_period_frac :: u32
  pt_period :: u64
  pt_last_event :: u64
  pt_next_event :: u64
  pt_policy_mask :: u8
  pt_timer :: int
  in_transaction :: bool
  need_reload :: bool

definition PTIMER_POLICY_WRAP_AFTER_ONE_PERIOD :: u8 where "PTIMER_POLICY_WRAP_AFTER_ONE_PERIOD = 1"
definition PTIMER_POLICY_CONTINUOUS_TRIGGER :: u8 where "PTIMER_POLICY_CONTINUOUS_TRIGGER = 2"
definition PTIMER_POLICY_NO_IMMEDIATE_TRIGGER :: u8 where "PTIMER_POLICY_NO_IMMEDIATE_TRIGGER = 4"
definition PTIMER_POLICY_NO_IMMEDIATE_RELOAD :: u8 where "PTIMER_POLICY_NO_IMMEDIATE_RELOAD = 8"
definition PTIMER_POLICY_NO_COUNTER_ROUND_DOWN :: u8 where "PTIMER_POLICY_NO_COUNTER_ROUND_DOWN = 16"
definition PTIMER_POLICY_TRIGGER_ONLY_ON_DECREMENT :: u8 where "PTIMER_POLICY_TRIGGER_ONLY_ON_DECREMENT = 32"

abbreviation policy :: "ptimer_state \<Rightarrow> u8 \<Rightarrow> bool" where
  "policy s p \<equiv> has_flag (pt_policy_mask s) p"

abbreviation (input) DELTA_ADJUST :: int where "DELTA_ADJUST \<equiv> 1"
abbreviation (input) DELTA_NO_ADJUST :: int where "DELTA_NO_ADJUST \<equiv> - 1"

type_synonym 'd ptimer_cb = "'d \<times> ptimer_state \<Rightarrow> ('d \<times> ptimer_state) res"

definition pt_timer_mod :: "u64 \<Rightarrow> ptimer_state \<Rightarrow> ptimer_state" where
  "pt_timer_mod t s = s\<lparr>pt_timer := max (sint t) 0\<rparr>"

definition pt_timer_del :: "ptimer_state \<Rightarrow> ptimer_state" where
  "pt_timer_del s = s\<lparr>pt_timer := - 1\<rparr>"

text \<open>The number of periods to count down, after the adjustments the policies ask for.\<close>

definition reload_delta :: "int \<Rightarrow> ptimer_state \<Rightarrow> u64" where
  "reload_delta delta_adjust s =
    (let delta = (if policy s PTIMER_POLICY_WRAP_AFTER_ONE_PERIOD \<and> delta_adjust \<noteq> DELTA_NO_ADJUST
                  then pt_delta s + word_of_int delta_adjust else pt_delta s);
         delta = (if delta = 0 \<and> policy s PTIMER_POLICY_CONTINUOUS_TRIGGER \<and> pt_enabled s = 1 \<and> pt_limit s = 0 then 1 else delta);
         delta = (if delta = 0 \<and> policy s PTIMER_POLICY_NO_IMMEDIATE_TRIGGER \<and> delta_adjust \<noteq> DELTA_NO_ADJUST then 1 else delta)
     in if delta = 0 \<and> policy s PTIMER_POLICY_NO_IMMEDIATE_RELOAD \<and> pt_enabled s = 1 \<and> pt_limit s \<noteq> 0 then 1 else delta)"

text \<open>The part after the possible callback.\<close>

definition ptimer_schedule :: "int \<Rightarrow> ptimer_state \<Rightarrow> ptimer_state" where
  "ptimer_schedule delta_adjust s =
    (let s = (if pt_delta s = 0 \<and> \<not> policy s PTIMER_POLICY_NO_IMMEDIATE_RELOAD then s\<lparr>pt_delta := pt_limit s\<rparr> else s)
     in if pt_period s = 0 \<and> pt_period_frac s = 0 then (pt_timer_del s)\<lparr>pt_enabled := 0\<rparr>
        else
          let delta = reload_delta delta_adjust s
          in if delta = 0 then (if pt_enabled s = 0 then s else (pt_timer_del s)\<lparr>pt_enabled := 0\<rparr>)
             else
               let (period, period_frac) = (if pt_enabled s = 1 \<and> delta * pt_period s < 10000
                     then (10000 div delta, 0) else (pt_period s, pt_period_frac s));
                   next_event = pt_next_event s + delta * period +
                     (if period_frac \<noteq> 0 then drop_bit 32 (ucast period_frac * delta) else 0)
               in pt_timer_mod next_event (s\<lparr>pt_last_event := pt_next_event s, pt_next_event := next_event\<rparr>))"

definition ptimer_reload :: "'d ptimer_cb \<Rightarrow> int \<Rightarrow> 'd \<times> ptimer_state \<Rightarrow> ('d \<times> ptimer_state) res" where
  "ptimer_reload cb delta_adjust ds =
    (let s = snd ds;
         suppress_trigger = (delta_adjust = 0 \<and> policy s PTIMER_POLICY_TRIGGER_ONLY_ON_DECREMENT)
     in res_bind (if pt_delta s = 0 \<and> \<not> policy s PTIMER_POLICY_NO_IMMEDIATE_TRIGGER \<and> \<not> suppress_trigger then cb ds else Inr ds)
          (\<lambda>(d, s). Inr (d, ptimer_schedule delta_adjust s)))"

definition clz64 :: "u64 \<Rightarrow> nat" where
  "clz64 w = length (takeWhile (\<lambda>i. \<not> bit w (63 - i)) [0..<64])"

text \<open>Division of the remaining time by the period, scaled to use the 64 bits.\<close>

definition ptimer_divide :: "u64 \<Rightarrow> u64 \<Rightarrow> u32 \<Rightarrow> u64 res" where
  "ptimer_divide rem period period_frac =
    (let shift = min (clz64 rem) (clz64 period);
         dvs = push_bit shift period;
         dvs = (if shift \<ge> 32 then dvs OR push_bit (shift - 32) (ucast period_frac)
                else
                  let dvs = (if shift \<noteq> 0 then dvs OR ucast (drop_bit (32 - shift) period_frac) else dvs)
                  in if push_bit shift period_frac \<noteq> 0 then dvs + 1 else dvs)
     in if dvs = 0 then Inl DivByZero else Inr (push_bit shift rem div dvs))"

definition ptimer_get_count :: "int \<Rightarrow> ptimer_state \<Rightarrow> u64 res" where
  "ptimer_get_count now_ns s =
     (if pt_enabled s \<noteq> 0 \<and> pt_delta s \<noteq> 0
      then
        let now = word_of_int now_ns;
            expired = (0 \<le> sint (now - pt_next_event s)); oneshot = (pt_enabled s = 2);
            round_up = (\<lambda>counter. if policy s PTIMER_POLICY_NO_COUNTER_ROUND_DOWN \<and> now \<noteq> pt_last_event s
                          then counter + 1 else counter)
        in if expired then Inr (round_up 0)
           else
             let (period, period_frac) = (if \<not> oneshot \<and> pt_delta s * pt_period s < 10000
                   then (10000 div pt_delta s, 0) else (pt_period s, pt_period_frac s))
             in res_bind (ptimer_divide (pt_next_event s - now) period period_frac) (\<lambda>counter.
                  if policy s PTIMER_POLICY_WRAP_AFTER_ONE_PERIOD \<and> \<not> oneshot \<and> pt_delta s = pt_limit s \<and>
                     (if now = pt_last_event s then counter = pt_limit s + 1 else counter = pt_limit s)
                  then Inr 0 else Inr (round_up counter))
      else Inr (pt_delta s))"

definition ptimer_set_count :: "u64 \<Rightarrow> ptimer_state \<Rightarrow> ptimer_state res" where
  "ptimer_set_count count s =
     assert_that (in_transaction s)
       (let s = s\<lparr>pt_delta := count\<rparr> in Inr (if pt_enabled s \<noteq> 0 then s\<lparr>need_reload := True\<rparr> else s))"

definition ptimer_run :: "bool \<Rightarrow> ptimer_state \<Rightarrow> ptimer_state res" where
  "ptimer_run oneshot s =
    (let was_disabled = (pt_enabled s = 0)
     in assert_that (in_transaction s)
       (if was_disabled \<and> pt_period s = 0 \<and> pt_period_frac s = 0 then Inr s
        else let s = s\<lparr>pt_enabled := (if oneshot then 2 else 1)\<rparr>
             in Inr (if was_disabled then s\<lparr>need_reload := True\<rparr> else s)))"

definition ptimer_stop :: "int \<Rightarrow> ptimer_state \<Rightarrow> ptimer_state res" where
  "ptimer_stop now s =
     assert_that (in_transaction s)
       (if pt_enabled s = 0 then Inr s
        else res_bind (ptimer_get_count now s)
          (\<lambda>c. Inr ((pt_timer_del (s\<lparr>pt_delta := c\<rparr>))\<lparr>pt_enabled := 0, need_reload := False\<rparr>)))"

definition ptimer_set_period :: "int \<Rightarrow> u64 \<Rightarrow> ptimer_state \<Rightarrow> ptimer_state res" where
  "ptimer_set_period now period s =
     assert_that (in_transaction s)
       (res_bind (ptimer_get_count now s) (\<lambda>c.
         let s = s\<lparr>pt_delta := c, pt_period := period, pt_period_frac := 0\<rparr>
         in Inr (if pt_enabled s \<noteq> 0 then s\<lparr>need_reload := True\<rparr> else s)))"

definition ptimer_set_period_from_clock :: "int \<Rightarrow> Clock \<Rightarrow> u32 \<Rightarrow> ptimer_state \<Rightarrow> ptimer_state res" where
  "ptimer_set_period_from_clock now clk divisor s =
    (let raw_period = clock_get clk
     in assert_that (in_transaction s)
       (res_bind (ptimer_get_count now s) (\<lambda>c.
         let period_frac = take_bit 32 raw_period * ucast divisor;
             s = s\<lparr>pt_delta := c, pt_period := take_bit 32 (drop_bit 32 raw_period) * ucast divisor + take_bit 32 (drop_bit 32 period_frac),
               pt_period_frac := ucast period_frac\<rparr>
         in Inr (if pt_enabled s \<noteq> 0 then s\<lparr>need_reload := True\<rparr> else s))))"

definition ptimer_set_limit :: "u64 \<Rightarrow> bool \<Rightarrow> ptimer_state \<Rightarrow> ptimer_state res" where
  "ptimer_set_limit limit reload s =
     assert_that (in_transaction s)
       (let s = s\<lparr>pt_limit := limit\<rparr>; s = (if reload then s\<lparr>pt_delta := limit\<rparr> else s)
        in Inr (if pt_enabled s \<noteq> 0 \<and> reload then s\<lparr>need_reload := True\<rparr> else s))"

definition ptimer_get_limit :: "ptimer_state \<Rightarrow> u64" where
  "ptimer_get_limit s = pt_limit s"

definition ptimer_transaction_begin :: "ptimer_state \<Rightarrow> ptimer_state res" where
  "ptimer_transaction_begin s =
     assert_that (\<not> in_transaction s) (Inr (s\<lparr>in_transaction := True, need_reload := False\<rparr>))"

partial_function (option) commit_loop :: "'d ptimer_cb \<Rightarrow> int \<Rightarrow> 'd \<times> ptimer_state \<Rightarrow> ('d \<times> ptimer_state) res option" where
  "commit_loop cb now ds =
     (if need_reload (snd ds) \<and> pt_enabled (snd ds) \<noteq> 0
      then (case ptimer_reload cb 0 (fst ds, (snd ds)\<lparr>need_reload := False, pt_next_event := word_of_int now\<rparr>) of
              Inl e \<Rightarrow> Some (Inl e)
            | Inr ds \<Rightarrow> commit_loop cb now ds)
      else Some (Inr ds))"

declare commit_loop.simps [code]

definition ptimer_transaction_commit :: "'d ptimer_cb \<Rightarrow> int \<Rightarrow> 'd \<times> ptimer_state \<Rightarrow> ('d \<times> ptimer_state) res" where
  "ptimer_transaction_commit cb now ds =
     assert_that (in_transaction (snd ds))
       (case commit_loop cb now ds of
          None \<Rightarrow> Inl Diverges
        | Some r \<Rightarrow> res_bind r (\<lambda>(d, s). Inr (d, s\<lparr>in_transaction := False\<rparr>)))"

definition ptimer_tick :: "'d ptimer_cb \<Rightarrow> int \<Rightarrow> 'd \<times> ptimer_state \<Rightarrow> ('d \<times> ptimer_state) res" where
  "ptimer_tick cb now ds =
     res_bind (ptimer_transaction_begin (snd ds)) (\<lambda>s.
       let delta_adjust = (if pt_delta s = 0 \<or> pt_limit s = 0 then DELTA_NO_ADJUST else DELTA_ADJUST);
           trigger = (if pt_enabled s = 2 \<or> policy s PTIMER_POLICY_NO_IMMEDIATE_TRIGGER then True else delta_adjust = DELTA_ADJUST)
       in res_bind (if pt_enabled s = 2 then Inr (fst ds, s\<lparr>pt_delta := 0, pt_enabled := 0\<rparr>)
                    else ptimer_reload cb delta_adjust (fst ds, s\<lparr>pt_delta := pt_limit s\<rparr>)) (\<lambda>ds.
            res_bind (if trigger then cb ds else Inr ds) (ptimer_transaction_commit cb now)))"

definition ptimer_init :: "u8 \<Rightarrow> ptimer_state res" where
  "ptimer_init policy_mask =
     assert_that (\<not> (has_flag policy_mask PTIMER_POLICY_TRIGGER_ONLY_ON_DECREMENT \<and> has_flag policy_mask PTIMER_POLICY_NO_IMMEDIATE_TRIGGER))
       (Inr \<lparr>pt_enabled = 0, pt_limit = 0, pt_delta = 0, pt_period_frac = 0, pt_period = 0, pt_last_event = 0, pt_next_event = 0,
          pt_policy_mask = policy_mask, pt_timer = - 1, in_transaction = False, need_reload = False\<rparr>)"

end
