(* ===== verification/Sys_Tick.thy ===== *)
theory Sys_Tick
  imports Ptimer Mem_Dispatch
begin

text \<open>
  The SysTick timer of the CPU (\<open>hw/timer/armv7m_systick.c\<close>) on top of the countdown timer.  The state
  is the device and its timer; the pulses on the line to the interrupt controller are recorded.  The
  fields \<open>reload\<close> and \<open>tick\<close> of the source are never used.
\<close>

section \<open>Device\<close>

definition SYSTICK_ENABLE :: u64 where "SYSTICK_ENABLE = 1"
definition SYSTICK_TICKINT :: u64 where "SYSTICK_TICKINT = 2"
definition SYSTICK_CLKSOURCE :: u64 where "SYSTICK_CLKSOURCE = 4"
definition SYSTICK_COUNTFLAG :: u64 where "SYSTICK_COUNTFLAG = 0x10000"
definition SYSCALIB_NOREF :: u32 where "SYSCALIB_NOREF = 0x80000000"
definition SYSCALIB_SKEW :: u32 where "SYSCALIB_SKEW = 0x40000000"
definition SYSCALIB_TENMS :: u32 where "SYSCALIB_TENMS = 0xffffff"

record SysTickState =
  st_control :: u32
  st_irq :: irq_log
  refclk :: Clock
  cpuclk :: Clock

type_synonym systick = "SysTickState \<times> ptimer_state"

abbreviation csr_flag :: "SysTickState \<Rightarrow> u64 \<Rightarrow> bool" where
  "csr_flag d f \<equiv> has_flag (st_control d) (ucast f)"

definition systick_set_period_from_clock :: "int \<Rightarrow> systick \<Rightarrow> systick res" where
  "systick_set_period_from_clock now ds =
     res_bind (ptimer_set_period_from_clock now (if csr_flag (fst ds) SYSTICK_CLKSOURCE then cpuclk (fst ds) else refclk (fst ds)) 1 (snd ds))
       (\<lambda>s. Inr (fst ds, s))"

definition systick_timer_tick :: "int \<Rightarrow> systick \<Rightarrow> systick res" where
  "systick_timer_tick now ds =
    (let d = (fst ds)\<lparr>st_control := st_control (fst ds) OR ucast SYSTICK_COUNTFLAG\<rparr>;
         d = (if csr_flag d SYSTICK_TICKINT then d\<lparr>st_irq := qemu_irq_pulse recorder (st_irq d)\<rparr> else d)
     in if ptimer_get_limit (snd ds) = 0 then res_bind (ptimer_stop now (snd ds)) (\<lambda>s. Inr (d, s)) else Inr (d, snd ds))"

definition systick_read :: "int \<Rightarrow> u64 \<Rightarrow> nat \<Rightarrow> MemTxAttrs \<Rightarrow> systick \<Rightarrow> (MemTxResult \<times> u64 option \<times> systick) res" where
  "systick_read now addr sz attrs ds =
    (let (d, s) = ds
     in if at_user attrs then Inr (MEMTX_ERROR, None, ds)
        else if addr = 0x0
          then Inr (MEMTX_OK, Some (ucast (st_control d)), (d\<lparr>st_control := st_control d AND NOT (ucast SYSTICK_COUNTFLAG)\<rparr>, s))
        else if addr = 0x4 then Inr (MEMTX_OK, Some (ucast (ucast (ptimer_get_limit s) :: u32)), ds)
        else if addr = 0x8
          then res_bind (ptimer_get_count now s) (\<lambda>c. Inr (MEMTX_OK, Some (ucast (ucast c :: u32)), ds))
        else if addr = 0xc
          then if \<not> clock_has_source (refclk d) then Inr (MEMTX_OK, Some (ucast SYSCALIB_NOREF), ds)
               else
                 let val = (ucast (clock_ns_to_ticks (refclk d) 10000000) - 1) AND SYSCALIB_TENMS;
                     val = (if clock_ticks_to_ns (refclk d) (ucast (val + 1)) \<noteq> 10000000 then val OR SYSCALIB_SKEW else val)
                 in Inr (MEMTX_OK, Some (ucast val), ds)
        else Inr (MEMTX_OK, Some 0, ds))"

definition systick_write_csr :: "int \<Rightarrow> u64 \<Rightarrow> systick \<Rightarrow> systick res" where
  "systick_write_csr now w ds =
    (let w = (if \<not> clock_has_source (refclk (fst ds)) then w OR SYSTICK_CLKSOURCE else w)
     in res_bind (ptimer_transaction_begin (snd ds)) (\<lambda>s.
          let oldval = st_control (fst ds);
              d = (fst ds)\<lparr>st_control := (oldval AND 0xfffffff8) OR ucast (w AND 7)\<rparr>
          in res_bind (if has_flag (ucast oldval XOR w) SYSTICK_CLKSOURCE then systick_set_period_from_clock now (d, s) else Inr (d, s)) (\<lambda>(d, s).
             res_bind (if has_flag (ucast oldval XOR w) SYSTICK_ENABLE
                       then if has_flag w SYSTICK_ENABLE then ptimer_run False s else ptimer_stop now s
                       else Inr s) (\<lambda>s.
               ptimer_transaction_commit (systick_timer_tick now) now (d, s)))))"

definition systick_write_rvr :: "int \<Rightarrow> u64 \<Rightarrow> systick \<Rightarrow> systick res" where
  "systick_write_rvr now w ds =
     res_bind (ptimer_transaction_begin (snd ds)) (\<lambda>s.
       res_bind (ptimer_set_limit (w AND 0xffffff) False s) (\<lambda>s.
         ptimer_transaction_commit (systick_timer_tick now) now (fst ds, s)))"

definition systick_write_cvr :: "int \<Rightarrow> systick \<Rightarrow> systick res" where
  "systick_write_cvr now ds =
     res_bind (ptimer_transaction_begin (snd ds)) (\<lambda>s.
       res_bind (if ptimer_get_limit s = 0 then ptimer_stop now s else Inr s) (\<lambda>s.
         res_bind (ptimer_set_count 0 s) (\<lambda>s.
           ptimer_transaction_commit (systick_timer_tick now) now
             ((fst ds)\<lparr>st_control := st_control (fst ds) AND NOT (ucast SYSTICK_COUNTFLAG)\<rparr>, s))))"

definition systick_write :: "int \<Rightarrow> u64 \<Rightarrow> u64 \<Rightarrow> nat \<Rightarrow> MemTxAttrs \<Rightarrow> systick \<Rightarrow> (MemTxResult \<times> systick) res" where
  "systick_write now addr w sz attrs ds =
     (if at_user attrs then Inr (MEMTX_ERROR, ds)
      else res_bind (if addr = 0x0 then systick_write_csr now w ds
                     else if addr = 0x4 then systick_write_rvr now w ds
                     else if addr = 0x8 then systick_write_cvr now ds
                     else Inr ds) (\<lambda>ds. Inr (MEMTX_OK, ds)))"

definition systick_reset :: "int \<Rightarrow> systick \<Rightarrow> systick res" where
  "systick_reset now ds =
     res_bind (ptimer_transaction_begin (snd ds)) (\<lambda>s.
       let d = (fst ds)\<lparr>st_control := (if \<not> clock_has_source (refclk (fst ds)) then ucast SYSTICK_CLKSOURCE else 0)\<rparr>
       in res_bind (ptimer_stop now s) (\<lambda>s. res_bind (ptimer_set_count 0 s) (\<lambda>s. res_bind (ptimer_set_limit 0 False s) (\<lambda>s.
            res_bind (systick_set_period_from_clock now (d, s)) (ptimer_transaction_commit (systick_timer_tick now) now)))))"

definition systick_cpuclk_update :: "int \<Rightarrow> systick \<Rightarrow> systick res" where
  "systick_cpuclk_update now ds =
     res_bind (ptimer_transaction_begin (snd ds)) (\<lambda>s.
       res_bind (ptimer_set_period_from_clock now (cpuclk (fst ds)) 1 s) (\<lambda>s.
         ptimer_transaction_commit (systick_timer_tick now) now (fst ds, s)))"

definition systick_refclk_update :: "int \<Rightarrow> systick \<Rightarrow> systick res" where
  "systick_refclk_update now ds =
     res_bind (ptimer_transaction_begin (snd ds)) (\<lambda>s.
       res_bind (ptimer_set_period_from_clock now (refclk (fst ds)) 1 s) (\<lambda>s.
         ptimer_transaction_commit (systick_timer_tick now) now (fst ds, s)))"

text \<open>Set-up fails when the CPU clock is not connected.\<close>

definition systick_realize :: "Clock \<Rightarrow> Clock \<Rightarrow> systick option res" where
  "systick_realize ref cpu =
     res_bind (ptimer_init (PTIMER_POLICY_WRAP_AFTER_ONE_PERIOD OR PTIMER_POLICY_NO_COUNTER_ROUND_DOWN OR
         PTIMER_POLICY_NO_IMMEDIATE_RELOAD OR PTIMER_POLICY_TRIGGER_ONLY_ON_DECREMENT)) (\<lambda>s.
       Inr (if \<not> clock_has_source cpu then None
            else Some (\<lparr>st_control = 0, st_irq = [], refclk = ref, cpuclk = cpu\<rparr>, s)))"

text \<open>The expiry of the underlying timer.\<close>

definition systick_expire :: "int \<Rightarrow> systick \<Rightarrow> systick res" where
  "systick_expire now ds =
     (if 0 \<le> pt_timer (snd ds) \<and> pt_timer (snd ds) \<le> now
      then ptimer_tick (systick_timer_tick now) now (fst ds, pt_timer_del (snd ds)) else Inr ds)"

definition systick_ops :: "int \<Rightarrow> systick MemoryRegionOps" where
  "systick_ops now = \<lparr>
     ops_read = \<lambda>addr sz attrs ds. res_bind (systick_read now addr sz attrs ds) (\<lambda>(r, v, ds). Inr (r, case v of None \<Rightarrow> 0 | Some v \<Rightarrow> v, ds)),
     ops_write = systick_write now,
     endianness = DEVICE_NATIVE_ENDIAN, valid_min_access_size = 4, valid_max_access_size = 4, valid_unaligned = False,
     valid_accepts = None, impl_min_access_size = 0, impl_max_access_size = 0, impl_unaligned = False\<rparr>"

end
