(* ===== verification/Sys_Tick_Run.thy ===== *)
theory Sys_Tick_Run
  imports Sys_Tick
begin

text \<open>
  Correctness of the SysTick timer: its operations return, the scaled division of the countdown
  timer never divides by zero and rounds down, and the timer stays in its well-formed states.
\<close>

section \<open>Scaled division\<close>

lemma clz64_le: "clz64 w \<le> 64"
  unfolding clz64_def using length_takeWhile_le [of _ "[0..<64]"] by simp

lemma clz64_bound: "uint w < 2 ^ (64 - clz64 w)"
proof -
  have high: "\<not> bit w (63 - i)" if "i < clz64 w" for i
  proof -
    let ?P = "\<lambda>i. \<not> bit w (63 - i)"
    from that have i: "i < length (takeWhile ?P [0..<64])" by (simp add: clz64_def)
    then have "?P (takeWhile ?P [0..<64] ! i)" using nth_mem set_takeWhileD by fast
    moreover have "takeWhile ?P [0..<64] ! i = i" using takeWhile_nth [OF i] that clz64_le [of w] by simp
    ultimately show ?thesis by simp
  qed
  have "\<not> bit w j" if "64 - clz64 w \<le> j" for j
  proof (cases "j < 64")
    case True
    with that have "63 - j < clz64 w" by linarith
    from high [OF this] True show ?thesis by simp
  qed (use bit_imp_le_length [of w j] in auto)
  then have "take_bit (64 - clz64 w) w = w"
    by (intro bit_word_eqI) (simp add: bit_take_bit_iff, metis leI)
  then have "uint w = take_bit (64 - clz64 w) (uint w)"
    by (metis unsigned_take_bit_eq)
  also have "\<dots> < 2 ^ (64 - clz64 w)" by simp
  finally show ?thesis .
qed

lemma push_bit_clz:
  assumes "s \<le> clz64 w"
  shows "uint (push_bit s w) = uint w * 2 ^ s" and "uint w * 2 ^ s + 2 ^ s \<le> 2 ^ 64"
proof -
  have "uint w + 1 \<le> 2 ^ (64 - s)"
    using clz64_bound [of w] assms clz64_le [of w] power_increasing [of "64 - clz64 w" "64 - s" "2 :: int"] by linarith
  then have "(uint w + 1) * 2 ^ s \<le> 2 ^ (64 - s) * 2 ^ s" by (intro mult_right_mono) simp_all
  also have "2 ^ (64 - s) * 2 ^ s = (2 :: int) ^ 64"
    using assms clz64_le [of w] by (simp flip: power_add)
  finally show *: "uint w * 2 ^ s + 2 ^ s \<le> 2 ^ 64" by (simp add: algebra_simps)
  have "(0 :: int) < 2 ^ s" by simp
  with * have "uint w * 2 ^ s < 2 ^ 64" by linarith
  then show "uint (push_bit s w) = uint w * 2 ^ s"
    by (simp add: unsigned_push_bit_eq take_bit_int_eq_self push_bit_eq_mult [of s "uint w"])
qed

lemma or_low_bits:
  assumes "uint b < 2 ^ s" and "uint (a :: u64) = p * 2 ^ s" and "p * 2 ^ s + 2 ^ s \<le> 2 ^ 64"
  shows "uint (a OR b) = uint a + uint b"
proof -
  have "uint a AND uint b = 0"
  proof (rule bit_eqI)
    fix n
    have "\<not> bit (uint a) n" if "n < s"
      using that by (simp add: assms(2) flip: push_bit_eq_mult) (simp add: bit_push_bit_iff)
    moreover have "\<not> bit (uint b) n" if "\<not> n < s"
    proof -
      have "take_bit s (uint b) = uint b" using assms(1) by (simp add: take_bit_int_eq_self)
      with that show ?thesis by (metis bit_take_bit_iff)
    qed
    ultimately show "bit (uint a AND uint b) n = bit 0 n" by (auto simp: bit_and_iff)
  qed
  then have "uint a OR uint b = uint a + uint b" by (simp add: disjunctive_add_eq_or)
  then show ?thesis by (simp add: unsigned_or_eq)
qed

text \<open>The divisor is the scaled period, rounded up; the quotient is at most the exact one.\<close>

lemma uint_pos: "(w :: u64) \<noteq> 0 \<Longrightarrow> 0 < uint w"
  by (metis order_le_less uint_0_iff uint_ge_0)

lemma u64_div: "dvs \<noteq> 0 \<Longrightarrow> uint (x div dvs :: u64) * uint dvs \<le> uint x"
  using uint_pos [of dvs] pos_mod_sign [of "uint dvs" "uint x"] by (simp add: uint_div minus_mod_eq_div_mult [symmetric])

lemma uint_u32_less: "uint (f :: u32) < 2 ^ 32"
  using uint_lt2p [of f] by simp

lemma uint_ucast_up [simp]: "uint (ucast (f :: u32) :: u64) = uint f"
proof -
  have "uint f < 2 ^ 64" using uint_u32_less [of f] by simp
  then show ?thesis by (simp add: unsigned_ucast_eq take_bit_int_eq_self)
qed

lemma pow_split: "a \<le> b \<Longrightarrow> (2 :: int) ^ a * 2 ^ (b - a) = 2 ^ b"
  by (simp flip: power_add)

text \<open>The divisor, scaled by \<open>2 ^ sh\<close> and rounded up.\<close>

definition scaled_divisor :: "nat \<Rightarrow> u64 \<Rightarrow> u32 \<Rightarrow> u64" where
  "scaled_divisor sh p frac =
    (if sh \<ge> 32 then push_bit sh p OR push_bit (sh - 32) (ucast frac)
     else let d = (if sh \<noteq> 0 then push_bit sh p OR ucast (drop_bit (32 - sh) frac) else push_bit sh p)
          in if push_bit sh frac \<noteq> 0 then d + 1 else d)"

lemma uint_frac: "uint (frac :: u32) < 2 ^ 32"
  using uint_lt2p [of frac] by simp

lemma scaled_divisor_high:
  assumes "p \<noteq> 0" and "sh \<le> clz64 p" and True: "32 \<le> sh"
  shows "(uint p * 2 ^ 32 + uint frac) * 2 ^ sh \<le> uint (scaled_divisor sh p frac) * 2 ^ 32 \<and> 0 < uint (scaled_divisor sh p frac)"
proof -
  note p = push_bit_clz [of sh p] and frac = uint_frac [of frac] and p0 = uint_pos [OF assms(1)]
  have le: "uint frac * 2 ^ (sh - 32) < 2 ^ sh"
  proof -
    have "uint frac * 2 ^ (sh - 32) < 2 ^ 32 * 2 ^ (sh - 32)" using frac by (intro mult_strict_right_mono) simp_all
    also have "\<dots> = (2 :: int) ^ sh" by (rule pow_split [OF True])
    finally show ?thesis .
  qed
  also have "(2 :: int) ^ sh \<le> 2 ^ 64" using clz64_le [of p] assms(2) by (intro power_increasing) auto
  finally have "uint (push_bit (sh - 32) (ucast frac :: u64)) = uint frac * 2 ^ (sh - 32)"
    by (simp add: unsigned_push_bit_eq take_bit_int_eq_self push_bit_eq_mult [of _ "uint frac"])
  with or_low_bits [of "push_bit (sh - 32) (ucast frac)" sh "push_bit sh p" "uint p"] le p True
  have "uint (scaled_divisor sh p frac) = uint p * 2 ^ sh + uint frac * 2 ^ (sh - 32)" by (simp add: scaled_divisor_def assms(2))
  moreover have "uint frac * 2 ^ (sh - 32) * 2 ^ 32 = uint frac * 2 ^ sh" using pow_split [OF True] by (metis mult.assoc mult.commute)
  ultimately have "uint (scaled_divisor sh p frac) * 2 ^ 32 = uint p * 2 ^ sh * 2 ^ 32 + uint frac * 2 ^ sh" and "0 < uint (scaled_divisor sh p frac)"
    using p0 by (simp_all only: distrib_right) (simp add: add_pos_nonneg)
  moreover have "(uint p * 2 ^ 32 + uint frac) * 2 ^ sh = uint p * 2 ^ sh * 2 ^ 32 + uint frac * 2 ^ sh" by algebra
  ultimately show ?thesis by simp
qed

lemma scaled_divisor_low:
  assumes "p \<noteq> 0" and "uint p < 2 ^ 32" and "sh \<le> clz64 p" and False: "\<not> 32 \<le> sh"
  shows "(uint p * 2 ^ 32 + uint frac) * 2 ^ sh \<le> uint (scaled_divisor sh p frac) * 2 ^ 32 \<and> 0 < uint (scaled_divisor sh p frac)"
proof -
  note p = push_bit_clz [of sh p] and frac = uint_frac [of frac] and p0 = uint_pos [OF assms(1)]
  define k where "k = (2 :: int) ^ (32 - sh)"
  have k: "k * 2 ^ sh = 2 ^ 32" "0 < k"
    using pow_split [of sh 32] False unfolding k_def by (simp_all only: mult.commute) simp_all
  have "uint (drop_bit (32 - sh) frac) = uint frac div k"
    using uint_u32_less [of frac]
    by (simp add: k_def unsigned_drop_bit_eq drop_bit_eq_div [of _ "uint frac"] take_bit_int_eq_self del: drop_bit_eq_div)
  moreover have low: "uint frac div k < 2 ^ sh"
  proof -
    have "uint frac < 2 ^ sh * k" using frac k by (simp add: mult.commute)
    moreover have "uint frac div k * k \<le> uint frac"
      using pos_mod_sign [OF k(2), of "uint frac"] by (simp add: minus_mod_eq_div_mult [symmetric])
    ultimately have "uint frac div k * k < 2 ^ sh * k" by linarith
    then show ?thesis using k(2) by (simp only: mult_less_cancel_right)
  qed
  ultimately have d: "uint (if sh \<noteq> 0 then push_bit sh p OR ucast (drop_bit (32 - sh) frac) else push_bit sh p) = uint p * 2 ^ sh + uint frac div k"
    using or_low_bits [of "ucast (drop_bit (32 - sh) frac)" sh "push_bit sh p" "uint p"] p
    using assms(3) by auto
  define e where "e = (if push_bit sh frac \<noteq> 0 then 1 else 0 :: int)"
  have "uint (push_bit sh frac) = (uint frac * 2 ^ sh) mod 2 ^ 32"
    by (simp add: unsigned_push_bit_eq push_bit_eq_mult [of _ "uint frac"] take_bit_eq_mod)
  also have "\<dots> = uint frac mod k * 2 ^ sh" by (simp only: k(1) [symmetric] mult_mod_left)
  finally have e: "uint frac mod k \<noteq> 0 \<Longrightarrow> e = 1" by (auto simp: e_def)
  have small: "uint p * 2 ^ sh + uint frac div k + 1 < 2 ^ 64"
  proof -
    have "uint p * 2 ^ sh + uint frac div k + 1 \<le> (uint p + 1) * 2 ^ sh" using low by (simp add: distrib_right)
    also have "\<dots> \<le> 2 ^ 32 * 2 ^ 31" using assms(2) False by (intro mult_mono power_increasing) auto
    finally show ?thesis by simp
  qed
  moreover have nonneg: "0 \<le> uint p * 2 ^ sh + uint frac div k" using k(2) by (simp add: pos_imp_zdiv_nonneg_iff)
  ultimately have "uint (scaled_divisor sh p frac) = uint p * 2 ^ sh + uint frac div k + e"
    using False d by (simp add: scaled_divisor_def e_def Let_def uint_word_ariths)
  moreover have "uint frac * 2 ^ sh \<le> (uint frac div k + e) * 2 ^ 32"
  proof -
    have "uint frac mod k \<le> e * k"
    proof (cases "uint frac mod k = 0")
      case False
      from e [OF this] show ?thesis using pos_mod_bound [OF k(2), of "uint frac"] by (simp only: mult_1 order_less_imp_le)
    qed (use k(2) in \<open>simp add: e_def\<close>)
    moreover have "uint frac div k * k = uint frac - uint frac mod k" by (simp add: minus_mod_eq_div_mult)
    ultimately have "uint frac \<le> (uint frac div k + e) * k" by (simp only: distrib_right)
    then have "uint frac * 2 ^ sh \<le> (uint frac div k + e) * k * 2 ^ sh" by (intro mult_right_mono) (simp_all add: distrib_right)
    then show ?thesis using k(1) by (simp add: mult.assoc)
  qed
  moreover have "0 < uint p * 2 ^ sh" "0 \<le> uint frac div k" "0 \<le> e" using p0 k(2) by (simp_all add: pos_imp_zdiv_nonneg_iff e_def)
  ultimately show ?thesis by (simp add: distrib_right)
qed

lemma ptimer_divide_low:
  assumes "p \<noteq> 0" and "uint p < 2 ^ 32" and "rem \<noteq> 0"
  shows "\<exists>q. ptimer_divide rem p frac = Inr q \<and> uint q * (uint p * 2 ^ 32 + uint frac) \<le> uint rem * 2 ^ 32"
proof -
  define sh where "sh = min (clz64 rem) (clz64 p)"
  define dvs where "dvs = scaled_divisor sh p frac"
  note r = push_bit_clz [of sh rem]
  have dvs: "(uint p * 2 ^ 32 + uint frac) * 2 ^ sh \<le> uint dvs * 2 ^ 32 \<and> 0 < uint dvs"
    using scaled_divisor_high [OF assms(1), of sh] scaled_divisor_low [OF assms(1,2), of sh] by (cases "32 \<le> sh") (simp_all add: dvs_def sh_def)
  then have nz: "dvs \<noteq> 0" by auto
  then have "ptimer_divide rem p frac = Inr (push_bit sh rem div dvs)"
    by (simp add: ptimer_divide_def Let_def sh_def [symmetric] dvs_def scaled_divisor_def)
  moreover have "uint (push_bit sh rem div dvs) * (uint p * 2 ^ 32 + uint frac) \<le> uint rem * 2 ^ 32"
  proof -
    let ?q = "uint (push_bit sh rem div dvs)"
    have "?q * (uint p * 2 ^ 32 + uint frac) * 2 ^ sh \<le> ?q * (uint dvs * 2 ^ 32)"
      using dvs by (simp add: mult.assoc mult_left_mono)
    also have "\<dots> \<le> uint (push_bit sh rem) * 2 ^ 32" using u64_div [OF nz, of "push_bit sh rem"] by simp
    also have "uint (push_bit sh rem) = uint rem * 2 ^ sh" using r by (simp add: sh_def)
    finally have "(?q * (uint p * 2 ^ 32 + uint frac)) * 2 ^ sh \<le> (uint rem * 2 ^ 32) * 2 ^ sh" by (simp add: ac_simps)
    then show ?thesis by (simp add: mult_le_cancel_right)
  qed
  ultimately show ?thesis by blast
qed


section \<open>Well-formed timers\<close>

definition systick_policy :: u8 where
  "systick_policy = PTIMER_POLICY_WRAP_AFTER_ONE_PERIOD OR PTIMER_POLICY_NO_COUNTER_ROUND_DOWN OR
     PTIMER_POLICY_NO_IMMEDIATE_RELOAD OR PTIMER_POLICY_TRIGGER_ONLY_ON_DECREMENT"

lemma systick_policies [simp]:
  "has_flag systick_policy PTIMER_POLICY_WRAP_AFTER_ONE_PERIOD"
  "has_flag systick_policy PTIMER_POLICY_NO_COUNTER_ROUND_DOWN"
  "has_flag systick_policy PTIMER_POLICY_NO_IMMEDIATE_RELOAD"
  "has_flag systick_policy PTIMER_POLICY_TRIGGER_ONLY_ON_DECREMENT"
  "\<not> has_flag systick_policy PTIMER_POLICY_CONTINUOUS_TRIGGER"
  "\<not> has_flag systick_policy PTIMER_POLICY_NO_IMMEDIATE_TRIGGER"
  by (simp_all add: has_flag_def systick_policy_def PTIMER_POLICY_WRAP_AFTER_ONE_PERIOD_def PTIMER_POLICY_NO_COUNTER_ROUND_DOWN_def
      PTIMER_POLICY_NO_IMMEDIATE_RELOAD_def PTIMER_POLICY_TRIGGER_ONLY_ON_DECREMENT_def PTIMER_POLICY_CONTINUOUS_TRIGGER_def
      PTIMER_POLICY_NO_IMMEDIATE_TRIGGER_def)

text \<open>The period used for a countdown from a value, and the time it takes, in whole nanoseconds.\<close>

definition eff_period :: "ptimer_state \<Rightarrow> u64 \<Rightarrow> u64 \<times> u32" where
  "eff_period s x = (if x * pt_period s < 10000 then (10000 div x, 0) else (pt_period s, pt_period_frac s))"

definition span :: "ptimer_state \<Rightarrow> u64 \<Rightarrow> int" where
  "span s x = uint x * uint (fst (eff_period s x)) + uint (snd (eff_period s x)) * uint x div 2 ^ 32"

definition pt_wf :: "ptimer_state \<Rightarrow> bool" where
  "pt_wf s \<longleftrightarrow> pt_policy_mask s = systick_policy \<and> pt_enabled s \<in> {0, 1} \<and> pt_period s \<noteq> 0 \<and> uint (pt_period s) < 2 ^ 32 \<and>
     uint (pt_delta s) \<le> 2 ^ 24 \<and> uint (pt_limit s) < 2 ^ 24 \<and> (pt_enabled s = 0 \<longrightarrow> pt_timer s = - 1)"

text \<open>While the timer runs, its events are the ends of a countdown that started in the past.\<close>

definition pt_sched :: "int \<Rightarrow> ptimer_state \<Rightarrow> bool" where
  "pt_sched now s \<longleftrightarrow> (pt_enabled s \<noteq> 0 \<longrightarrow> (\<exists>D. (D = pt_delta s \<or> D = pt_delta s + 1) \<and> D \<noteq> 0 \<and> uint D \<le> 2 ^ 24 \<and>
     uint (pt_last_event s) \<le> now \<and> uint (pt_next_event s) = uint (pt_last_event s) + span s D \<and> pt_timer s = uint (pt_next_event s)))"

lemma mult_24_32:
  assumes "uint (x :: u64) \<le> 2 ^ 24" and "uint (p :: u64) < 2 ^ 32"
  shows "uint (x * p) = uint x * uint p"
proof -
  have "uint x * uint p \<le> 2 ^ 24 * 2 ^ 32" using assms by (intro mult_mono) simp_all
  then have "uint x * uint p < 2 ^ 64" by simp
  then show ?thesis by (simp add: uint_word_ariths)
qed

lemma eff_period_pos:
  assumes "uint x \<le> 2 ^ 24" and "x \<noteq> 0" and "pt_wf s"
  shows "fst (eff_period s x) \<noteq> 0" and "uint (fst (eff_period s x)) < 2 ^ 32"
    and "uint (pt_period s) \<le> uint (fst (eff_period s x))"
proof -
  have p: "0 < uint (pt_period s)" "uint (pt_period s) < 2 ^ 32" using assms(3) uint_pos by (auto simp: pt_wf_def)
  have x: "0 < uint x" using uint_pos [OF assms(2)] .
  have scaled: "fst (eff_period s x) \<noteq> 0 \<and> uint (fst (eff_period s x)) \<le> 10000 \<and> uint (pt_period s) \<le> uint (fst (eff_period s x))"
    if "x * pt_period s < 10000"
  proof -
    have lt: "uint x * uint (pt_period s) < 10000"
      using that mult_24_32 [OF assms(1) p(2)] by (simp add: word_less_def)
    have "uint (pt_period s) * uint x div uint x \<le> 10000 div uint x"
      using lt x by (intro zdiv_mono1) (simp_all add: mult.commute)
    then have le: "uint (pt_period s) \<le> 10000 div uint x" using x by simp
    have "10000 div uint x \<le> 10000" using x zdiv_mono2 [of 10000 1 "uint x"] by simp
    moreover have "uint (10000 div x) = 10000 div uint x" by (simp add: uint_div)
    ultimately show ?thesis using le p that by (auto simp: eff_period_def)
  qed
  then show "fst (eff_period s x) \<noteq> 0" and "uint (fst (eff_period s x)) < 2 ^ 32"
    and "uint (pt_period s) \<le> uint (fst (eff_period s x))"
    using p assms(3) by (cases "x * pt_period s < 10000"; simp add: eff_period_def pt_wf_def)+
qed

lemma span_bounds:
  assumes "uint x \<le> 2 ^ 24" and "x \<noteq> 0" and "pt_wf s"
  shows "0 < span s x" and "span s x < 2 ^ 58"
proof -
  let ?p = "uint (fst (eff_period s x))" and ?f = "uint (snd (eff_period s x))"
  note p = eff_period_pos [OF assms]
  have x: "0 < uint x" using uint_pos [OF assms(2)] .
  have "0 < uint x * ?p" using x uint_pos [OF p(1)] by simp
  moreover have "0 \<le> ?f * uint x div 2 ^ 32" by (simp add: pos_imp_zdiv_nonneg_iff)
  ultimately show "0 < span s x" by (simp add: span_def)
  have "uint x * ?p \<le> 2 ^ 24 * 2 ^ 32" using assms(1) p(2) by (intro mult_mono) simp_all
  moreover have "?f * uint x div 2 ^ 32 \<le> 2 ^ 24"
  proof -
    have "?f * uint x \<le> 2 ^ 32 * 2 ^ 24" using assms(1) uint_u32_less [of "snd (eff_period s x)"] by (intro mult_mono) simp_all
    then have "?f * uint x div 2 ^ 32 \<le> 2 ^ 32 * 2 ^ 24 div 2 ^ 32" by (intro zdiv_mono1) simp_all
    then show ?thesis by simp
  qed
  ultimately show "span s x < 2 ^ 58" by (simp add: span_def)
qed


section \<open>The count\<close>

lemma bit63_iff: "bit (w :: u64) 63 \<longleftrightarrow> 2 ^ 63 \<le> uint w"
proof -
  have "bit w 63 \<longleftrightarrow> bit (uint w) 63" by (simp add: bit_uint_iff)
  then have "bit w 63 \<longleftrightarrow> odd (uint w div 2 ^ 63)" by (simp only: bit_iff_odd [of "uint w"])
  moreover have "uint w div 2 ^ 63 = (if 2 ^ 63 \<le> uint w then 1 else 0)"
    using uint_lt2p [of w] uint_ge_0 [of w] by (auto simp: div_pos_pos_trivial int_div_pos_eq [of _ _ 1 "uint w - 2 ^ 63"])
  ultimately show ?thesis by simp
qed

lemma later_iff:
  assumes "uint (a :: u64) < 2 ^ 63" and "uint b < 2 ^ 63"
  shows "0 \<le> sint (a - b) \<longleftrightarrow> uint b \<le> uint a"
proof -
  have sign: "0 \<le> sint (a - b) \<longleftrightarrow> uint (a - b) < 2 ^ 63"
    using bit_last_iff [of "a - b"] bit63_iff [of "a - b"] by auto
  note pos = uint_ge_0 [of a] uint_ge_0 [of b]
  have two: "(2 :: int) ^ 64 = 2 ^ 63 + 2 ^ 63" by simp
  show ?thesis
  proof (cases "uint b \<le> uint a")
    case True
    then have "uint (a - b) = uint a - uint b" by (simp add: uint_sub_if')
    with True sign assms pos show ?thesis by linarith
  next
    case False
    then have "uint (a - b) = 2 ^ 64 + uint a - uint b" by (simp add: uint_sub_if')
    with False sign assms pos two show ?thesis by linarith
  qed
qed

lemma scaled_iff:
  assumes "pt_wf s" and "uint x \<le> 2 ^ 24"
  shows "x * pt_period s < 10000 \<longleftrightarrow> uint x * uint (pt_period s) < 10000"
  using mult_24_32 [OF assms(2), of "pt_period s"] assms(1) by (simp add: word_less_def pt_wf_def)

lemma span_unscaled:
  assumes "\<not> x * pt_period s < 10000"
  shows "span s x * 2 ^ 32 \<le> uint x * (uint (pt_period s) * 2 ^ 32 + uint (pt_period_frac s))"
proof -
  have "uint (pt_period_frac s) * uint x div 2 ^ 32 * 2 ^ 32 \<le> uint (pt_period_frac s) * uint x"
    using pos_mod_sign [of "2 ^ 32" "uint (pt_period_frac s) * uint x"] by (simp add: minus_mod_eq_div_mult [symmetric])
  then have "(uint x * uint (pt_period s) + uint (pt_period_frac s) * uint x div 2 ^ 32) * 2 ^ 32 \<le>
    uint x * uint (pt_period s) * 2 ^ 32 + uint (pt_period_frac s) * uint x" by (simp only: distrib_right)
  then show ?thesis using assms by (simp add: span_def eff_period_def algebra_simps)
qed

lemma quotient_scaled:
  assumes wf: "pt_wf s" and d: "uint (pt_delta s) * uint (pt_period s) < 10000" "pt_delta s \<noteq> 0" "uint (pt_delta s) \<le> 2 ^ 24"
    and D: "uint D \<le> uint (pt_delta s) + 1" "uint D \<le> 2 ^ 24" "D \<noteq> 0"
    and q: "uint q * uint (fst (eff_period s (pt_delta s))) \<le> span s D"
  shows "uint q \<le> 20000"
proof -
  let ?P = "uint (pt_period s)" and ?P2 = "uint (fst (eff_period s (pt_delta s)))"
  have P: "1 \<le> ?P" using wf uint_pos [of "pt_period s"] by (simp add: pt_wf_def)
  have P2: "?P \<le> ?P2" using eff_period_pos(3) [OF d(3,2) wf] .
  have "uint (pt_delta s) * 1 \<le> uint (pt_delta s) * ?P" using P by (intro mult_left_mono) simp_all
  with d(1) D(1) have Dn: "uint D \<le> 10000" by simp
  show ?thesis
  proof (cases "D * pt_period s < 10000")
    case True
    have "span s D = uint D * (10000 div uint D)" using True by (simp add: span_def eff_period_def uint_div)
    also have "\<dots> \<le> 10000" using pos_mod_sign [OF uint_pos [OF D(3)], of 10000] by (simp add: minus_mod_eq_mult_div [symmetric])
    finally have "uint q * ?P2 \<le> 10000" using q by linarith
    moreover have "uint q * 1 \<le> uint q * ?P2" using P P2 by (intro mult_left_mono) simp_all
    ultimately show ?thesis by simp
  next
    case False
    have "uint (pt_period_frac s) * uint D div 2 ^ 32 \<le> uint D"
    proof -
      have "uint (pt_period_frac s) * uint D \<le> 2 ^ 32 * uint D" using uint_u32_less [of "pt_period_frac s"] by (intro mult_right_mono) simp_all
      then have "uint (pt_period_frac s) * uint D div 2 ^ 32 \<le> 2 ^ 32 * uint D div 2 ^ 32" by (intro zdiv_mono1) simp_all
      then show ?thesis by simp
    qed
    moreover have "uint D * 1 \<le> uint D * ?P" "uint D * ?P \<le> uint D * ?P2" using P P2 by (intro mult_left_mono; simp)+
    ultimately have "span s D \<le> (2 * uint D) * ?P2" using False by (simp add: span_def eff_period_def)
    with q have "uint q * ?P2 \<le> (2 * uint D) * ?P2" by linarith
    moreover have "0 < ?P2" using P P2 by linarith
    ultimately have "uint q \<le> 2 * uint D" by (simp only: mult_le_cancel_right)
    with Dn show ?thesis by simp
  qed
qed

lemma ptimer_count_quotient:
  assumes wf: "pt_wf s" and D: "D = pt_delta s \<or> D = pt_delta s + 1" "uint D \<le> 2 ^ 24" "D \<noteq> 0" and d0: "pt_delta s \<noteq> 0"
    and rem: "0 < uint rem" "uint rem \<le> span s D"
    and q: "uint q * (uint (fst (eff_period s (pt_delta s))) * 2 ^ 32 + uint (snd (eff_period s (pt_delta s)))) \<le> uint rem * 2 ^ 32"
  shows "uint q \<le> 20000 \<or> uint q \<le> uint D \<and> (uint rem < span s D \<longrightarrow> uint q < uint D)"
proof -
  have d: "uint (pt_delta s) \<le> 2 ^ 24" using wf by (simp add: pt_wf_def)
  then have "uint (pt_delta s + 1) = uint (pt_delta s) + 1" by (simp add: uint_word_ariths)
  with D(1) have Dd: "uint (pt_delta s) \<le> uint D" "uint D \<le> uint (pt_delta s) + 1" by auto
  show ?thesis
  proof (cases "uint (pt_delta s) * uint (pt_period s) < 10000")
    case True
    then have "snd (eff_period s (pt_delta s)) = 0" using scaled_iff [OF wf d] by (simp add: eff_period_def)
    with q have "uint q * uint (fst (eff_period s (pt_delta s))) * 2 ^ 32 \<le> uint rem * 2 ^ 32" by (simp add: mult.assoc)
    then have "uint q * uint (fst (eff_period s (pt_delta s))) \<le> span s D" using rem(2) by simp
    from quotient_scaled [OF wf True d0 d Dd(2) D(2,3) this] show ?thesis ..
  next
    case False
    let ?T = "uint (pt_period s) * 2 ^ 32 + uint (pt_period_frac s)"
    have "uint (pt_delta s) * uint (pt_period s) \<le> uint D * uint (pt_period s)" using Dd(1) by (intro mult_right_mono) simp_all
    with False have Du: "\<not> D * pt_period s < 10000" using scaled_iff [OF wf D(2)] by simp
    have qT: "uint q * ?T \<le> uint rem * 2 ^ 32" using q False scaled_iff [OF wf d] by (simp add: eff_period_def)
    have "0 < uint (pt_period s)" using uint_pos [of "pt_period s"] wf by (simp add: pt_wf_def)
    then have T: "0 < ?T" by (simp add: add_pos_nonneg)
    note sp = span_unscaled [OF Du]
    have "uint rem * 2 ^ 32 \<le> span s D * 2 ^ 32" using rem(2) by simp
    with qT sp have "uint q * ?T \<le> uint D * ?T" by (blast intro: order_trans)
    moreover have "uint q * ?T < uint D * ?T" if "uint rem < span s D"
    proof -
      from that have "uint rem * 2 ^ 32 < span s D * 2 ^ 32" by simp
      with qT sp show ?thesis by (blast intro: order_le_less_trans order_less_le_trans)
    qed
    ultimately show ?thesis unfolding mult_le_cancel_right_pos [OF T] mult_less_cancel_right_pos [OF T] by blast
  qed
qed

lemma ptimer_get_count_ok:
  assumes wf: "pt_wf s" and sched: "pt_sched now s" and now: "0 \<le> now" "now < 2 ^ 62"
  shows "\<exists>c. ptimer_get_count now s = Inr c \<and> uint c \<le> 2 ^ 24"
proof (cases "pt_enabled s \<noteq> 0 \<and> pt_delta s \<noteq> 0")
  case False
  then show ?thesis using wf by (auto simp: ptimer_get_count_def pt_wf_def)
next
  case True
  with sched obtain D where D: "D = pt_delta s \<or> D = pt_delta s + 1" "D \<noteq> 0" "uint D \<le> 2 ^ 24"
    "uint (pt_last_event s) \<le> now" "uint (pt_next_event s) = uint (pt_last_event s) + span s D" by (auto simp: pt_sched_def)
  define nw :: u64 where "nw = word_of_int now"
  have nw: "uint nw = now" using now by (simp add: nw_def unsigned_of_int take_bit_int_eq_self)
  have wf': "pt_enabled s = 1" "pt_policy_mask s = systick_policy" "uint (pt_delta s) \<le> 2 ^ 24" using wf True by (auto simp: pt_wf_def)
  note sp = span_bounds [OF D(3,2) wf]
  have next63: "uint (pt_next_event s) < 2 ^ 63" using D(4,5) sp now by simp
  have expired: "0 \<le> sint (nw - pt_next_event s) \<longleftrightarrow> uint (pt_next_event s) \<le> now"
    using later_iff [of nw "pt_next_event s"] nw now next63 by simp
  show ?thesis
  proof (cases "uint (pt_next_event s) \<le> now")
    case True
    then show ?thesis using \<open>pt_enabled s \<noteq> 0 \<and> _\<close> wf' expired by (auto simp: ptimer_get_count_def Let_def nw_def)
  next
    case False
    let ?rem = "pt_next_event s - nw"
    have rem: "uint ?rem = uint (pt_next_event s) - now" using False nw by (simp add: uint_sub_if')
    with False have "0 < uint ?rem" "?rem \<noteq> 0" "uint ?rem \<le> span s D" using D(4,5) by auto
    have strict: "uint ?rem < span s D" if "nw \<noteq> pt_last_event s"
    proof -
      from that have "uint (pt_last_event s) \<noteq> now" using nw by (metis word_uint_eq_iff)
      with D(4,5) rem show ?thesis by linarith
    qed
    obtain q where q: "ptimer_divide ?rem (fst (eff_period s (pt_delta s))) (snd (eff_period s (pt_delta s))) = Inr q"
      "uint q * (uint (fst (eff_period s (pt_delta s))) * 2 ^ 32 + uint (snd (eff_period s (pt_delta s)))) \<le> uint ?rem * 2 ^ 32"
      using ptimer_divide_low [OF eff_period_pos(1,2) [OF wf'(3) _ wf] \<open>?rem \<noteq> 0\<close>] True by blast
    have small: "uint q \<le> 20000 \<or> uint q \<le> uint D \<and> (uint ?rem < span s D \<longrightarrow> uint q < uint D)"
      using ptimer_count_quotient [OF wf D(1,3,2) _ \<open>0 < uint ?rem\<close> \<open>uint ?rem \<le> span s D\<close> q(2)] True by blast
    have "ptimer_get_count now s = Inr (if pt_delta s = pt_limit s \<and> (if nw = pt_last_event s then q = pt_limit s + 1 else q = pt_limit s)
      then 0 else if nw \<noteq> pt_last_event s then q + 1 else q)"
      using True False wf' expired q(1)
      by (auto simp: ptimer_get_count_def Let_def nw_def [symmetric] eff_period_def split: if_splits)
    moreover have "uint (q + 1) = uint q + 1" if "uint q \<le> 2 ^ 24" using that by (simp add: uint_word_ariths)
    moreover have "uint q + 1 \<le> 2 ^ 24" if "nw \<noteq> pt_last_event s" using small D(3) strict [OF that] by auto
    moreover have "uint q \<le> 2 ^ 24" using small D(3) by auto
    ultimately show ?thesis by auto
  qed
qed


section \<open>Arming the timer\<close>

definition pt_arm :: "u64 \<Rightarrow> ptimer_state \<Rightarrow> ptimer_state" where
  "pt_arm D s = (let nxt = pt_next_event s + D * fst (eff_period s D) +
       (if snd (eff_period s D) \<noteq> 0 then drop_bit 32 (ucast (snd (eff_period s D)) * D) else 0)
     in pt_timer_mod nxt (s\<lparr>pt_last_event := pt_next_event s, pt_next_event := nxt\<rparr>))"

lemma reload_delta_eq:
  assumes "pt_wf s" and "pt_enabled s = 1"
  shows "reload_delta a s =
    (let delta = (if a \<noteq> - 1 then pt_delta s + word_of_int a else pt_delta s) in if delta = 0 \<and> pt_limit s \<noteq> 0 then 1 else delta)"
  using assms by (simp add: reload_delta_def pt_wf_def Let_def)

lemma ptimer_schedule_eq:
  assumes "pt_wf s" and "pt_enabled s = 1"
  shows "ptimer_schedule a s =
    (if reload_delta a s = 0 then (pt_timer_del s)\<lparr>pt_enabled := 0\<rparr> else pt_arm (reload_delta a s) s)"
  using assms by (simp add: ptimer_schedule_def pt_wf_def pt_arm_def eff_period_def Let_def)

lemma uint_drop_bit: "uint (drop_bit n (w :: u64)) = uint w div 2 ^ n"
  using uint_lt2p [of w] by (simp add: unsigned_drop_bit_eq drop_bit_eq_div [of n "uint w"] take_bit_int_eq_self)

lemma uint_add3: "uint a + uint b + uint c < 2 ^ 64 \<Longrightarrow> uint (a + b + c :: u64) = uint a + uint b + uint c"
  by (simp add: uint_word_ariths mod_simps)

lemma span_words:
  assumes "pt_wf s" and "uint D \<le> 2 ^ 24" and "D \<noteq> 0" and "uint t < 2 ^ 62"
  shows "uint (t + D * fst (eff_period s D) + (if snd (eff_period s D) \<noteq> 0 then drop_bit 32 (ucast (snd (eff_period s D)) * D) else 0)) =
    uint t + span s D"
proof -
  let ?p = "fst (eff_period s D)" and ?f = "snd (eff_period s D)"
  have "uint ?f * uint D \<le> 2 ^ 32 * 2 ^ 24" using assms(2) uint_u32_less [of ?f] by (intro mult_mono) simp_all
  then have "uint (ucast ?f * D) = uint ?f * uint D" by (simp add: uint_word_ariths)
  then have "uint (drop_bit 32 (ucast ?f * D)) = uint ?f * uint D div 2 ^ 32"
    by (simp only: uint_drop_bit)
  then have f: "uint (if ?f \<noteq> 0 then drop_bit 32 (ucast ?f * D) else 0) = uint ?f * uint D div 2 ^ 32" by simp
  have p: "uint (D * ?p) = uint D * uint ?p" using mult_24_32 [OF assms(2) eff_period_pos(2) [OF assms(2,3,1)]] .
  have "uint t + span s D < 2 ^ 64" using span_bounds(2) [OF assms(2,3,1)] assms(4) by simp
  then have "uint t + uint (D * ?p) + uint (if ?f \<noteq> 0 then drop_bit 32 (ucast ?f * D) else 0) < 2 ^ 64"
    unfolding f p by (simp add: span_def)
  from uint_add3 [OF this] show ?thesis unfolding f p by (simp add: span_def)
qed


lemma span_frame: "pt_period s' = pt_period s \<Longrightarrow> pt_period_frac s' = pt_period_frac s \<Longrightarrow> span s' x = span s x"
  by (simp add: span_def eff_period_def)

lemma sint_small:
  assumes "uint (w :: u64) < 2 ^ 63"
  shows "sint w = uint w"
proof -
  have "- (2 ^ 63) \<le> uint w" by (rule order_trans [of _ 0]) simp_all
  from signed_take_bit_int_eq_self [OF this assms] show ?thesis by (simp add: sint_uint)
qed

lemma pt_arm_eq:
  assumes "pt_wf s" and "uint D \<le> 2 ^ 24" and "D \<noteq> 0" and "uint (pt_next_event s) < 2 ^ 62"
  obtains nxt where "pt_arm D s = s\<lparr>pt_last_event := pt_next_event s, pt_next_event := nxt, pt_timer := uint nxt\<rparr>"
    and "uint nxt = uint (pt_next_event s) + span s D"
proof -
  define nxt where "nxt = pt_next_event s + D * fst (eff_period s D) +
    (if snd (eff_period s D) \<noteq> 0 then drop_bit 32 (ucast (snd (eff_period s D)) * D) else 0)"
  from span_words [OF assms] have nxt: "uint nxt = uint (pt_next_event s) + span s D" by (simp add: nxt_def)
  also have "\<dots> < 2 ^ 63" using assms(4) span_bounds(2) [OF assms(2,3,1)] by simp
  finally have "sint nxt = uint nxt" by (rule sint_small)
  then have "pt_arm D s = s\<lparr>pt_last_event := pt_next_event s, pt_next_event := nxt, pt_timer := uint nxt\<rparr>"
    by (simp add: pt_arm_def Let_def nxt_def [symmetric] pt_timer_mod_def)
  from this nxt show thesis by (rule that)
qed

lemma pt_arm_ok:
  assumes "pt_wf s" and "pt_enabled s = 1" and "uint D \<le> 2 ^ 24" and "D \<noteq> 0" and "D = pt_delta s \<or> D = pt_delta s + 1"
    and "uint (pt_next_event s) \<le> now" and "now < 2 ^ 62"
  shows "pt_wf (pt_arm D s) \<and> pt_sched now (pt_arm D s) \<and> pt_enabled (pt_arm D s) = 1"
proof -
  have "uint (pt_next_event s) < 2 ^ 62" using assms(6,7) by linarith
  from pt_arm_eq [OF assms(1,3,4) this] obtain nxt
    where arm: "pt_arm D s = s\<lparr>pt_last_event := pt_next_event s, pt_next_event := nxt, pt_timer := uint nxt\<rparr>"
      and nxt: "uint nxt = uint (pt_next_event s) + span s D" .
  have "span (pt_arm D s) D = span s D" unfolding arm by (rule span_frame) simp_all
  with arm assms nxt have "pt_sched now (pt_arm D s)" unfolding pt_sched_def by (intro impI exI [of _ D] conjI) simp_all
  moreover have "pt_wf (pt_arm D s)" using assms(1,2) unfolding arm by (simp add: pt_wf_def)
  ultimately show ?thesis using arm assms(2) by simp
qed

lemma ptimer_schedule_ok:
  assumes "pt_wf s" and "pt_enabled s = 1" and "uint (pt_next_event s) \<le> now" and "now < 2 ^ 62"
    and "a \<in> {- 1, 0, 1}" and "a = 1 \<Longrightarrow> uint (pt_delta s) < 2 ^ 24"
  shows "pt_wf (ptimer_schedule a s) \<and> pt_sched now (ptimer_schedule a s)"
proof -
  let ?D = "reload_delta a s"
  have "uint (pt_delta s) \<le> 2 ^ 24" using assms(1) by (simp add: pt_wf_def)
  moreover have "uint (pt_delta s + 1) = uint (pt_delta s) + 1" if "uint (pt_delta s) < 2 ^ 24" using that by (simp add: uint_word_ariths)
  moreover have "pt_delta s + 1 \<noteq> 0" if "uint (pt_delta s) < 2 ^ 24"
    using calculation(2) [OF that] uint_ge_0 [of "pt_delta s"] by (metis add_strict_increasing2 less_irrefl unsigned_0 zero_less_one)
  ultimately have D: "uint ?D \<le> 2 ^ 24" "?D = 0 \<or> ?D = pt_delta s \<or> ?D = pt_delta s + 1"
    using assms(5,6) by (auto simp: reload_delta_eq [OF assms(1,2)] Let_def)
  show ?thesis
  proof (cases "?D = 0")
    case True
    then show ?thesis using assms(1) by (simp add: ptimer_schedule_eq [OF assms(1,2)] pt_wf_def pt_sched_def pt_timer_del_def)
  next
    case False
    with D(2) have "?D = pt_delta s \<or> ?D = pt_delta s + 1" by blast
    from pt_arm_ok [OF assms(1,2) D(1) False this assms(3,4)] False show ?thesis
      by (simp add: ptimer_schedule_eq [OF assms(1,2)])
  qed
qed

lemma ptimer_schedule_frame [simp]:
  "in_transaction (ptimer_schedule a s) = in_transaction s" "need_reload (ptimer_schedule a s) = need_reload s"
  "pt_limit (ptimer_schedule a s) = pt_limit s" "pt_policy_mask (ptimer_schedule a s) = pt_policy_mask s"
  by (auto simp: ptimer_schedule_def Let_def pt_timer_del_def pt_timer_mod_def split: prod.splits)

section \<open>Transactions\<close>

definition open_ok :: "int \<Rightarrow> ptimer_state \<Rightarrow> bool" where
  "open_ok now s \<longleftrightarrow> in_transaction s \<and> pt_wf s \<and> pt_sched now s"

definition reload_ok :: "int \<Rightarrow> ptimer_state \<Rightarrow> bool" where
  "reload_ok now s \<longleftrightarrow> in_transaction s \<and> pt_wf s \<and> (need_reload s \<or> pt_sched now s)"

definition closed_ok :: "int \<Rightarrow> ptimer_state \<Rightarrow> bool" where
  "closed_ok now s \<longleftrightarrow> \<not> in_transaction s \<and> pt_wf s \<and> pt_sched now s"

lemma open_reload: "open_ok now s \<Longrightarrow> reload_ok now s"
  by (simp add: open_ok_def reload_ok_def)

lemma pt_sched_cong:
  "\<lbrakk>pt_enabled s' = pt_enabled s; pt_delta s' = pt_delta s; pt_last_event s' = pt_last_event s; pt_next_event s' = pt_next_event s;
    pt_timer s' = pt_timer s; pt_period s' = pt_period s; pt_period_frac s' = pt_period_frac s\<rbrakk> \<Longrightarrow> pt_sched now s' = pt_sched now s"
  using span_frame [of s' s] by (simp add: pt_sched_def)

lemma begin_ok: "closed_ok now s \<Longrightarrow> returns (\<lambda>s'. s' = s\<lparr>in_transaction := True, need_reload := False\<rparr> \<and> open_ok now s') (ptimer_transaction_begin s)"
  using pt_sched_cong [of "s\<lparr>in_transaction := True, need_reload := False\<rparr>" s now]
  by (simp add: ptimer_transaction_begin_def closed_ok_def open_ok_def pt_wf_def)

text \<open>Without the callback, one reload ends the loop.\<close>

lemma commit_loop_eq:
  assumes "pt_wf s"
  shows "commit_loop cb now (d, s) = Some (Inr (d, if need_reload s \<and> pt_enabled s \<noteq> 0
    then ptimer_schedule 0 (s\<lparr>need_reload := False, pt_next_event := word_of_int now\<rparr>) else s))"
  using assms
  by (subst commit_loop.simps) (auto simp: ptimer_reload_def pt_wf_def Let_def commit_loop.simps)

lemma commit_ok:
  assumes "reload_ok now s" and "0 \<le> now" and "now < 2 ^ 62"
  shows "returns (\<lambda>(d', s'). d' = d \<and> closed_ok now s' \<and> pt_limit s' = pt_limit s) (ptimer_transaction_commit cb now (d, s))"
proof -
  have wf: "pt_wf s" "in_transaction s" using assms(1) by (simp_all add: reload_ok_def)
  let ?s = "s\<lparr>need_reload := False, pt_next_event := word_of_int now\<rparr>"
  have closed: "closed_ok now (t\<lparr>in_transaction := False\<rparr>)" if "pt_wf t" "pt_sched now t" for t
    using that pt_sched_cong [of "t\<lparr>in_transaction := False\<rparr>" t now] by (simp add: closed_ok_def pt_wf_def)
  show ?thesis
  proof (cases "need_reload s \<and> pt_enabled s \<noteq> 0")
    case True
    have "uint (word_of_int now :: u64) = now" using assms(2,3) by (simp add: unsigned_of_int take_bit_int_eq_self)
    then have "pt_wf (ptimer_schedule 0 ?s) \<and> pt_sched now (ptimer_schedule 0 ?s)"
      using wf True assms(3) by (intro ptimer_schedule_ok) (auto simp: pt_wf_def)
    with True wf closed show ?thesis by (simp add: ptimer_transaction_commit_def commit_loop_eq)
  next
    case False
    then have "pt_sched now s" using assms(1) by (auto simp: reload_ok_def pt_sched_def)
    with False wf closed show ?thesis by (auto simp: ptimer_transaction_commit_def commit_loop_eq)
  qed
qed

lemma stop_ok:
  assumes "open_ok now s" and "0 \<le> now" and "now < 2 ^ 62"
  shows "returns (\<lambda>s'. open_ok now s' \<and> pt_enabled s' = 0 \<and> pt_limit s' = pt_limit s) (ptimer_stop now s)"
  using assms(1) ptimer_get_count_ok [of s now] assms(2,3)
  by (auto simp: ptimer_stop_def open_ok_def pt_wf_def pt_sched_def pt_timer_del_def)

lemma set_limit_ok:
  assumes "open_ok now s" and "uint w < 2 ^ 24"
  shows "returns (open_ok now) (ptimer_set_limit w False s)"
  using assms pt_sched_cong [of "s\<lparr>pt_limit := w\<rparr>" s now] by (simp add: ptimer_set_limit_def open_ok_def pt_wf_def)

lemma set_count_ok:
  assumes "open_ok now s"
  shows "returns (\<lambda>s'. reload_ok now s' \<and> (pt_enabled s = 0 \<longrightarrow> open_ok now s' \<and> pt_enabled s' = 0)) (ptimer_set_count 0 s)"
  using assms by (auto simp: ptimer_set_count_def open_ok_def reload_ok_def pt_wf_def pt_sched_def Let_def)

lemma run_ok:
  assumes "open_ok now s"
  shows "returns (reload_ok now) (ptimer_run False s)"
proof (cases "pt_enabled s = 0")
  case False
  then have "pt_sched now (s\<lparr>pt_enabled := 1\<rparr>) = pt_sched now s"
    using assms by (intro pt_sched_cong) (auto simp: open_ok_def pt_wf_def)
  with False assms show ?thesis by (simp add: ptimer_run_def open_ok_def reload_ok_def pt_wf_def Let_def)
qed (use assms in \<open>simp add: ptimer_run_def open_ok_def reload_ok_def pt_wf_def Let_def\<close>)

definition clock_ok :: "Clock \<Rightarrow> bool" where
  "clock_ok clk \<longleftrightarrow> 2 ^ 32 \<le> uint (clk_period clk)"

lemma clock_period_parts:
  "take_bit 32 (drop_bit 32 (w :: u64)) + take_bit 32 (drop_bit 32 (take_bit 32 w)) = drop_bit 32 w"
proof -
  have "take_bit 32 (drop_bit 32 w) = drop_bit 32 w" by (rule bit_word_eqI) (auto simp: bit_simps dest: bit_imp_le_length)
  moreover have "drop_bit 32 (take_bit 32 w) = 0" by (rule bit_word_eqI) (simp add: bit_simps)
  ultimately show ?thesis by simp
qed

lemma clock_ok_period:
  assumes "clock_ok clk"
  shows "drop_bit 32 (clk_period clk) \<noteq> 0" and "uint (drop_bit 32 (clk_period clk)) < 2 ^ 32"
proof -
  have "uint (clk_period clk) div 2 ^ 32 < 2 ^ 32" using uint_lt2p [of "clk_period clk"] by (simp add: div_less_iff_less_mult)
  then show "uint (drop_bit 32 (clk_period clk)) < 2 ^ 32" by (simp only: uint_drop_bit)
  have "(2 ^ 32 :: int) div 2 ^ 32 \<le> uint (clk_period clk) div 2 ^ 32" using assms by (intro zdiv_mono1) (simp_all add: clock_ok_def)
  then have "uint (drop_bit 32 (clk_period clk)) \<noteq> 0" by (simp only: uint_drop_bit) simp
  then show "drop_bit 32 (clk_period clk) \<noteq> 0" by auto
qed

lemma set_period_ok:
  assumes "open_ok now s" and "0 \<le> now" and "now < 2 ^ 62" and "clock_ok clk"
  shows "returns (\<lambda>s'. reload_ok now s' \<and> pt_enabled s' = pt_enabled s \<and> (pt_enabled s = 0 \<longrightarrow> open_ok now s')) (ptimer_set_period_from_clock now clk 1 s)"
proof -
  obtain c where c: "ptimer_get_count now s = Inr c" "uint c \<le> 2 ^ 24"
    using ptimer_get_count_ok [of s now] assms(1-3) by (auto simp: open_ok_def)
  show ?thesis using assms(1) c clock_ok_period [OF assms(4)]
    by (auto simp: ptimer_set_period_from_clock_def clock_get_def clock_period_parts open_ok_def reload_ok_def pt_wf_def pt_sched_def Let_def)
qed



section \<open>The device\<close>

definition st_inv :: "int \<Rightarrow> systick \<Rightarrow> bool" where
  "st_inv now ds \<longleftrightarrow> closed_ok now (snd ds) \<and> clock_ok (cpuclk (fst ds)) \<and> clock_ok (refclk (fst ds))"

definition clocks_ok :: "SysTickState \<Rightarrow> bool" where
  "clocks_ok d \<longleftrightarrow> clock_ok (cpuclk d) \<and> clock_ok (refclk d)"

lemma clocks_ok_frame [simp]:
  "clocks_ok (d\<lparr>st_control := c\<rparr>) = clocks_ok d" "clocks_ok (d\<lparr>st_irq := l\<rparr>) = clocks_ok d"
  by (simp_all add: clocks_ok_def)

lemma st_inv_pair: "st_inv now (d, s) \<longleftrightarrow> closed_ok now s \<and> clocks_ok d"
  by (simp add: st_inv_def clocks_ok_def)

lemma st_inv_later: "\<lbrakk>st_inv now ds; now \<le> now'\<rbrakk> \<Longrightarrow> st_inv now' ds"
  by (auto simp: st_inv_def closed_ok_def pt_sched_def)

lemma commit_inv:
  assumes "reload_ok now s" and "clocks_ok d" and "0 \<le> now" "now < 2 ^ 62"
  shows "returns (st_inv now) (ptimer_transaction_commit cb now (d, s))"
  by (rule returns_mono [OF commit_ok [OF assms(1,3,4)]]) (use assms(2) in \<open>auto simp: st_inv_pair\<close>)

lemma set_period_inv:
  assumes "open_ok now s" and "clock_ok clk" and "clocks_ok d" and "0 \<le> now" "now < 2 ^ 62"
  shows "returns (st_inv now) (res_bind (ptimer_set_period_from_clock now clk 1 s) (\<lambda>s. ptimer_transaction_commit cb now (d, s)))"
  by (rule returns_bind [OF set_period_ok [OF assms(1,4,5,2)]]) (use assms in \<open>auto intro: commit_inv\<close>)

lemma begin_open: "st_inv now ds \<Longrightarrow> returns (open_ok now) (ptimer_transaction_begin (snd ds))"
  using begin_ok [of now "snd ds"] by (auto simp: st_inv_def elim: returns_mono)

lemma systick_cpuclk_update_ok: "\<lbrakk>st_inv now ds; 0 \<le> now; now < 2 ^ 62\<rbrakk> \<Longrightarrow> returns (st_inv now) (systick_cpuclk_update now ds)"
  unfolding systick_cpuclk_update_def
  by (rule returns_bind [OF begin_open]) (auto intro!: set_period_inv simp: st_inv_def clocks_ok_def)

lemma systick_refclk_update_ok: "\<lbrakk>st_inv now ds; 0 \<le> now; now < 2 ^ 62\<rbrakk> \<Longrightarrow> returns (st_inv now) (systick_refclk_update now ds)"
  unfolding systick_refclk_update_def
  by (rule returns_bind [OF begin_open]) (auto intro!: set_period_inv simp: st_inv_def clocks_ok_def)

lemma and_24: "w AND 0xffffff = take_bit 24 w" for w :: u64
  by (simp add: take_bit_eq_mask mask_eq_exp_minus_1)

lemma uint_and_24: "uint (w AND 0xffffff :: u64) < 2 ^ 24"
  using take_bit_int_less_exp [of 24 "uint w"] by (simp add: and_24 unsigned_take_bit_eq)

lemma systick_write_rvr_ok:
  assumes "st_inv now ds" "0 \<le> now" "now < 2 ^ 62"
  shows "returns (st_inv now) (systick_write_rvr now w ds)"
  unfolding systick_write_rvr_def
  using assms uint_and_24
  by (intro returns_bind [OF begin_open] returns_bind [OF set_limit_ok]) (auto intro!: commit_inv open_reload simp: st_inv_def clocks_ok_def)

lemma systick_write_cvr_ok:
  assumes "st_inv now ds" "0 \<le> now" "now < 2 ^ 62"
  shows "returns (st_inv now) (systick_write_cvr now ds)"
  unfolding systick_write_cvr_def
proof (rule returns_bind [OF begin_open [OF assms(1)]], rule returns_bind [where P = "open_ok now"])
  show "returns (open_ok now) (if ptimer_get_limit s = 0 then ptimer_stop now s else Inr s)" if "open_ok now s" for s
    using that stop_ok [OF that assms(2,3)] by (auto elim: returns_mono)
qed (use assms in \<open>auto intro!: returns_bind [OF set_count_ok] commit_inv simp: st_inv_def clocks_ok_def\<close>)

text \<open>
  A write to the control register that stops the counter and selects the other clock at once is left
  out: the count is then computed a second time, with the new period.
\<close>

definition csr_write_plain :: "u64 \<Rightarrow> SysTickState \<Rightarrow> bool" where
  "csr_write_plain w d \<longleftrightarrow>
    (let w = (if \<not> clock_has_source (refclk d) then w OR SYSTICK_CLKSOURCE else w)
     in has_flag (ucast (st_control d) XOR w) SYSTICK_CLKSOURCE \<longrightarrow> has_flag (ucast (st_control d) XOR w) SYSTICK_ENABLE \<longrightarrow> has_flag w SYSTICK_ENABLE)"

definition reload_more :: "int \<Rightarrow> ptimer_state \<Rightarrow> bool" where
  "reload_more now s \<longleftrightarrow> reload_ok now s \<and> (pt_enabled s = 0 \<longrightarrow> open_ok now s)"

lemma run_reload_ok:
  assumes "reload_more now s"
  shows "returns (reload_ok now) (ptimer_run False s)"
proof (cases "open_ok now s")
  case False
  with assms have "reload_ok now s" "need_reload s" "pt_enabled s \<noteq> 0" by (auto simp: reload_more_def reload_ok_def open_ok_def)
  then show ?thesis by (auto simp: ptimer_run_def reload_ok_def pt_wf_def Let_def)
qed (rule run_ok)

lemma systick_set_period_ok:
  assumes "open_ok now s" "clocks_ok d" "0 \<le> now" "now < 2 ^ 62"
  shows "returns (\<lambda>(d', s'). d' = d \<and> reload_more now s') (systick_set_period_from_clock now (d, s))"
  unfolding systick_set_period_from_clock_def
  by (rule returns_bind [OF set_period_ok [OF _ assms(3,4)]]) (use assms in \<open>auto simp: clocks_ok_def reload_more_def\<close>)

lemma systick_write_csr_ok:
  assumes inv: "st_inv now ds" and now: "0 \<le> now" "now < 2 ^ 62" and plain: "csr_write_plain w (fst ds)"
  shows "returns (st_inv now) (systick_write_csr now w ds)"
proof -
  define v where "v = (if \<not> clock_has_source (refclk (fst ds)) then w OR SYSTICK_CLKSOURCE else w)"
  define flip where "flip = ucast (st_control (fst ds)) XOR v"
  let ?d = "(fst ds)\<lparr>st_control := (st_control (fst ds) AND 0xfffffff8) OR ucast (v AND 7)\<rparr>"
  have clocks: "clocks_ok ?d" using inv by (simp add: st_inv_def clocks_ok_def)
  have *: "returns (\<lambda>(d', s'). d' = ?d \<and> reload_more now s' \<and> (\<not> has_flag flip SYSTICK_CLKSOURCE \<longrightarrow> open_ok now s'))
    (if has_flag flip SYSTICK_CLKSOURCE then systick_set_period_from_clock now (?d, s) else Inr (?d, s))" if "open_ok now s" for s
    using that systick_set_period_ok [OF that clocks now] by (auto simp: reload_more_def open_reload elim!: returns_mono)
  have **: "returns (reload_ok now) (if has_flag flip SYSTICK_ENABLE then if has_flag v SYSTICK_ENABLE then ptimer_run False s else ptimer_stop now s else Inr s)"
    if "reload_more now s" "\<not> has_flag flip SYSTICK_CLKSOURCE \<longrightarrow> open_ok now s" for s
    using that plain run_reload_ok [of now s] stop_ok [of now s, OF _ now]
    by (auto simp: csr_write_plain_def v_def [symmetric] flip_def [symmetric] reload_more_def intro: open_reload elim!: returns_mono)
  show ?thesis unfolding systick_write_csr_def v_def [symmetric] Let_def flip_def [symmetric]
    by (rule returns_bind [OF begin_open [OF inv]], rule returns_bind [OF *], assumption)
      (auto intro!: returns_bind [OF **] commit_inv clocks [simplified] now)
qed



lemma systick_reset_ok:
  assumes "st_inv now ds" "0 \<le> now" "now < 2 ^ 62"
  shows "returns (st_inv now) (systick_reset now ds)"
proof -
  let ?stopped = "\<lambda>s. open_ok now s \<and> pt_enabled s = 0"
  have a: "returns ?stopped (ptimer_stop now s)" if "open_ok now s" for s
    using stop_ok [OF that assms(2,3)] by (auto elim: returns_mono)
  have b: "returns ?stopped (ptimer_set_count 0 s)" if "?stopped s" for s
    using set_count_ok [of now s] that by (auto elim: returns_mono)
  have c: "returns (open_ok now) (ptimer_set_limit 0 False s)" if "?stopped s" for s
    using set_limit_ok [of now s 0] that by simp
  have clocks: "clocks_ok (fst ds)" using assms(1) by (simp add: st_inv_def clocks_ok_def)
  have d: "returns (\<lambda>(d', s'). clocks_ok d' \<and> reload_ok now s') (systick_set_period_from_clock now ((fst ds)\<lparr>st_control := v\<rparr>, s))"
    if "open_ok now s" for s v
    using systick_set_period_ok [OF that _ assms(2,3), of "(fst ds)\<lparr>st_control := v\<rparr>"] clocks
    by (auto simp: reload_more_def elim!: returns_mono)
  show ?thesis unfolding systick_reset_def Let_def
    by (intro returns_bind [OF begin_open [OF assms(1)]] returns_bind [OF a] returns_bind [OF b] returns_bind [OF c] returns_bind [OF d])
      (auto intro!: commit_inv assms)
qed

lemma systick_read_ok:
  assumes "st_inv now ds" "0 \<le> now" "now < 2 ^ 62"
  shows "returns (\<lambda>(r, v, ds'). st_inv now ds') (systick_read now addr sz attrs ds)"
proof -
  obtain d s where ds: "ds = (d, s)" by (cases ds)
  then have "\<exists>c. ptimer_get_count now s = Inr c" using assms ptimer_get_count_ok [of s now] by (auto simp: st_inv_def closed_ok_def)
  with assms show ?thesis by (auto simp: systick_read_def ds st_inv_pair Let_def)
qed

text \<open>The expiry of the timer.  With a limit of 0 the callback stops the timer.\<close>

lemma schedule_disabled: "pt_wf s \<Longrightarrow> pt_enabled s = 0 \<Longrightarrow> pt_delta s = 0 \<Longrightarrow> ptimer_schedule (- 1) s = s"
  by (simp add: ptimer_schedule_def reload_delta_def pt_wf_def Let_def)

definition ticked :: "SysTickState \<Rightarrow> SysTickState" where
  "ticked d = (let d = d\<lparr>st_control := st_control d OR ucast SYSTICK_COUNTFLAG\<rparr>
     in if csr_flag d SYSTICK_TICKINT then d\<lparr>st_irq := qemu_irq_pulse recorder (st_irq d)\<rparr> else d)"

lemma clocks_ok_ticked [simp]: "clocks_ok (ticked d) = clocks_ok d"
  by (simp add: ticked_def Let_def)

lemma timer_tick_running: "pt_limit s \<noteq> 0 \<Longrightarrow> systick_timer_tick now (d, s) = Inr (ticked d, s)"
  by (simp add: systick_timer_tick_def ticked_def ptimer_get_limit_def Let_def)

lemma timer_tick_stops:
  "\<lbrakk>pt_limit s = 0; pt_delta s = 0; pt_enabled s = 1; in_transaction s\<rbrakk> \<Longrightarrow>
    systick_timer_tick now (d, s) = Inr (ticked d, (pt_timer_del s)\<lparr>pt_enabled := 0, need_reload := False\<rparr>)"
  by (simp add: systick_timer_tick_def ticked_def ptimer_get_limit_def ptimer_stop_def ptimer_get_count_def pt_timer_del_def Let_def)

text \<open>The state in which \<open>ptimer_tick\<close> reloads the counter.\<close>

abbreviation (input) tick_start :: "ptimer_state \<Rightarrow> ptimer_state" where
  "tick_start s \<equiv> s\<lparr>pt_timer := - 1, in_transaction := True, need_reload := False, pt_delta := pt_limit s\<rparr>"

lemma ptimer_tick_zero_limit:
  assumes "pt_wf s" "\<not> in_transaction s" "pt_enabled s = 1" "pt_limit s = 0"
  shows "ptimer_tick (systick_timer_tick now) now (d, pt_timer_del s) =
    Inr (ticked d, (tick_start s)\<lparr>pt_enabled := 0, in_transaction := False\<rparr>)"
proof -
  let ?t = "(tick_start s)\<lparr>pt_enabled := 0\<rparr>"
  have wf: "pt_wf ?t" using assms by (simp add: pt_wf_def)
  have "(pt_timer_del (tick_start s))\<lparr>pt_enabled := 0, need_reload := False\<rparr> = ?t" by (cases s) (simp add: pt_timer_del_def)
  with timer_tick_stops [of "tick_start s" now d] assms have "systick_timer_tick now (d, tick_start s) = Inr (ticked d, ?t)" by simp
  then have "ptimer_reload (systick_timer_tick now) (- 1) (d, tick_start s) = Inr (ticked d, ?t)"
    using assms schedule_disabled [OF wf] by (simp add: ptimer_reload_def pt_wf_def)
  with assms commit_loop_eq [OF wf, of "systick_timer_tick now" now "ticked d"] show ?thesis
    by (simp add: ptimer_tick_def ptimer_transaction_begin_def pt_timer_del_def pt_wf_def ptimer_transaction_commit_def Let_def)
qed

lemma ptimer_tick_reload:
  assumes "pt_wf s" "\<not> in_transaction s" "pt_enabled s = 1" "pt_limit s \<noteq> 0"
    and a: "a = (if pt_delta s = 0 then - 1 else 1)"
    and t: "t = ptimer_schedule a (tick_start s)" "pt_wf t"
  shows "ptimer_tick (systick_timer_tick now) now (d, pt_timer_del s) =
    Inr (if pt_delta s = 0 then d else ticked d, t\<lparr>in_transaction := False\<rparr>)"
proof -
  have "ptimer_reload (systick_timer_tick now) a (d, tick_start s) = Inr (d, t)"
    using assms by (simp add: ptimer_reload_def)
  moreover have "in_transaction t" "\<not> need_reload t" "pt_limit t \<noteq> 0" using assms by simp_all
  ultimately show ?thesis using assms(1-5)
    by (auto simp: commit_loop_eq [OF t(2)] ptimer_tick_def ptimer_transaction_begin_def pt_timer_del_def pt_wf_def ptimer_transaction_commit_def Let_def timer_tick_running)
qed

lemma systick_expire_ok:
  assumes inv: "st_inv now ds" and now: "0 \<le> now" "now < 2 ^ 62"
  shows "returns (st_inv now) (systick_expire now ds)"
proof (cases "0 \<le> pt_timer (snd ds) \<and> pt_timer (snd ds) \<le> now")
  case True
  obtain d s where ds: "ds = (d, s)" by (cases ds)
  with inv have s: "pt_wf s" "\<not> in_transaction s" "pt_sched now s" "clocks_ok d" by (simp_all add: st_inv_pair closed_ok_def)
  then have en: "pt_enabled s = 1" "uint (pt_next_event s) \<le> now" using True ds by (auto simp: pt_wf_def pt_sched_def)
  show ?thesis
  proof (cases "pt_limit s = 0")
    case zero: True
    from ptimer_tick_zero_limit [OF s(1,2) en(1) zero] True ds s(1,4) zero show ?thesis
      by (simp add: systick_expire_def st_inv_pair closed_ok_def pt_wf_def pt_sched_def)
  next
    case False
    define a :: int where "a = (if pt_delta s = 0 then - 1 else 1)"
    define t where "t = ptimer_schedule a (tick_start s)"
    have t: "pt_wf t \<and> pt_sched now t" unfolding t_def
      using s(1) en now by (intro ptimer_schedule_ok) (auto simp: pt_wf_def a_def)
    with pt_sched_cong [of "t\<lparr>in_transaction := False\<rparr>" t now] have "closed_ok now (t\<lparr>in_transaction := False\<rparr>)"
      by (simp add: closed_ok_def pt_wf_def)
    with ptimer_tick_reload [OF s(1,2) en(1) False a_def t_def, of now d] t True ds s(4) show ?thesis
      by (simp add: systick_expire_def st_inv_pair)
  qed
qed (use inv in \<open>auto simp: systick_expire_def\<close>)



section \<open>Runs\<close>

datatype systick_event =
    SysTickRead u64 nat MemTxAttrs
  | SysTickWrite u64 u64 nat MemTxAttrs
  | SysTickReset
  | CpuClock u64
  | RefClock u64
  | Expire

fun systick_step :: "int \<Rightarrow> systick_event \<Rightarrow> systick \<Rightarrow> systick res" where
  "systick_step now (SysTickRead addr sz attrs) ds = res_bind (systick_read now addr sz attrs ds) (\<lambda>(r, v, ds). Inr ds)"
| "systick_step now (SysTickWrite addr w sz attrs) ds = res_bind (systick_write now addr w sz attrs ds) (\<lambda>(r, ds). Inr ds)"
| "systick_step now SysTickReset ds = systick_reset now ds"
| "systick_step now (CpuClock p) (d, s) = systick_cpuclk_update now (d\<lparr>cpuclk := snd (clock_set p (cpuclk d))\<rparr>, s)"
| "systick_step now (RefClock p) (d, s) = systick_refclk_update now (d\<lparr>refclk := snd (clock_set p (refclk d))\<rparr>, s)"
| "systick_step now Expire ds = systick_expire now ds"

fun systick_plain :: "systick_event \<Rightarrow> systick \<Rightarrow> bool" where
  "systick_plain (SysTickWrite addr w sz attrs) ds \<longleftrightarrow> addr = 0 \<longrightarrow> csr_write_plain w (fst ds)"
| "systick_plain (CpuClock p) ds \<longleftrightarrow> 2 ^ 32 \<le> uint p"
| "systick_plain (RefClock p) ds \<longleftrightarrow> 2 ^ 32 \<le> uint p"
| "systick_plain _ ds \<longleftrightarrow> True"

inductive systick_reach :: "int \<Rightarrow> systick \<Rightarrow> bool" where
  boot: "\<lbrakk>systick_realize ref cpu = Inr (Some ds); clock_ok ref; clock_ok cpu; 0 \<le> now; now < 2 ^ 62; systick_reset now ds = Inr ds'\<rbrakk>
    \<Longrightarrow> systick_reach now ds'"
| step: "\<lbrakk>systick_reach now ds; now \<le> now'; now' < 2 ^ 62; systick_plain e ds; systick_step now' e ds = Inr ds'\<rbrakk>
    \<Longrightarrow> systick_reach now' ds'"

lemma clock_set_ok: "2 ^ 32 \<le> uint p \<Longrightarrow> clock_ok (snd (clock_set p clk))"
  by (auto simp: clock_set_def clock_ok_def)

lemma systick_step_ok:
  assumes "st_inv now ds" "0 \<le> now" "now < 2 ^ 62" "systick_plain e ds"
  shows "returns (st_inv now) (systick_step now e ds)"
proof (cases e)
  case (SysTickRead addr sz attrs)
  then show ?thesis by (auto intro!: returns_bind [OF systick_read_ok [OF assms(1-3)]])
next
  case (SysTickWrite addr w sz attrs)
  have "returns (\<lambda>(r, ds'). st_inv now ds') (systick_write now addr w sz attrs ds)"
    using assms SysTickWrite
    by (auto simp: systick_write_def intro!: returns_bind [where P = "st_inv now"] systick_write_csr_ok systick_write_rvr_ok systick_write_cvr_ok)
  with SysTickWrite show ?thesis by (auto intro: returns_bind)
next
  case (CpuClock p)
  obtain d s where ds: "ds = (d, s)" by (cases ds)
  then have "st_inv now (d\<lparr>cpuclk := snd (clock_set p (cpuclk d))\<rparr>, s)"
    using assms CpuClock by (simp add: st_inv_def clock_set_ok)
  with systick_cpuclk_update_ok assms CpuClock ds show ?thesis by simp
next
  case (RefClock p)
  obtain d s where ds: "ds = (d, s)" by (cases ds)
  then have "st_inv now (d\<lparr>refclk := snd (clock_set p (refclk d))\<rparr>, s)"
    using assms RefClock by (simp add: st_inv_def clock_set_ok)
  with systick_refclk_update_ok assms RefClock ds show ?thesis by simp
qed (use assms in \<open>auto intro: systick_reset_ok systick_expire_ok\<close>)

lemma systick_boot_ok:
  assumes "systick_realize ref cpu = Inr (Some ds)" "clock_ok ref" "clock_ok cpu"
  shows "returns (st_inv now) (systick_reset now ds)"
proof -
  obtain s where s: "ds = (\<lparr>st_control = 0, st_irq = [], refclk = ref, cpuclk = cpu\<rparr>, s)"
    "pt_policy_mask s = systick_policy" "pt_enabled s = 0" "pt_delta s = 0" "pt_timer s = - 1" "\<not> in_transaction s"
    using assms(1) by (auto simp: systick_realize_def ptimer_init_def assert_that_def systick_policy_def split: if_splits)
  then show ?thesis using clock_ok_period [OF assms(2)] clock_ok_period [OF assms(3)] assms(2,3)
    by (auto simp: systick_reset_def ptimer_transaction_begin_def ptimer_stop_def ptimer_set_count_def ptimer_set_limit_def
        systick_set_period_from_clock_def ptimer_set_period_from_clock_def ptimer_get_count_def clock_get_def clock_period_parts
        ptimer_transaction_commit_def commit_loop.simps Let_def st_inv_def closed_ok_def pt_wf_def pt_sched_def)
qed

lemma systick_reach_inv:
  assumes "systick_reach now ds"
  shows "st_inv now ds \<and> 0 \<le> now \<and> now < 2 ^ 62"
  using assms
proof induction
  case (boot ref cpu ds now ds')
  then show ?case using systick_boot_ok [OF boot(1-3), of now] by simp
next
  case (step now ds now' e ds')
  then show ?case using systick_step_ok [of now' ds e] st_inv_later [of now ds now'] by simp
qed

section \<open>A run at 120 MHz\<close>

definition demo_dev :: "u32 \<Rightarrow> SysTickState" where
  "demo_dev c = \<lparr>st_control = c, st_irq = [],
     refclk = \<lparr>clk_period = 286331153066, clk_multiplier = 1, clk_divider = 1, clk_source = True\<rparr>,
     cpuclk = \<lparr>clk_period = 35791394133, clk_multiplier = 1, clk_divider = 1, clk_source = True\<rparr>\<rparr>"

definition demo_boot :: systick where
  "demo_boot = (demo_dev 0,
     \<lparr>pt_enabled = 0, pt_limit = 0, pt_delta = 0, pt_period_frac = 2863311530, pt_period = 66, pt_last_event = 0,
       pt_next_event = 0, pt_policy_mask = 57, pt_timer = - 1, in_transaction = False, need_reload = False\<rparr>)"

definition demo_limit :: systick where
  "demo_limit = (demo_dev 0, (snd demo_boot)\<lparr>pt_limit := 119999\<rparr>)"

definition demo_enabled :: systick where
  "demo_enabled = (demo_dev 7,
     \<lparr>pt_enabled = 1, pt_limit = 119999, pt_delta = 0, pt_period_frac = 1431655765, pt_period = 8, pt_last_event = 0,
       pt_next_event = 10000, pt_policy_mask = 57, pt_timer = 10000, in_transaction = False, need_reload = False\<rparr>)"

definition demo_ticking :: ptimer_state where
  "demo_ticking =
     \<lparr>pt_enabled = 1, pt_limit = 119999, pt_delta = 119999, pt_period_frac = 1431655765, pt_period = 8, pt_last_event = 10000,
       pt_next_event = 1009991, pt_policy_mask = 57, pt_timer = 1009991, in_transaction = False, need_reload = False\<rparr>"

definition demo_attrs :: MemTxAttrs where
  "demo_attrs = \<lparr>at_secure = False, at_user = False\<rparr>"

lemma demo_ticking_fields [simp]:
  "pt_enabled demo_ticking = 1" "pt_limit demo_ticking = 119999" "pt_delta demo_ticking = 119999" "pt_period demo_ticking = 8"
  "pt_timer demo_ticking = 1009991"
  by (simp_all add: demo_ticking_def)

lemma demo_boot_reach: "systick_reach 0 demo_boot"
proof (rule systick_reach.boot)
  show "systick_realize (refclk (demo_dev 0)) (cpuclk (demo_dev 0)) =
    Inr (Some (demo_dev 0, (snd demo_boot)\<lparr>pt_period := 0, pt_period_frac := 0\<rparr>))" by code_simp
  show "systick_reset 0 (demo_dev 0, (snd demo_boot)\<lparr>pt_period := 0, pt_period_frac := 0\<rparr>) = Inr demo_boot" by code_simp
qed (simp_all add: demo_dev_def clock_ok_def)

lemma demo_limit_reach: "systick_reach 0 demo_limit"
proof (rule systick_reach.step [OF demo_boot_reach])
  show "systick_step 0 (SysTickWrite 4 119999 4 demo_attrs) demo_boot = Inr demo_limit" by code_simp
qed simp_all

lemma demo_enabled_reach: "systick_reach 0 demo_enabled"
proof (rule systick_reach.step [OF demo_limit_reach])
  show "systick_step 0 (SysTickWrite 0 7 4 demo_attrs) demo_limit = Inr demo_enabled" by code_simp
  show "systick_plain (SysTickWrite 0 7 4 demo_attrs) demo_limit" by code_simp
qed simp_all

lemma demo_ticking_reach: "systick_reach 10000 (demo_dev 7, demo_ticking)"
proof (rule systick_reach.step [OF demo_enabled_reach])
  show "systick_step 10000 Expire demo_enabled = Inr (demo_dev 7, demo_ticking)" by code_simp
qed simp_all



section \<open>The period\<close>

lemma systick_expire_running:
  assumes inv: "st_inv now (d, s)" and now: "0 \<le> now" "now < 2 ^ 62"
    and run: "pt_enabled s = 1" "pt_delta s \<noteq> 0" "pt_limit s \<noteq> 0" "pt_timer s \<le> now"
  obtains s' where "systick_expire now (d, s) = Inr (ticked d, s')" and "pt_enabled s' = 1" "pt_delta s' = pt_limit s" "pt_limit s' = pt_limit s"
    "pt_period s' = pt_period s" "pt_period_frac s' = pt_period_frac s" "pt_timer s' = pt_timer s + span s (pt_limit s + 1)"
proof -
  have s: "pt_wf s" "\<not> in_transaction s" "pt_sched now s" using inv by (simp_all add: st_inv_pair closed_ok_def)
  then have next_event: "pt_timer s = uint (pt_next_event s)" using run(1) by (auto simp: pt_sched_def)
  have lim: "uint (pt_limit s + 1) \<le> 2 ^ 24" "pt_limit s + 1 \<noteq> 0"
  proof -
    have "uint (pt_limit s) < 2 ^ 24" using s(1) by (simp add: pt_wf_def)
    then have "uint (pt_limit s + 1) = uint (pt_limit s) + 1" by (simp add: uint_word_ariths)
    moreover from this have "uint (pt_limit s + 1) \<noteq> 0" using uint_ge_0 [of "pt_limit s"] by linarith
    ultimately show "uint (pt_limit s + 1) \<le> 2 ^ 24" "pt_limit s + 1 \<noteq> 0" using s(1) by (auto simp: pt_wf_def)
  qed
  let ?t = "tick_start s"
  have wf: "pt_wf ?t" using s(1) run(1) by (simp add: pt_wf_def)
  have "uint (pt_next_event ?t) < 2 ^ 62" using next_event run(4) now by simp
  from pt_arm_eq [OF wf lim this] obtain nxt
    where arm: "pt_arm (pt_limit s + 1) ?t = ?t\<lparr>pt_last_event := pt_next_event s, pt_next_event := nxt, pt_timer := uint nxt\<rparr>"
      and nxt: "uint nxt = uint (pt_next_event s) + span ?t (pt_limit s + 1)" by auto
  have span: "span ?t (pt_limit s + 1) = span s (pt_limit s + 1)" by (rule span_frame) simp_all
  have t: "ptimer_schedule 1 ?t = pt_arm (pt_limit s + 1) ?t"
    using lim(2) run(1) by (simp add: ptimer_schedule_eq [OF wf] reload_delta_eq [OF wf] Let_def)
  have wf': "pt_wf (ptimer_schedule 1 ?t)" unfolding t arm using s(1) run(1) by (simp add: pt_wf_def)
  from ptimer_tick_reload [OF s(1,2) run(1,3) _ refl wf', of now d] run(2,4) next_event
  have "systick_expire now (d, s) = Inr (ticked d, (ptimer_schedule 1 ?t)\<lparr>in_transaction := False\<rparr>)"
    by (simp add: systick_expire_def)
  then show thesis by (rule that) (simp_all add: t arm nxt span next_event run(1))
qed

primrec systick_expires :: "int list \<Rightarrow> systick \<Rightarrow> systick res" where
  "systick_expires [] ds = Inr ds"
| "systick_expires (now # nows) ds = res_bind (systick_expire now ds) (systick_expires nows)"

definition tick_span :: "ptimer_state \<Rightarrow> int" where
  "tick_span s = (uint (pt_limit s) + 1) * uint (pt_period s) + uint (pt_period_frac s) * (uint (pt_limit s) + 1) div 2 ^ 32"

lemma tick_span_eq:
  assumes "pt_wf s" and "10000 \<le> (uint (pt_limit s) + 1) * uint (pt_period s)"
  shows "span s (pt_limit s + 1) = tick_span s"
proof -
  have lim: "uint (pt_limit s + 1) = uint (pt_limit s) + 1" using assms(1) by (simp add: pt_wf_def uint_word_ariths)
  have "uint ((pt_limit s + 1) * pt_period s) = uint (pt_limit s + 1) * uint (pt_period s)"
    using assms(1) lim by (intro mult_24_32) (simp_all add: pt_wf_def)
  then have "\<not> (pt_limit s + 1) * pt_period s < 10000" using assms(2) lim by (simp add: word_less_def)
  then show ?thesis by (simp add: span_def eff_period_def tick_span_def lim)
qed



lemma ticked_irq:
  "csr_flag d SYSTICK_TICKINT \<Longrightarrow> st_irq (ticked d) = qemu_irq_pulse recorder (st_irq d) \<and> csr_flag (ticked d) SYSTICK_TICKINT"
  by (simp add: ticked_def Let_def has_flag_or)

lemma systick_expires_ok:
  assumes "st_inv now (d, s)" "0 \<le> now" "sorted (now # nows)" and "pt_enabled s = 1" "pt_delta s \<noteq> 0" "pt_limit s \<noteq> 0"
    and "10000 \<le> (uint (pt_limit s) + 1) * uint (pt_period s)"
    and "\<forall>i<length nows. pt_timer s + int i * tick_span s \<le> nows ! i \<and> nows ! i < 2 ^ 62" and "csr_flag d SYSTICK_TICKINT"
  shows "\<exists>d' s'. systick_expires nows (d, s) = Inr (d', s') \<and> pt_timer s' = pt_timer s + int (length nows) * tick_span s \<and>
    st_irq d' = st_irq d @ concat (replicate (length nows) [1, 0])"
  using assms
proof (induction nows arbitrary: now d s)
  case (Cons t nows)
  have t: "now \<le> t" "pt_timer s \<le> t" "t < 2 ^ 62" using Cons.prems(3,8) by auto
  from systick_expire_running [OF st_inv_later [OF Cons.prems(1) t(1)] _ t(3) Cons.prems(4-6) t(2)] Cons.prems(2) t(1)
  obtain s' where s': "systick_expire t (d, s) = Inr (ticked d, s')" "pt_enabled s' = 1" "pt_delta s' = pt_limit s" "pt_limit s' = pt_limit s"
    "pt_period s' = pt_period s" "pt_period_frac s' = pt_period_frac s" "pt_timer s' = pt_timer s + span s (pt_limit s + 1)"
    using order_trans by blast
  have "span s (pt_limit s + 1) = tick_span s" using Cons.prems(1,7) by (intro tick_span_eq) (simp_all add: st_inv_pair closed_ok_def)
  with s'(7) have timer: "pt_timer s' = pt_timer s + tick_span s" by simp
  have same: "tick_span s' = tick_span s" using s'(4-6) by (simp add: tick_span_def)
  have inv: "st_inv t (ticked d, s')" using systick_expire_ok [OF st_inv_later [OF Cons.prems(1) t(1)] _ t(3)] Cons.prems(2) t(1) s'(1) by simp
  have "\<exists>d'' s''. systick_expires nows (ticked d, s') = Inr (d'', s'') \<and> pt_timer s'' = pt_timer s' + int (length nows) * tick_span s' \<and>
      st_irq d'' = st_irq (ticked d) @ concat (replicate (length nows) [1, 0])"
  proof (rule Cons.IH [OF inv])
    show "\<forall>i<length nows. pt_timer s' + int i * tick_span s' \<le> nows ! i \<and> nows ! i < 2 ^ 62"
    proof (intro allI impI)
      fix i assume "i < length nows"
      then show "pt_timer s' + int i * tick_span s' \<le> nows ! i \<and> nows ! i < 2 ^ 62"
        using Cons.prems(8) [rule_format, of "Suc i"] by (simp add: timer same algebra_simps)
    qed
  qed (use Cons.prems t s' ticked_irq in auto)
  then show ?case using s'(1) ticked_irq [OF Cons.prems(9)] by (auto simp: timer same algebra_simps)
qed simp



lemma rvr_limit:
  assumes "st_inv now ds" "0 \<le> now" "now < 2 ^ 62"
  shows "returns (\<lambda>ds'. pt_limit (snd ds') = w AND 0xffffff) (systick_write_rvr now w ds)"
proof -
  let ?s = "(snd ds)\<lparr>in_transaction := True, need_reload := False, pt_limit := w AND 0xffffff\<rparr>"
  have "returns (open_ok now) (ptimer_set_limit (w AND 0xffffff) False ((snd ds)\<lparr>in_transaction := True, need_reload := False\<rparr>))"
    using begin_ok [of now "snd ds"] assms(1) uint_and_24 by (intro set_limit_ok) (simp_all add: st_inv_def ptimer_transaction_begin_def closed_ok_def)
  then have "open_ok now ?s" by (simp add: ptimer_set_limit_def)
  from commit_ok [OF open_reload [OF this] assms(2,3), of "fst ds" "systick_timer_tick now"] assms(1) show ?thesis
    by (auto simp: systick_write_rvr_def ptimer_transaction_begin_def ptimer_set_limit_def st_inv_def closed_ok_def elim!: returns_mono)
qed

text \<open>
  C19.  In every reachable state a privileged guest that writes the reload value register reads back, at
  any later time, the 24 low bits of what it wrote.
\<close>

theorem systick_reload_round_trip:
  assumes "systick_reach now ds" and "now \<le> now'" and "now' < 2 ^ 62" and "\<not> at_user attrs"
  shows "\<exists>ds'. systick_write now' 4 w sz attrs ds = Inr (MEMTX_OK, ds') \<and>
    systick_read now'' 4 sz' attrs ds' = Inr (MEMTX_OK, Some (w AND 0xffffff), ds')"
proof -
  have inv: "st_inv now' ds" "0 \<le> now'" using systick_reach_inv [OF assms(1)] st_inv_later [of now ds now'] assms(2) by auto
  have "ucast (ucast (w AND 0xffffff) :: u32) = w AND (0xffffff :: u64)"
    by (rule bit_word_eqI) (auto simp: bit_simps and_24)
  with rvr_limit [OF inv assms(3), of w] assms(4) show ?thesis
    by (auto simp: systick_write_def systick_read_def ptimer_get_limit_def returns_def split: sum.splits)
qed

theorem systick_reload_round_trip_witness:
  "systick_reach 0 demo_boot \<and> (\<exists>ds'. systick_write 20 4 0xff0004e1 4 demo_attrs demo_boot = Inr (MEMTX_OK, ds') \<and>
    systick_read 30 4 4 demo_attrs ds' = Inr (MEMTX_OK, Some 0x4e1, ds'))"
  using systick_reload_round_trip [OF demo_boot_reach, of 20 demo_attrs "0xff0004e1" 4 30 4] demo_boot_reach
  by (simp add: demo_attrs_def)

end
