(* ===== verification/Soc_Board.thy ===== *)
theory Soc_Board
  imports Soc_Map Dev_Lines Nvic_Lines Sys_Tick_Run
begin

text \<open>
  The microcontroller (\<open>hw/arm/nxp_s32k3.c\<close>, \<open>hw/arm/armv7m.c\<close>): three CPUs, each with its interrupt
  controller and SysTick timer, one UART and two CAN controllers on one bus, whose interrupt lines are
  wired to the controller of CPU 0.

  A device records the levels it drives on its line.  The board delivers the levels that an operation
  has added, in their order, when the operation of the device is finished; devices do not read the
  state of the interrupt controller, so this is the same as delivering them at once.

  Guest accesses carry no secure attribute: the Cortex-M7 has no security extension.
\<close>

section \<open>State\<close>

record ARMv7MState =
  nvic :: NVICState
  systick_ns :: systick

record NXPS32K3McuState =
  armv7m :: "nat \<Rightarrow> ARMv7MState"
  uart0 :: UartState
  cans :: CanWorld

abbreviation nvic_of :: "NXPS32K3McuState \<Rightarrow> nat \<Rightarrow> NVICState" where
  "nvic_of m i \<equiv> nvic (armv7m m i)"

definition set_nvic :: "nat \<Rightarrow> NVICState \<Rightarrow> NXPS32K3McuState \<Rightarrow> NXPS32K3McuState" where
  "set_nvic i n m = m\<lparr>armv7m := (armv7m m)(i := (armv7m m i)\<lparr>nvic := n\<rparr>)\<rparr>"

section \<open>Wiring\<close>

text \<open>The levels that were added to the log of a line are handed to the input of the controller.\<close>

primrec drive :: "(int \<Rightarrow> NVICState \<Rightarrow> NVICState res) \<Rightarrow> int list \<Rightarrow> NVICState \<Rightarrow> NVICState res" where
  "drive input [] n = Inr n"
| "drive input (l # ls) n = res_bind (input l n) (drive input ls)"

definition deliver :: "nat \<Rightarrow> (int \<Rightarrow> NVICState \<Rightarrow> NVICState res) \<Rightarrow> irq_log \<Rightarrow> irq_log \<Rightarrow> NXPS32K3McuState \<Rightarrow> NXPS32K3McuState res" where
  "deliver i input old new m = res_bind (drive input (drop (length old) new) (nvic_of m i)) (\<lambda>n. Inr (set_nvic i n m))"

definition put_uart :: "UartState \<Rightarrow> NXPS32K3McuState \<Rightarrow> NXPS32K3McuState res" where
  "put_uart u m = deliver 0 (set_irq_level UART0_IRQn) (UartState.irq (uart0 m)) (UartState.irq u) (m\<lparr>uart0 := u\<rparr>)"

definition put_cans :: "CanWorld \<Rightarrow> NXPS32K3McuState \<Rightarrow> NXPS32K3McuState res" where
  "put_cans w m =
    (let old = dev (cans m)
     in res_bind (deliver 0 (set_irq_level CAN0_IRQn) (CanState.irq (old 0)) (CanState.irq (dev w 0)) (m\<lparr>cans := w\<rparr>))
          (deliver 0 (set_irq_level CAN1_IRQn) (CanState.irq (old 1)) (CanState.irq (dev w 1))))"

definition put_systick :: "nat \<Rightarrow> systick \<Rightarrow> NXPS32K3McuState \<Rightarrow> NXPS32K3McuState res" where
  "put_systick i ds m =
     deliver i (nvic_systick_trigger False) (st_irq (fst (systick_ns (armv7m m i)))) (st_irq (fst ds))
       (m\<lparr>armv7m := (armv7m m)(i := (armv7m m i)\<lparr>systick_ns := ds\<rparr>)\<rparr>)"

definition put_nvic :: "nat \<Rightarrow> NVICState \<Rightarrow> NXPS32K3McuState \<Rightarrow> NXPS32K3McuState res" where
  "put_nvic i n m = Inr (set_nvic i n m)"

section \<open>Registers of the devices\<close>

definition uart_ops :: "int \<Rightarrow> UartState MemoryRegionOps" where
  "uart_ops now = \<lparr>
     ops_read = \<lambda>addr sz attrs u. let (v, u) = uart_read addr u in Inr (MEMTX_OK, v, u),
     ops_write = \<lambda>addr v sz attrs u. res_bind (uart_write now addr v u) (\<lambda>u. Inr (MEMTX_OK, u)),
     endianness = DEVICE_NATIVE_ENDIAN, valid_min_access_size = 0, valid_max_access_size = 0, valid_unaligned = False,
     valid_accepts = None, impl_min_access_size = 0, impl_max_access_size = 0, impl_unaligned = False\<rparr>"

definition can_ops :: "nat \<Rightarrow> CanWorld MemoryRegionOps" where
  "can_ops c = \<lparr>
     ops_read = \<lambda>addr sz attrs w. Inr (MEMTX_OK, can_read addr (dev w c), w),
     ops_write = \<lambda>addr v sz attrs w. Inr (MEMTX_OK, can_write c addr v w),
     endianness = DEVICE_NATIVE_ENDIAN, valid_min_access_size = 0, valid_max_access_size = 0, valid_unaligned = False,
     valid_accepts = None, impl_min_access_size = 0, impl_max_access_size = 0, impl_unaligned = False\<rparr>"

definition nvic_sysreg_ops :: "NVICState MemoryRegionOps" where
  "nvic_sysreg_ops = \<lparr>
     ops_read = \<lambda>addr sz attrs n. res_bind (nvic_sysreg_read addr sz attrs n) (\<lambda>(r, v). Inr (r, case v of None \<Rightarrow> 0 | Some v \<Rightarrow> v, n)),
     ops_write = nvic_sysreg_write,
     endianness = DEVICE_NATIVE_ENDIAN, valid_min_access_size = 0, valid_max_access_size = 0, valid_unaligned = False,
     valid_accepts = None, impl_min_access_size = 0, impl_max_access_size = 0, impl_unaligned = False\<rparr>"

text \<open>Unassigned parts of the private peripheral bus read as zero and ignore writes, for privileged code only.\<close>

definition ppb_default_read :: "u64 \<Rightarrow> nat \<Rightarrow> MemTxAttrs \<Rightarrow> MemTxResult \<times> u64" where
  "ppb_default_read addr sz attrs = (if at_user attrs then MEMTX_ERROR else MEMTX_OK, 0)"

definition ppb_default_write :: "u64 \<Rightarrow> u64 \<Rightarrow> nat \<Rightarrow> MemTxAttrs \<Rightarrow> MemTxResult" where
  "ppb_default_write addr v sz attrs = (if at_user attrs then MEMTX_ERROR else MEMTX_OK)"

definition ppb_default_ops :: "'m MemoryRegionOps" where
  "ppb_default_ops = \<lparr>
     ops_read = \<lambda>addr sz attrs m. let (r, v) = ppb_default_read addr sz attrs in Inr (r, v, m),
     ops_write = \<lambda>addr v sz attrs m. Inr (ppb_default_write addr v sz attrs, m),
     endianness = DEVICE_NATIVE_ENDIAN, valid_min_access_size = 1, valid_max_access_size = 8, valid_unaligned = False,
     valid_accepts = None, impl_min_access_size = 0, impl_max_access_size = 0, impl_unaligned = False\<rparr>"

text \<open>The window of the CPU on its SysTick timer is a region of its own, in front of the region of the timer.\<close>

definition systick_iomem :: MemoryRegion where
  "systick_iomem = memory_region_init_io ''systick'' ''systick'' 0xe0"

definition v7m_systick_read :: "int \<Rightarrow> u64 \<Rightarrow> nat \<Rightarrow> MemTxAttrs \<Rightarrow> systick \<Rightarrow> (MemTxResult \<times> u64 \<times> systick) res" where
  "v7m_systick_read now addr sz attrs = memory_region_dispatch_read False (\<lambda>_. systick_ops now) systick_iomem addr sz False attrs"

definition v7m_systick_write :: "int \<Rightarrow> u64 \<Rightarrow> u64 \<Rightarrow> nat \<Rightarrow> MemTxAttrs \<Rightarrow> systick \<Rightarrow> (MemTxResult \<times> systick) res" where
  "v7m_systick_write now addr v sz attrs = memory_region_dispatch_write False (\<lambda>_. systick_ops now) systick_iomem addr v sz False attrs"

definition v7m_systick_ops :: "int \<Rightarrow> systick MemoryRegionOps" where
  "v7m_systick_ops now = \<lparr>
     ops_read = v7m_systick_read now, ops_write = v7m_systick_write now,
     endianness = DEVICE_LITTLE_ENDIAN, valid_min_access_size = 0, valid_max_access_size = 0, valid_unaligned = False,
     valid_accepts = None, impl_min_access_size = 0, impl_max_access_size = 0, impl_unaligned = False\<rparr>"

section \<open>Accesses of a CPU\<close>

text \<open>A device inside the microcontroller: how to get its state and how to put it back.\<close>

definition lift_ops :: "('m \<Rightarrow> 'd) \<Rightarrow> ('d \<Rightarrow> 'm \<Rightarrow> 'm res) \<Rightarrow> 'd MemoryRegionOps \<Rightarrow> 'm MemoryRegionOps" where
  "lift_ops get put ops = \<lparr>
     ops_read = \<lambda>addr sz attrs m. res_bind (ops_read ops addr sz attrs (get m)) (\<lambda>(r, v, d). res_bind (put d m) (\<lambda>m. Inr (r, v, m))),
     ops_write = \<lambda>addr v sz attrs m. res_bind (ops_write ops addr v sz attrs (get m)) (\<lambda>(r, d). res_bind (put d m) (\<lambda>m. Inr (r, m))),
     endianness = endianness ops, valid_min_access_size = valid_min_access_size ops, valid_max_access_size = valid_max_access_size ops,
     valid_unaligned = valid_unaligned ops, valid_accepts = valid_accepts ops, impl_min_access_size = impl_min_access_size ops,
     impl_max_access_size = impl_max_access_size ops, impl_unaligned = impl_unaligned ops\<rparr>"

definition board_devices :: "int \<Rightarrow> (mr_id \<times> NXPS32K3McuState MemoryRegionOps) list" where
  "board_devices now =
     [(uart_region, lift_ops uart0 put_uart (uart_ops now)),
      (can_region 0, lift_ops cans put_cans (can_ops 0)), (can_region 1, lift_ops cans put_cans (can_ops 1))] @
     concat (map (\<lambda>i.
       [(nvic_region i, lift_ops (\<lambda>m. nvic_of m i) (put_nvic i) nvic_sysreg_ops),
        (systick_region i, lift_ops (\<lambda>m. systick_ns (armv7m m i)) (put_systick i) (v7m_systick_ops now)),
        (ppb_region i, ppb_default_ops)]) [0..<3])"

definition board_ops :: "int \<Rightarrow> mr_id \<Rightarrow> NXPS32K3McuState MemoryRegionOps" where
  "board_ops now r = (case map_of (board_devices now) r of Some ops \<Rightarrow> ops | None \<Rightarrow> unassigned_mem_ops)"

type_synonym board = "NXPS32K3McuState system"

definition guest_attrs :: "bool \<Rightarrow> MemTxAttrs" where
  "guest_attrs user = \<lparr>at_secure = False, at_user = user\<rparr>"

definition cpu_load :: "int \<Rightarrow> nat \<Rightarrow> nat \<Rightarrow> u64 \<Rightarrow> bool \<Rightarrow> board \<Rightarrow> (MemTxResult \<times> u64 \<times> board) res" where
  "cpu_load now i sz addr user = address_space_ld (board_ops now) (cpu_view i) sz False addr (guest_attrs user)"

definition cpu_store :: "int \<Rightarrow> nat \<Rightarrow> nat \<Rightarrow> u64 \<Rightarrow> u64 \<Rightarrow> bool \<Rightarrow> board \<Rightarrow> (MemTxResult \<times> board) res" where
  "cpu_store now i sz addr v user = address_space_st (board_ops now) (cpu_view i) sz False addr v (guest_attrs user)"

section \<open>Power-on\<close>

definition SYSCLK_FRQ :: u32 where "SYSCLK_FRQ = 120000000"

text \<open>The reference clock and the CPU clock that reach a SysTick timer.\<close>

definition systick_clocks :: "(Clock \<times> Clock) res" where
  "systick_clocks =
     (let board_clk = snd (clock_set_hz SYSCLK_FRQ clock_initfn)
      in res_bind (clock_set_source clock_initfn board_clk) (\<lambda>sysclk.
         res_bind (clock_set_mul_div 8 1 clock_initfn) (\<lambda>(_, refclk).
         res_bind (clock_set_source refclk sysclk) (\<lambda>refclk.
         res_bind (clock_set_source clock_initfn sysclk) (\<lambda>armv7m_cpuclk.
         res_bind (clock_set_source clock_initfn refclk) (\<lambda>armv7m_refclk.
         res_bind (if clock_has_source armv7m_refclk then clock_set_source clock_initfn armv7m_refclk else Inr clock_initfn) (\<lambda>ref.
         res_bind (clock_set_source clock_initfn armv7m_cpuclk) (\<lambda>cpu. Inr (ref, cpu)))))))))"

definition nvic_new :: "ARMCPU \<Rightarrow> NVICState" where
  "nvic_new c = \<lparr>cpu = c, vectors = (\<lambda>_. zero_vec), sec_vectors = (\<lambda>_. zero_vec), prigroup = (\<lambda>_. 0),
     num_prio_bits = 4, itns = (\<lambda>_. False), vectpending = 0, vectpending_is_s_banked = False,
     exception_prio = 0, vectpending_prio = 0, num_irq = 241, excpout = [], sysresetreq = None,
     system_reset_requests = 0\<rparr>"

text \<open>The CPU of the board, after its reset.\<close>

definition board_cpu :: ARMCPU where
  "board_cpu = arm_cpu_reset_m 0 0 cortex_m7_initfn"

text \<open>
  Set-up and reset of a CPU without the v8, security and RAS extensions and with bit-banding switched off,
  which is what the board asks for; the set-up fails when the controller or the timer refuse.
\<close>

definition armv7m_realize :: "ARMCPU \<Rightarrow> int \<Rightarrow> ARMv7MState option res" where
  "armv7m_realize c now =
     res_bind systick_clocks (\<lambda>(ref, cpu).
       if \<not> clock_has_source cpu then Inr None
       else
         case armv7m_nvic_realize (nvic_new c) of
           Inl e \<Rightarrow> Inr None
         | Inr n \<Rightarrow>
             res_bind (systick_realize ref cpu) (\<lambda>st.
               case st of
                 None \<Rightarrow> Inr None
               | Some st \<Rightarrow> res_bind (systick_reset now st)
                   (\<lambda>st. Inr (Some \<lparr>nvic = armv7m_nvic_reset n, systick_ns = st\<rparr>))))"

text \<open>
  The three CPUs are alike; that CPU 1 and CPU 2 start powered off is a matter of when they run.  Each device is reset once more with the machine; its line is low, so the
  interrupt controller sees no change.
\<close>

definition nxps32k3_realize :: "int \<Rightarrow> NXPS32K3McuState option res" where
  "nxps32k3_realize now =
     res_bind (armv7m_realize board_cpu now) (\<lambda>a.
       case a of
         None \<Rightarrow> Inr None
       | Some a \<Rightarrow>
           res_bind (uart_realize uart_init) (\<lambda>u. res_bind (uart_reset u) (\<lambda>u.
             Inr (Some \<lparr>armv7m = (\<lambda>_. a), uart0 = u,
               cans = upd_dev 1 can_reset (upd_dev 0 can_reset (can_power_on (\<lambda>_. Some 0) 2))\<rparr>))))"

end
