(* ===== verification/Soc_Access.thy ===== *)
theory Soc_Access
  imports Soc_Board
begin

text \<open>
  Accesses of a CPU to the registers of the devices: from the address, through the memory map of the CPU
  and the rules for access sizes, to the operation of the device and to the interrupt line it drives.
\<close>

section \<open>Lines of the memory map that are devices\<close>

lemma translate_line:
  assumes "i < 3" and "(bid, a, n, off, False, ro) \<in> set (board_map i)" and "a \<le> uint addr" and "uint addr < a + n"
  obtains mr where "flatview_translate (cpu_view i) addr sz = (mr, word_of_int (uint addr - a + off), sz)"
    and "\<not> mr_ram mr" and "mr_id mr = bid"
proof -
  from line_lookup [OF assms] obtain r where "address_space_lookup_region (cpu_view i) addr = Some r" "line_of r = (bid, a, n, off, False, ro)" .
  then show thesis by (intro that) (auto simp: flatview_translate_def line_of_def)
qed

lemma device_access:
  assumes "i < 3" and "(bid, a, n, off, False, ro) \<in> set (board_map i)" and "a \<le> uint addr" and "uint addr < a + n"
    and "plain_ops (board_ops now bid)" and "bid \<noteq> mr_id io_mem_unassigned"
  defines "x \<equiv> word_of_int (uint addr - a + off)"
  shows "\<lbrakk>aligned x sz; sz \<in> {1, 2, 4}\<rbrakk> \<Longrightarrow> cpu_load now i sz addr user s =
      res_bind (ops_read (board_ops now bid) x sz (guest_attrs user) (devs s)) (\<lambda>(r, v, m). Inr (r, take_bit (sz * 8) v, s\<lparr>devs := m\<rparr>))"
    and "\<lbrakk>aligned x sz; sz \<in> {1, 2, 4}\<rbrakk> \<Longrightarrow> cpu_store now i sz addr v user s =
      res_bind (ops_write (board_ops now bid) x (take_bit (sz * 8) v) sz (guest_attrs user) (devs s)) (\<lambda>(r, m). Inr (r, s\<lparr>devs := m\<rparr>))"
    and "\<not> aligned x sz \<Longrightarrow> cpu_load now i sz addr user s = Inr (MEMTX_DECODE_ERROR, 0, s)"
    and "\<not> aligned x sz \<Longrightarrow> cpu_store now i sz addr v user s = Inr (MEMTX_DECODE_ERROR, s)"
proof -
  obtain mr where mr: "flatview_translate (cpu_view i) addr sz = (mr, x, sz)" "\<not> mr_ram mr" "mr_id mr = bid"
    unfolding x_def by (rule translate_line [OF assms(1-4)])
  have ops: "region_ops (board_ops now) mr = board_ops now bid" using mr(2,3) assms(6) by (auto simp: region_ops_def)
  then have plain: "plain_ops (region_ops (board_ops now) mr)" using assms(5) by simp
  have st: "cpu_store now i sz addr v user s = dispatch_write (board_ops now) mr x v sz False (guest_attrs user) s"
    and ld: "cpu_load now i sz addr user s = dispatch_read (board_ops now) mr x sz False (guest_attrs user) s"
    using mr by (simp_all add: cpu_store_def cpu_load_def address_space_st_def address_space_ld_def memory_access_is_direct_def memory_region_supports_direct_access_def)
  show "cpu_load now i sz addr user s =
      res_bind (ops_read (board_ops now bid) x sz (guest_attrs user) (devs s)) (\<lambda>(r, v, m). Inr (r, take_bit (sz * 8) v, s\<lparr>devs := m\<rparr>))"
    if "aligned x sz" "sz \<in> {1, 2, 4}"
    unfolding ld dispatch_read_def plain_word(1) [where ops_of = "region_ops (board_ops now)" and i = mr, OF plain that] ops
    by (cases "ops_read (board_ops now bid) x sz (guest_attrs user) (devs s)") auto
  show "cpu_store now i sz addr v user s =
      res_bind (ops_write (board_ops now bid) x (take_bit (sz * 8) v) sz (guest_attrs user) (devs s)) (\<lambda>(r, m). Inr (r, s\<lparr>devs := m\<rparr>))"
    if "aligned x sz" "sz \<in> {1, 2, 4}"
    unfolding st dispatch_write_def plain_word(2) [where ops_of = "region_ops (board_ops now)" and i = mr, OF plain that] ops ..
  show "cpu_load now i sz addr user s = Inr (MEMTX_DECODE_ERROR, 0, s)" if "\<not> aligned x sz"
    unfolding ld dispatch_read_def plain_misaligned(1) [where ops_of = "region_ops (board_ops now)" and i = mr, OF plain that] by simp
  show "cpu_store now i sz addr v user s = Inr (MEMTX_DECODE_ERROR, s)" if "\<not> aligned x sz"
    unfolding st dispatch_write_def plain_misaligned(2) [where ops_of = "region_ops (board_ops now)" and i = mr, OF plain that] by simp
qed

section \<open>The operations behind a line\<close>

lemma region_names [simp]:
  "uart_region \<noteq> mr_id io_mem_unassigned" "c < 2 \<Longrightarrow> can_region c \<noteq> mr_id io_mem_unassigned" "nvic_region i \<noteq> mr_id io_mem_unassigned"
proof -
  have "mr_id io_mem_unassigned = ('''', '''')" by code_simp
  then show "uart_region \<noteq> mr_id io_mem_unassigned" "c < 2 \<Longrightarrow> can_region c \<noteq> mr_id io_mem_unassigned" "nvic_region i \<noteq> mr_id io_mem_unassigned"
    by (auto simp: uart_region_def can_region_def nvic_region_def TYPE_UART_def TYPE_CAN_def)
qed

lemma board_ops_devices:
  "board_ops now uart_region = lift_ops uart0 put_uart (uart_ops now)"
  "c < 2 \<Longrightarrow> board_ops now (can_region c) = lift_ops cans put_cans (can_ops c)"
  "i < 3 \<Longrightarrow> board_ops now (nvic_region i) = lift_ops (\<lambda>m. nvic_of m i) (put_nvic i) nvic_sysreg_ops"
proof -
  show "board_ops now uart_region = lift_ops uart0 put_uart (uart_ops now)" by (simp add: board_ops_def board_devices_def)
  have ne: "can_region c \<noteq> uart_region" if "c < 2" for c
    using that by (auto simp: can_region_def uart_region_def TYPE_UART_def TYPE_CAN_def less_2_cases_iff)
  have cpu: "nvic_region i \<noteq> uart_region" "nvic_region i \<noteq> can_region 0" "nvic_region i \<noteq> can_region 1" "nvic_region i \<noteq> systick_region j" "nvic_region i \<noteq> ppb_region j" for i j
    by (simp_all add: nvic_region_def systick_region_def ppb_region_def can_region_def uart_region_def TYPE_UART_def TYPE_CAN_def)
  have can: "can_region 1 \<noteq> can_region 0" by (simp add: can_region_def)
  show "board_ops now (can_region c) = lift_ops cans put_cans (can_ops c)" if "c < 2"
    using that ne(1) [OF that] can by (auto simp: board_ops_def board_devices_def less_2_cases_iff)
  have nv: "nvic_region 1 \<noteq> nvic_region 0" "nvic_region 2 \<noteq> nvic_region 0" "nvic_region 2 \<noteq> nvic_region 1"
    by (simp_all add: nvic_region_def cpu_name_def cpu_digit_def)
  have up: "[0..<3] = [0, 1, 2 :: nat]" by (simp add: upt_rec)
  show "board_ops now (nvic_region i) = lift_ops (\<lambda>m. nvic_of m i) (put_nvic i) nvic_sysreg_ops" if "i < 3"
    by (cases rule: less_3_cases [OF that]) (simp_all only: board_ops_def board_devices_def up list.map concat.simps append.simps map_of.simps
        cpu fst_conv snd_conv fun_upd_apply if_False if_True nv option.case simp_thms)
qed

lemma plain_devices:
  "plain_ops (lift_ops get put (uart_ops now))" "plain_ops (lift_ops get' put' (can_ops c))" "plain_ops (lift_ops get'' put'' nvic_sysreg_ops)"
  by (simp_all add: plain_ops_def lift_ops_def uart_ops_def can_ops_def nvic_sysreg_ops_def)

section \<open>Registers at their addresses\<close>

lemma res_bind_assoc: "res_bind (res_bind r f) g = res_bind r (\<lambda>x. res_bind (f x) g)"
  by (cases r) simp_all

lemma base_offset: "\<lbrakk>uint off < n; uint b + n \<le> 2 ^ 64\<rbrakk> \<Longrightarrow> uint (b + off :: u64) = uint b + uint off"
  by (rule uint_add_lem [THEN iffD1]) simp

lemma uart_line:
  assumes "uint off < 20"
  shows "(uart_region, uint UART0_BA, 20, 0, False, False) \<in> set (board_map i)" "uint UART0_BA \<le> uint (UART0_BA + off)"
    "uint (UART0_BA + off) < uint UART0_BA + 20" "uint (UART0_BA + off) - uint UART0_BA + 0 = uint off"
  using base_offset [OF assms, of UART0_BA] assms by (simp_all add: board_map_def UART0_BA_def)

definition CAN_BA :: "nat \<Rightarrow> u64" where "CAN_BA c = [CAN0_BA, CAN1_BA] ! c"

lemma can_line_map:
  assumes "uint off < 44" and "c < 2"
  shows "(can_region c, uint (CAN_BA c), 44, 0, False, False) \<in> set (board_map i)" "uint (CAN_BA c) \<le> uint (CAN_BA c + off)"
    "uint (CAN_BA c + off) < uint (CAN_BA c) + 44" "uint (CAN_BA c + off) - uint (CAN_BA c) + 0 = uint off"
  using base_offset [OF assms(1), of "CAN_BA c"] assms
  by (auto simp: board_map_def CAN_BA_def CAN0_BA_def CAN1_BA_def less_2_cases_iff)


lemma uart_access:
  assumes "i < 3" and "uint off < 20"
  shows "\<lbrakk>aligned off sz; sz \<in> {1, 2, 4}\<rbrakk> \<Longrightarrow> cpu_load now i sz (UART0_BA + off) user s =
      (let (v, u) = uart_read off (uart0 (devs s))
       in res_bind (put_uart u (devs s)) (\<lambda>m. Inr (MEMTX_OK, take_bit (sz * 8) v, s\<lparr>devs := m\<rparr>)))"
    and "\<lbrakk>aligned off sz; sz \<in> {1, 2, 4}\<rbrakk> \<Longrightarrow> cpu_store now i sz (UART0_BA + off) v user s =
      res_bind (uart_write now off (take_bit (sz * 8) v) (uart0 (devs s)))
        (\<lambda>u. res_bind (put_uart u (devs s)) (\<lambda>m. Inr (MEMTX_OK, s\<lparr>devs := m\<rparr>)))"
    and "\<not> aligned off sz \<Longrightarrow> cpu_load now i sz (UART0_BA + off) user s = Inr (MEMTX_DECODE_ERROR, 0, s)"
    and "\<not> aligned off sz \<Longrightarrow> cpu_store now i sz (UART0_BA + off) v user s = Inr (MEMTX_DECODE_ERROR, s)"
proof -
  have plain: "plain_ops (board_ops now uart_region)" by (simp add: board_ops_devices plain_devices)
  note acc = device_access [OF assms(1) uart_line(1-3) [OF assms(2)] plain region_names(1), unfolded uart_line(4) [OF assms(2)] word_of_int_uint]
  show "cpu_load now i sz (UART0_BA + off) user s =
      (let (v, u) = uart_read off (uart0 (devs s))
       in res_bind (put_uart u (devs s)) (\<lambda>m. Inr (MEMTX_OK, take_bit (sz * 8) v, s\<lparr>devs := m\<rparr>)))" if "aligned off sz" "sz \<in> {1, 2, 4}"
    unfolding acc(1) [OF that] board_ops_devices
    by (cases "put_uart (snd (uart_read off (uart0 (devs s)))) (devs s)") (auto simp: lift_ops_def uart_ops_def split: prod.split)
  show "cpu_store now i sz (UART0_BA + off) v user s =
      res_bind (uart_write now off (take_bit (sz * 8) v) (uart0 (devs s)))
        (\<lambda>u. res_bind (put_uart u (devs s)) (\<lambda>m. Inr (MEMTX_OK, s\<lparr>devs := m\<rparr>)))" if "aligned off sz" "sz \<in> {1, 2, 4}"
    unfolding acc(2) [OF that] board_ops_devices by (simp add: lift_ops_def uart_ops_def res_bind_assoc)
  show "cpu_load now i sz (UART0_BA + off) user s = Inr (MEMTX_DECODE_ERROR, 0, s)"
    "cpu_store now i sz (UART0_BA + off) v user s = Inr (MEMTX_DECODE_ERROR, s)" if "\<not> aligned off sz"
    by (rule acc(3) [OF that], rule acc(4) [OF that])
qed

lemma can_access:
  assumes "i < 3" and "c < 2" and "uint off < 44"
  shows "\<lbrakk>aligned off sz; sz \<in> {1, 2, 4}\<rbrakk> \<Longrightarrow> cpu_load now i sz (CAN_BA c + off) user s =
      res_bind (put_cans (cans (devs s)) (devs s)) (\<lambda>m. Inr (MEMTX_OK, take_bit (sz * 8) (can_read off (dev (cans (devs s)) c)), s\<lparr>devs := m\<rparr>))"
    and "\<lbrakk>aligned off sz; sz \<in> {1, 2, 4}\<rbrakk> \<Longrightarrow> cpu_store now i sz (CAN_BA c + off) v user s =
      res_bind (put_cans (can_write c off (take_bit (sz * 8) v) (cans (devs s))) (devs s)) (\<lambda>m. Inr (MEMTX_OK, s\<lparr>devs := m\<rparr>))"
    and "\<not> aligned off sz \<Longrightarrow> cpu_load now i sz (CAN_BA c + off) user s = Inr (MEMTX_DECODE_ERROR, 0, s)"
    and "\<not> aligned off sz \<Longrightarrow> cpu_store now i sz (CAN_BA c + off) v user s = Inr (MEMTX_DECODE_ERROR, s)"
proof -
  note ops = board_ops_devices(2) [OF assms(2)] and at = can_line_map [OF assms(3,2)]
  have plain: "plain_ops (board_ops now (can_region c))" by (simp add: ops plain_devices)
  note acc = device_access [OF assms(1) at(1-3) plain region_names(2) [OF assms(2)], unfolded at(4) word_of_int_uint]
  show "cpu_load now i sz (CAN_BA c + off) user s =
      res_bind (put_cans (cans (devs s)) (devs s)) (\<lambda>m. Inr (MEMTX_OK, take_bit (sz * 8) (can_read off (dev (cans (devs s)) c)), s\<lparr>devs := m\<rparr>))"
    "cpu_store now i sz (CAN_BA c + off) v user s =
      res_bind (put_cans (can_write c off (take_bit (sz * 8) v) (cans (devs s))) (devs s)) (\<lambda>m. Inr (MEMTX_OK, s\<lparr>devs := m\<rparr>))"
    if "aligned off sz" "sz \<in> {1, 2, 4}"
    unfolding acc(1,2) [OF that] ops by (simp_all add: lift_ops_def can_ops_def res_bind_assoc)
  show "cpu_load now i sz (CAN_BA c + off) user s = Inr (MEMTX_DECODE_ERROR, 0, s)"
    "cpu_store now i sz (CAN_BA c + off) v user s = Inr (MEMTX_DECODE_ERROR, s)" if "\<not> aligned off sz"
    by (rule acc(3) [OF that], rule acc(4) [OF that])
qed

text \<open>The interrupt controller of a CPU above its SysTick window.\<close>

lemma nvic_store:
  assumes "i < 3" and "0xf0 \<le> uint off" and "uint off < 0x1000" and "aligned off sz" and "sz \<in> {1, 2, 4}"
  shows "cpu_store now i sz (0xe000e000 + off) v user s =
    res_bind (nvic_sysreg_write off (take_bit (sz * 8) v) sz (guest_attrs user) (nvic_of (devs s) i))
      (\<lambda>(r, n). Inr (r, s\<lparr>devs := set_nvic i n (devs s)\<rparr>))"
proof -
  have b: "uint (0xe000e000 + off :: u64) = 0xe000e000 + uint off" using base_offset [OF assms(3), of "0xe000e000"] by simp
  have line: "(nvic_region i, 0xe000e0f0, 0xf10, 0xf0, False, False) \<in> set (board_map i)" by (simp add: board_map_def)
  note ops = board_ops_devices(3) [OF assms(1)]
  have plain: "plain_ops (board_ops now (nvic_region i))" by (simp add: ops plain_devices)
  have x: "word_of_int (uint (0xe000e000 + off :: u64) - 0xe000e0f0 + 0xf0) = off" by (simp add: b)
  from assms(2,3) device_access(2) [OF assms(1) line _ _ plain region_names(3), of "0xe000e000 + off", unfolded x, OF _ _ assms(4,5)] show ?thesis
    by (auto simp: b ops lift_ops_def nvic_sysreg_ops_def put_nvic_def res_bind_assoc split_def)
qed


definition demo_board :: board where
  "demo_board = \<lparr>ram_block = (\<lambda>_ _. 0), devs = \<lparr>armv7m = (\<lambda>_. \<lparr>nvic = armv7m_nvic_reset ((nvic_new board_cpu)\<lparr>num_irq := 257\<rparr>), systick_ns = demo_boot\<rparr>), uart0 = uart_init,
     cans = can_power_on (\<lambda>_. Some 0) 2\<rparr>\<rparr>"


end
