(* ===== verification/Soc_Run.thy ===== *)
theory Soc_Run
  imports Soc_Access
begin

text \<open>
  Runs of the microcontroller: loads and stores of the CPUs anywhere in their address spaces, bytes and
  frames from the host, expiries of timers, and exception entry and return.  The invariant ties the
  lines of the devices to the inputs of the interrupt controller.
\<close>

section \<open>Delivering levels\<close>

definition nvic_ok :: "NVICState \<Rightarrow> bool" where
  "nvic_ok n \<longleftrightarrow> nvic_inv n \<and> nvic_held n \<and> num_irq n = 257"

text \<open>Input \<open>k\<close> of the controller has the level of a line.\<close>

definition tied :: "NVICState \<Rightarrow> nat \<Rightarrow> irq_log \<Rightarrow> bool" where
  "tied n k log \<longleftrightarrow> uint (level (vectors n (k + NVIC_FIRST_IRQ))) = line_level log"

lemma lines_eqD: "lines n' = (N, L) \<Longrightarrow> num_irq n' = N \<and> level (vectors n' k) = L k"
  by (auto simp: lines_def)

lemma tied_cong: "lines n' = lines n \<Longrightarrow> tied n' k log = tied n k log"
  by (auto simp: tied_def dest!: lines_eqD [of n' "num_irq n" "\<lambda>k. level (vectors n k)" "k + NVIC_FIRST_IRQ", folded lines_def])

lemma nvic_ok_cong: "\<lbrakk>nvic_inv n'; nvic_held n'; lines n' = lines n; nvic_ok n\<rbrakk> \<Longrightarrow> nvic_ok n'"
  by (simp add: nvic_ok_def lines_def)

lemma set_irq_level_ok:
  assumes "nvic_ok n" and "k < 241" and "l \<in> {0, 1}"
  obtains n' where "set_irq_level k l n = Inr n'" and "nvic_ok n'" and "tied n' k [l]"
    and "\<And>j log. j \<noteq> k \<Longrightarrow> tied n' j log = tied n j log"
proof -
  have n: "nvic_inv n" "nvic_held n" "num_irq n = 257" using assms(1) by (simp_all add: nvic_ok_def)
  have "never_aborts (armv7m_nvic_set_pending (k + NVIC_FIRST_IRQ) False t)" if "num_irq t = 257" for t
    using that assms(2) by (intro never_aborts_pending) simp_all
  then obtain n' where n': "set_irq_level k l n = Inr n'"
    using n(3) assms(2) by (fastforce simp: set_irq_level_def Let_def never_aborts_def)
  have lv: "lines n' = (257, (\<lambda>j. level (vectors n j))(k + NVIC_FIRST_IRQ := word_of_int l))"
    using lines_set_irq_level [OF n' assms(3)] n(3) by simp
  have "nvic_ok n'"
    using nvic_inv_set_irq_level [OF n(1) n'] nvic_held_set_irq_level [OF n(2), of k l] n' lines_eqD [OF lv]
    by (simp add: nvic_ok_def res_all_def)
  moreover have "tied n' k [l]" using lines_eqD [OF lv, of "k + NVIC_FIRST_IRQ"] assms(3) by (auto simp: tied_def line_level_def)
  moreover have "tied n' j log = tied n j log" if "j \<noteq> k" for j log
    using lines_eqD [OF lv, of "j + NVIC_FIRST_IRQ"] that by (simp add: tied_def)
  ultimately show thesis using n' by (intro that)
qed

lemma drive_ok:
  assumes "nvic_ok n" and "k < 241" and "set ls \<subseteq> {0, 1}" and "tied n k log"
  obtains n' where "drive (set_irq_level k) ls n = Inr n'" and "nvic_ok n'" and "tied n' k (log @ ls)"
    and "\<And>j log. j \<noteq> k \<Longrightarrow> tied n' j log = tied n j log"
  using assms
proof (induction ls arbitrary: n log thesis)
  case (Cons l ls)
  from Cons.prems(4) have l: "l \<in> {0, 1}" and ls: "set ls \<subseteq> {0, 1}" by auto
  from set_irq_level_ok [OF Cons.prems(2,3) l] obtain n1 where n1: "set_irq_level k l n = Inr n1" "nvic_ok n1" "tied n1 k [l]"
    "\<And>j log. j \<noteq> k \<Longrightarrow> tied n1 j log = tied n j log" by blast
  have "tied n1 k (log @ [l])" using n1(3) by (simp add: tied_def line_level_def)
  from Cons.IH [OF _ n1(2) Cons.prems(3) ls this] obtain n' where "drive (set_irq_level k) ls n1 = Inr n'" "nvic_ok n'"
    "tied n' k ((log @ [l]) @ ls)" "\<And>j log. j \<noteq> k \<Longrightarrow> tied n' j log = tied n1 j log" by blast
  with n1 Cons.prems(1) show ?case by simp
qed simp

text \<open>A device whose line only grows: its levels can be delivered, and the input then has the level of the line.\<close>

locale irq_source =
  fixes line :: "'d \<Rightarrow> irq_log" and step :: "'e \<Rightarrow> 'd \<Rightarrow> 'd res" and wf :: "'d \<Rightarrow> bool"
  assumes grows: "\<lbrakk>wf d; step e d = Inr d'\<rbrakk> \<Longrightarrow> extends (line d) (line d')"
begin

lemma delivered:
  assumes "nvic_ok n" and "k < 241" and "wf d" and "step e d = Inr d'" and "tied n k (line d)"
  obtains n' where "drive (set_irq_level k) (drop (length (line d)) (line d')) n = Inr n'" and "nvic_ok n'" and "tied n' k (line d')"
    and "\<And>j log. j \<noteq> k \<Longrightarrow> tied n' j log = tied n j log"
proof -
  from grows [OF assms(3,4)] obtain ls where ls: "line d' = line d @ ls" "set ls \<subseteq> {0, 1}" by (auto simp: extends_def)
  from drive_ok [OF assms(1,2) ls(2) assms(5)] ls(1) show thesis using that by auto
qed

end

interpretation uart_source: irq_source UartState.irq "\<lambda>(now, ev). uart_exec now ev" "\<lambda>_. True"
  by unfold_locales (auto intro: uart_exec_extends)

interpretation can_source: irq_source "\<lambda>w. CanState.irq (dev w c)" "\<lambda>e w. Inr (can_exec e w)" "\<lambda>w. net_wf (net w)" for c
  by unfold_locales (auto intro: can_exec_extends)

section \<open>The invariant\<close>

definition board_ok :: "NXPS32K3McuState \<Rightarrow> bool" where
  "board_ok m \<longleftrightarrow> (\<forall>i. nvic_ok (nvic_of m i)) \<and>
     tied (nvic_of m 0) UART0_IRQn (UartState.irq (uart0 m)) \<and> uart_irq.coherent (uart0 m) \<and>
     tied (nvic_of m 0) CAN0_IRQn (CanState.irq (dev (cans m) 0)) \<and> tied (nvic_of m 0) CAN1_IRQn (CanState.irq (dev (cans m) 1)) \<and>
     (\<forall>c. can_irq.coherent (dev (cans m) c)) \<and> net_wf (net (cans m))"

lemma irq_numbers: "UART0_IRQn < 241" "CAN0_IRQn < 241" "CAN1_IRQn < 241"
  "UART0_IRQn \<noteq> CAN0_IRQn" "UART0_IRQn \<noteq> CAN1_IRQn" "CAN0_IRQn \<noteq> CAN1_IRQn"
  by (simp_all add: UART0_IRQn_def CAN0_IRQn_def CAN1_IRQn_def)

lemma set_nvic_simps [simp]:
  "nvic_of (set_nvic i n m) j = (if j = i then n else nvic_of m j)" "uart0 (set_nvic i n m) = uart0 m" "cans (set_nvic i n m) = cans m"
  "systick_ns (armv7m (set_nvic i n m) j) = systick_ns (armv7m m j)"
  by (simp_all add: set_nvic_def)

lemma put_uart_ok:
  assumes "board_ok m" and "uart_exec now ev (uart0 m) = Inr u"
  shows "\<exists>m'. put_uart u m = Inr m' \<and> board_ok m'"
proof -
  have "nvic_ok (nvic_of m 0)" "tied (nvic_of m 0) UART0_IRQn (UartState.irq (uart0 m))" using assms(1) by (simp_all add: board_ok_def)
  from uart_source.delivered [where e = "(now, ev)" and d = "uart0 m" and d' = u, OF this(1) irq_numbers(1) _ _ this(2)] assms(2)
  obtain n' where n': "drive (set_irq_level UART0_IRQn) (drop (length (UartState.irq (uart0 m))) (UartState.irq u)) (nvic_of m 0) = Inr n'"
    "nvic_ok n'" "tied n' UART0_IRQn (UartState.irq u)" "\<And>j log. j \<noteq> UART0_IRQn \<Longrightarrow> tied n' j log = tied (nvic_of m 0) j log"
    by auto
  have "uart_irq.coherent u" using uart_exec_coherent [OF assms(2)] assms(1) by (simp add: board_ok_def)
  with n' assms(1) irq_numbers show ?thesis by (auto simp: put_uart_def deliver_def board_ok_def)
qed

lemma put_cans_ok:
  assumes "board_ok m"
  shows "\<exists>m'. put_cans (can_exec e (cans m)) m = Inr m' \<and> board_ok m'"
proof -
  let ?w = "can_exec e (cans m)"
  have ok: "nvic_ok (nvic_of m 0)" "net_wf (net (cans m))" "tied (nvic_of m 0) CAN0_IRQn (CanState.irq (dev (cans m) 0))"
    "tied (nvic_of m 0) CAN1_IRQn (CanState.irq (dev (cans m) 1))" using assms by (simp_all add: board_ok_def)
  from can_source.delivered [OF ok(1) irq_numbers(2) ok(2) refl ok(3), of e] obtain n1
    where n1: "drive (set_irq_level CAN0_IRQn) (drop (length (CanState.irq (dev (cans m) 0))) (CanState.irq (dev ?w 0))) (nvic_of m 0) = Inr n1"
      "nvic_ok n1" "tied n1 CAN0_IRQn (CanState.irq (dev ?w 0))" "\<And>j log. j \<noteq> CAN0_IRQn \<Longrightarrow> tied n1 j log = tied (nvic_of m 0) j log" by blast
  have "tied n1 CAN1_IRQn (CanState.irq (dev (cans m) 1))" using n1(4) [of CAN1_IRQn] ok(4) irq_numbers(6) by simp
  from can_source.delivered [OF n1(2) irq_numbers(3) ok(2) refl this, of e] obtain n2
    where n2: "drive (set_irq_level CAN1_IRQn) (drop (length (CanState.irq (dev (cans m) 1))) (CanState.irq (dev ?w 1))) n1 = Inr n2"
      "nvic_ok n2" "tied n2 CAN1_IRQn (CanState.irq (dev ?w 1))" "\<And>j log. j \<noteq> CAN1_IRQn \<Longrightarrow> tied n2 j log = tied n1 j log" by blast
  have "\<And>c. can_irq.coherent (dev ?w c)"
    using assms by (intro can_line.exec) (simp_all add: board_ok_def ier_writes_def split: can_event.split)
  with n1 n2 assms irq_numbers show ?thesis by (auto simp: put_cans_def deliver_def board_ok_def Let_def)
qed

text \<open>What a CPU does with its own controller leaves the inputs alone.\<close>

lemma set_nvic_ok:
  assumes "board_ok m" and "nvic_inv n" and "nvic_held n" and "lines n = lines (nvic_of m i)"
  shows "board_ok (set_nvic i n m)"
  using assms nvic_ok_cong [OF assms(2-4)] tied_cong [OF assms(4)] by (auto simp: board_ok_def)

lemma board_ok_systick: "board_ok (m\<lparr>armv7m := (armv7m m)(i := (armv7m m i)\<lparr>systick_ns := ds\<rparr>)\<rparr>) = board_ok m"
  by (auto simp: board_ok_def)

definition systick_input :: "NVICState \<Rightarrow> NVICState \<Rightarrow> bool" where
  "systick_input n n' \<longleftrightarrow> nvic_inv n' \<and> nvic_held n' \<and> lines n' = lines n"

lemma systick_trigger_ok:
  assumes "nvic_inv n" and "nvic_held n"
  shows "returns (systick_input n) (nvic_systick_trigger False l n)"
proof -
  have "never_aborts (armv7m_nvic_set_pending ARMV7M_EXCP_SYSTICK False n)"
    using num_irq_wf [OF nvic_inv_wf [OF assms(1)]] by (intro never_aborts_pending) simp_all
  then obtain n' where n': "armv7m_nvic_set_pending ARMV7M_EXCP_SYSTICK False n = Inr n'" by (auto simp: never_aborts_def)
  with nvic_inv_set_pending(1) [OF assms(1) n'] nvic_held_set_pending(1) [OF assms(2)] lines_set_pending(1) [of n] assms show ?thesis
    by (auto simp: nvic_systick_trigger_def systick_input_def res_all_def)
qed

lemma drive_systick:
  assumes "nvic_inv n" and "nvic_held n"
  shows "returns (systick_input n) (drive (nvic_systick_trigger False) ls n)"
  using assms
proof (induction ls arbitrary: n)
  case (Cons l ls)
  show ?case unfolding drive.simps
    by (rule returns_bind [OF systick_trigger_ok [OF Cons.prems]], rule returns_mono [OF Cons.IH]) (auto simp: systick_input_def)
qed (simp add: systick_input_def)

lemma put_systick_ok:
  assumes "board_ok m"
  shows "\<exists>m'. put_systick i ds m = Inr m' \<and> board_ok m'"
proof -
  let ?m = "m\<lparr>armv7m := (armv7m m)(i := (armv7m m i)\<lparr>systick_ns := ds\<rparr>)\<rparr>"
  have m: "board_ok ?m" "nvic_inv (nvic_of m i)" "nvic_held (nvic_of m i)" using assms by (simp_all add: board_ok_systick) (simp_all add: board_ok_def nvic_ok_def)
  from drive_systick [OF m(2,3)] obtain n'
    where "drive (nvic_systick_trigger False) (drop (length (st_irq (fst (systick_ns (armv7m m i))))) (st_irq (fst ds))) (nvic_of m i) = Inr n'"
      "systick_input (nvic_of m i) n'" by (auto simp: returns_def split: sum.splits)
  then show ?thesis using set_nvic_ok [OF m(1), of n' i] by (simp add: put_systick_def deliver_def systick_input_def)
qed



section \<open>Accesses keep an invariant of the devices\<close>

definition ops_keep :: "('s \<Rightarrow> bool) \<Rightarrow> 's MemoryRegionOps \<Rightarrow> bool" where
  "ops_keep I ops \<longleftrightarrow> (\<forall>addr sz attrs s. I s \<longrightarrow> res_all (\<lambda>(_, _, s'). I s') (ops_read ops addr sz attrs s)) \<and>
     (\<forall>addr v sz attrs s. I s \<longrightarrow> res_all (\<lambda>(_, s'). I s') (ops_write ops addr v sz attrs s))"

lemma access_loop_keep:
  assumes "\<And>addr v sz shift msk s. I s \<Longrightarrow> res_all (\<lambda>(_, _, s'). I s') (fn addr v sz shift msk s)" and "I s"
  shows "res_all (\<lambda>(_, _, s'). I s') (access_loop fn shift addr sz msk is r v s)"
  using assms(2)
proof (induction "is" arbitrary: r v s)
  case (Cons i "is")
  show ?case unfolding access_loop.simps
    by (rule res_all_bind [OF assms(1) [OF Cons.prems]]) (auto intro: Cons.IH)
qed (simp add: res_all_Inr)

lemma accessor_keep:
  assumes "ops_keep I ops" and "I s"
  shows "res_all (\<lambda>(_, _, s'). I s') (memory_region_read_with_attrs_accessor ops attrs addr v sz shift msk s)"
    and "res_all (\<lambda>(_, _, s'). I s') (memory_region_write_with_attrs_accessor ops attrs addr v sz shift msk s)"
proof -
  have rd: "res_all (\<lambda>(_, _, s'). I s') (ops_read ops addr sz attrs s)" and wr: "res_all (\<lambda>(_, s'). I s') (ops_write ops addr v sz attrs s)" for v
    using assms by (simp_all add: ops_keep_def)
  show "res_all (\<lambda>(_, _, s'). I s') (memory_region_read_with_attrs_accessor ops attrs addr v sz shift msk s)"
    unfolding memory_region_read_with_attrs_accessor_def by (rule res_all_bind [OF rd]) (auto simp: res_all_Inr)
  show "res_all (\<lambda>(_, _, s'). I s') (memory_region_write_with_attrs_accessor ops attrs addr v sz shift msk s)"
    unfolding memory_region_write_with_attrs_accessor_def by (rule res_all_bind [OF wr]) (auto simp: res_all_Inr)
qed

lemma ops_keep_unassigned: "ops_keep I unassigned_mem_ops"
  by (simp add: ops_keep_def unassigned_mem_ops_def res_all_Inr)

lemma dispatch_keep:
  assumes "\<And>r. ops_keep I (dev_ops r)" and "I (devs s)"
  shows "res_all (\<lambda>(_, _, s'). I (devs s')) (dispatch_read dev_ops mr addr sz be attrs s)"
    and "res_all (\<lambda>(_, s'). I (devs s')) (dispatch_write dev_ops mr addr v sz be attrs s)"
proof -
  have ops: "ops_keep I (region_ops dev_ops mr)"
    using assms(1) by (simp add: region_ops_def ops_keep_unassigned)
  have size: "res_all (\<lambda>(_, _, s'). I s') (access_with_adjusted_size False (region_ops dev_ops mr) addr v sz lo hi fn (devs s))"
    if "\<And>addr v sz shift msk s. I s \<Longrightarrow> res_all (\<lambda>(_, _, s'). I s') (fn addr v sz shift msk s)" for addr v sz lo hi fn
    unfolding access_with_adjusted_size_def Let_def by (auto intro: access_loop_keep that assms(2))
  have rd: "res_all (\<lambda>(_, _, s'). I s') (memory_region_dispatch_read False (region_ops dev_ops) (MemoryRegion mr None []) addr sz be attrs (devs s))"
    unfolding memory_region_dispatch_read.simps Let_def option.case using assms(2)
    by (intro res_all_if res_all_bind [OF size [OF accessor_keep(1) [OF ops]]]) (auto simp: res_all_def res_bind_eq_Inr)
  have wr: "res_all (\<lambda>(_, s'). I s') (memory_region_dispatch_write False (region_ops dev_ops) (MemoryRegion mr None []) addr v sz be attrs (devs s))"
    unfolding memory_region_dispatch_write.simps Let_def option.case using assms(2)
    by (intro res_all_if res_all_bind [of "\<lambda>_. True" "adjust_endianness _ _ _ _"] res_all_bind [OF size [OF accessor_keep(2) [OF ops]]])
      (auto simp: res_all_Inr intro: res_allI)
  show "res_all (\<lambda>(_, _, s'). I (devs s')) (dispatch_read dev_ops mr addr sz be attrs s)"
    unfolding dispatch_read_def by (rule res_all_bind [OF rd]) (auto simp: res_all_def)
  show "res_all (\<lambda>(_, s'). I (devs s')) (dispatch_write dev_ops mr addr v sz be attrs s)"
    unfolding dispatch_write_def by (rule res_all_bind [OF wr]) (auto simp: res_all_def)
qed

lemma address_space_keep:
  assumes "\<And>r. ops_keep I (dev_ops r)" and "I (devs s)"
  shows "res_all (\<lambda>(_, _, s'). I (devs s')) (address_space_ld dev_ops view n be addr attrs s)"
    and "res_all (\<lambda>(_, s'). I (devs s')) (address_space_st dev_ops view n be addr v attrs s)"
proof -
  obtain mr a l where fv: "flatview_translate view addr n = (mr, a, l)" by (cases "flatview_translate view addr n")
  note keep = dispatch_keep [where s = s and I = I, OF assms]
  show "res_all (\<lambda>(_, _, s'). I (devs s')) (address_space_ld dev_ops view n be addr attrs s)"
    unfolding address_space_ld_def fv Let_def prod.case by (intro res_all_if keep res_all_Inr) (simp add: assms(2))
  show "res_all (\<lambda>(_, s'). I (devs s')) (address_space_st dev_ops view n be addr v attrs s)"
    unfolding address_space_st_def fv Let_def prod.case by (intro res_all_if keep res_all_Inr) (simp add: assms(2))
qed

lemma lift_keep:
  assumes "\<And>addr sz attrs m r v d. \<lbrakk>I m; ops_read ops addr sz attrs (get m) = Inr (r, v, d)\<rbrakk> \<Longrightarrow> res_all I (put d m)"
    and "\<And>addr w sz attrs m r d. \<lbrakk>I m; ops_write ops addr w sz attrs (get m) = Inr (r, d)\<rbrakk> \<Longrightarrow> res_all I (put d m)"
  shows "ops_keep I (lift_ops get put ops)"
proof -
  have "res_all (\<lambda>(_, _, m'). I m') (ops_read (lift_ops get put ops) addr sz attrs m)" if "I m" for addr sz attrs m
    using assms(1) [OF that] by (cases "ops_read ops addr sz attrs (get m)") (auto simp: lift_ops_def res_all_def res_bind_eq_Inr)
  moreover have "res_all (\<lambda>(_, m'). I m') (ops_write (lift_ops get put ops) addr v sz attrs m)" if "I m" for addr v sz attrs m
    using assms(2) [OF that] by (cases "ops_write ops addr v sz attrs (get m)") (auto simp: lift_ops_def res_all_def res_bind_eq_Inr)
  ultimately show ?thesis by (simp add: ops_keep_def)
qed


section \<open>Accesses keep the board together\<close>

lemma put_systick_keep: "board_ok m \<Longrightarrow> res_all board_ok (put_systick i ds m)"
  using put_systick_ok [of m i ds] by (auto simp: res_all_def)

lemma put_cans_keep: "board_ok m \<Longrightarrow> res_all board_ok (put_cans (can_exec e (cans m)) m)"
  using put_cans_ok [of m e] by (auto simp: res_all_def)

lemma put_uart_keep: "\<lbrakk>board_ok m; uart_exec now ev (uart0 m) = Inr u\<rbrakk> \<Longrightarrow> res_all board_ok (put_uart u m)"
  using put_uart_ok [of m now ev u] by (auto simp: res_all_def)

lemma uart_ops_keep: "ops_keep board_ok (lift_ops uart0 put_uart (uart_ops now))"
proof (rule lift_keep)
  fix addr sz attrs m r v u
  assume "board_ok m" and rd: "ops_read (uart_ops now) addr sz attrs (uart0 m) = Inr (r, v, u)"
  have "uart_exec now (GuestRead addr) (uart0 m) = Inr u" using rd by (auto simp: uart_ops_def uart_exec_def split: prod.splits)
  with \<open>board_ok m\<close> show "res_all board_ok (put_uart u m)" by (rule put_uart_keep)
next
  fix addr w sz attrs m r u
  assume "board_ok m" and wr: "ops_write (uart_ops now) addr w sz attrs (uart0 m) = Inr (r, u)"
  have "uart_exec now (GuestWrite addr w) (uart0 m) = Inr u" using wr by (auto simp: uart_ops_def uart_exec_def res_bind_eq_Inr)
  with \<open>board_ok m\<close> show "res_all board_ok (put_uart u m)" by (rule put_uart_keep)
qed

lemma can_ops_keep: "ops_keep board_ok (lift_ops cans put_cans (can_ops c))"
proof (rule lift_keep)
  fix addr sz attrs m r v w
  assume "board_ok m" and "ops_read (can_ops c) addr sz attrs (cans m) = Inr (r, v, w)"
  then show "res_all board_ok (put_cans w m)"
    using put_cans_keep [of m "CanRead c addr"] by (auto simp: can_ops_def can_exec_def)
next
  fix addr v sz attrs m r w
  assume "board_ok m" and "ops_write (can_ops c) addr v sz attrs (cans m) = Inr (r, w)"
  then show "res_all board_ok (put_cans w m)"
    using put_cans_keep [of m "CanWrite c addr v"] by (auto simp: can_ops_def can_exec_def)
qed

lemma nvic_ops_keep: "ops_keep board_ok (lift_ops (\<lambda>m. nvic_of m i) (put_nvic i) nvic_sysreg_ops)"
proof (rule lift_keep)
  fix addr sz attrs m r v n
  assume ok: "board_ok m" and "ops_read nvic_sysreg_ops addr sz attrs (nvic_of m i) = Inr (r, v, n)"
  then have "n = nvic_of m i" by (auto simp: nvic_sysreg_ops_def res_bind_eq_Inr)
  with set_nvic_ok [OF ok, of n i] ok show "res_all board_ok (put_nvic i n m)" by (simp add: put_nvic_def res_all_Inr board_ok_def nvic_ok_def)
next
  fix addr w sz attrs m r n
  assume ok: "board_ok m" and "ops_write nvic_sysreg_ops addr w sz attrs (nvic_of m i) = Inr (r, n)"
  then have n: "nvic_sysreg_write addr w sz attrs (nvic_of m i) = Inr (r, n)" by (simp add: nvic_sysreg_ops_def)
  have "nvic_inv (nvic_of m i)" "nvic_held (nvic_of m i)" using ok by (simp_all add: board_ok_def nvic_ok_def)
  with nvic_inv_sysreg_write [OF _ n] nvic_held_sysreg_write [of "nvic_of m i" addr w sz attrs]
    wired_sysreg_write [of "lines (nvic_of m i)" "nvic_of m i" addr w sz attrs] n
  have "nvic_inv n" "nvic_held n" "lines n = lines (nvic_of m i)" by (auto simp: res_all_def wired_def)
  then show "res_all board_ok (put_nvic i n m)" by (simp add: put_nvic_def res_all_Inr set_nvic_ok [OF ok])
qed

lemma systick_ops_keep: "ops_keep board_ok (lift_ops (\<lambda>m. systick_ns (armv7m m i)) (put_systick i) (v7m_systick_ops now))"
  by (rule lift_keep) (simp_all add: put_systick_keep)

lemma ppb_ops_keep: "ops_keep board_ok ppb_default_ops"
  by (simp add: ops_keep_def ppb_default_ops_def ppb_default_read_def res_all_Inr)

lemma board_ops_keep: "ops_keep board_ok (board_ops now r)"
  by (auto simp: board_ops_def board_devices_def upt_rec ops_keep_unassigned uart_ops_keep can_ops_keep nvic_ops_keep systick_ops_keep ppb_ops_keep)

lemma cpu_access_keep:
  assumes "board_ok (devs s)"
  shows "res_all (\<lambda>(_, _, s'). board_ok (devs s')) (cpu_load now i sz addr user s)"
    and "res_all (\<lambda>(_, s'). board_ok (devs s')) (cpu_store now i sz addr v user s)"
  using assms by (simp_all add: cpu_load_def cpu_store_def address_space_keep [OF board_ops_keep])

section \<open>Runs\<close>

text \<open>
  One step of the machine: an access of CPU \<open>i\<close>, a byte or a frame that the host sends, the expiry of a
  timer, or a request of CPU \<open>i\<close> to its interrupt controller.
\<close>

datatype board_event =
    Load nat nat u64 bool
  | Store nat nat u64 u64 bool
  | Host_Byte u8
  | Uart_Rx
  | Uart_Tx
  | Host_Frame nat qemu_can_frame
  | SysTick_Expire nat
  | Cpu nat nvic_event

text \<open>Register writes and input lines reach the controller over the bus and the wires only.\<close>

fun cpu_request :: "nvic_event \<Rightarrow> bool" where
  "cpu_request (Fault k b) \<longleftrightarrow> True"
| "cpu_request (Derived_Fault k b) \<longleftrightarrow> True"
| "cpu_request Take \<longleftrightarrow> True"
| "cpu_request (Return k b) \<longleftrightarrow> True"
| "cpu_request (Set_Masks bp pm fm) \<longleftrightarrow> True"
| "cpu_request _ \<longleftrightarrow> False"

definition on_devs :: "(NXPS32K3McuState \<Rightarrow> NXPS32K3McuState res) \<Rightarrow> board \<Rightarrow> board res" where
  "on_devs f s = res_bind (f (devs s)) (\<lambda>m. Inr (s\<lparr>devs := m\<rparr>))"

definition uart_step :: "int \<Rightarrow> uart_event \<Rightarrow> NXPS32K3McuState \<Rightarrow> NXPS32K3McuState res" where
  "uart_step now ev m = res_bind (uart_exec now ev (uart0 m)) (\<lambda>u. put_uart u m)"

fun board_exec :: "int \<Rightarrow> board_event \<Rightarrow> board \<Rightarrow> board res" where
  "board_exec now (Load i sz addr user) s = res_bind (cpu_load now i sz addr user s) (\<lambda>(_, _, s). Inr s)"
| "board_exec now (Store i sz addr v user) s = res_bind (cpu_store now i sz addr v user s) (\<lambda>(_, s). Inr s)"
| "board_exec now (Host_Byte b) s = on_devs (uart_step now (BackendByte b)) s"
| "board_exec now Uart_Rx s = on_devs (uart_step now RxExpire) s"
| "board_exec now Uart_Tx s = on_devs (uart_step now TxExpire) s"
| "board_exec now (Host_Frame c fr) s = on_devs (\<lambda>m. put_cans (can_exec (BusFrame c fr) (cans m)) m) s"
| "board_exec now (SysTick_Expire i) s =
     on_devs (\<lambda>m. res_bind (systick_expire now (systick_ns (armv7m m i))) (\<lambda>ds. put_systick i ds m)) s"
| "board_exec now (Cpu i ev) s =
     (if cpu_request ev then on_devs (\<lambda>m. res_bind (nvic_exec ev (nvic_of m i)) (\<lambda>n. put_nvic i n m)) s else Inr s)"

primrec board_run :: "(int \<times> board_event) list \<Rightarrow> board \<Rightarrow> board res" where
  "board_run [] s = Inr s"
| "board_run (e # es) s = res_bind (board_exec (fst e) (snd e) s) (board_run es)"

lemma on_devs_keep: "(\<And>m. I m \<Longrightarrow> res_all I (f m)) \<Longrightarrow> I (devs s) \<Longrightarrow> res_all (\<lambda>s'. I (devs s')) (on_devs f s)"
  unfolding on_devs_def by (rule res_all_bind [of I]) (auto simp: res_all_Inr)

lemma uart_step_keep: "board_ok m \<Longrightarrow> res_all board_ok (uart_step now ev m)"
  unfolding uart_step_def by (rule res_all_bind [OF res_allI]) (rule put_uart_keep)

lemma lines_request: "cpu_request ev \<Longrightarrow> res_all (\<lambda>n'. lines n' = lines n) (nvic_exec ev n)"
  using lines_set_pending [of n] lines_acknowledge [of n] lines_complete [of n]
  by (cases ev) (auto simp: res_all_def res_bind_eq_Inr)

lemma cpu_request_keep:
  assumes "cpu_request ev" and "board_ok m"
  shows "res_all board_ok (res_bind (nvic_exec ev (nvic_of m i)) (\<lambda>n. put_nvic i n m))"
proof -
  have "nvic_inv (nvic_of m i)" "nvic_held (nvic_of m i)" using assms(2) by (simp_all add: board_ok_def nvic_ok_def)
  with nvic_inv_exec [of "nvic_of m i" ev] nvic_held_exec [of "nvic_of m i" ev] lines_request [OF assms(1), of "nvic_of m i"]
  show ?thesis by (auto simp: res_all_def res_bind_eq_Inr put_nvic_def set_nvic_ok [OF assms(2)])
qed

lemma board_exec_keep:
  assumes "board_ok (devs s)"
  shows "res_all (\<lambda>s'. board_ok (devs s')) (board_exec now ev s)"
proof (cases ev)
  case (Load i sz addr user)
  show ?thesis unfolding Load board_exec.simps
    by (rule res_all_bind [OF cpu_access_keep(1) [OF assms]]) (auto simp: res_all_Inr)
next
  case (Store i sz addr v user)
  show ?thesis unfolding Store board_exec.simps
    by (rule res_all_bind [OF cpu_access_keep(2) [OF assms]]) (auto simp: res_all_Inr)
next
  case (Host_Frame c fr)
  show ?thesis unfolding Host_Frame board_exec.simps
    by (rule on_devs_keep [where I = board_ok, OF _ assms]) (simp add: put_cans_keep)
next
  case (SysTick_Expire i)
  show ?thesis unfolding SysTick_Expire board_exec.simps
    by (rule on_devs_keep [where I = board_ok, OF _ assms]) (auto intro: res_all_bind [of "\<lambda>_. True"] res_allI put_systick_keep)
next
  case (Cpu i ev)
  show ?thesis unfolding Cpu board_exec.simps
    using assms by (auto intro: on_devs_keep [where I = board_ok] cpu_request_keep simp: res_all_Inr)
qed (simp_all add: on_devs_keep [where I = board_ok] uart_step_keep assms)

lemma board_run_keep: "\<lbrakk>board_run es s = Inr s'; board_ok (devs s)\<rbrakk> \<Longrightarrow> board_ok (devs s')"
proof (induction es arbitrary: s)
  case (Cons e es)
  with board_exec_keep [of s "fst e" "snd e"] show ?case by (auto simp: res_bind_eq_Inr res_all_def)
qed simp


section \<open>Power-on\<close>

lemma armv7m_realize_ok:
  assumes "armv7m_realize c now = Inr (Some a)"
  shows "nvic_ok (nvic a)" and "level (vectors (nvic a) k) = 0"
proof -
  from assms obtain n where n: "armv7m_nvic_realize (nvic_new c) = Inr n" "nvic a = armv7m_nvic_reset n"
    by (auto simp: armv7m_realize_def res_bind_eq_Inr split: if_splits sum.splits option.splits)
  note b = nvic_realize_bounds [OF n(1)]
  have "num_irq n = 257" using n(1) by (auto simp: armv7m_nvic_realize_def nvic_new_def Let_def split: if_splits)
  moreover have "nvic_inv (armv7m_nvic_reset n)"
    using b by (intro nvic_reset_inv) (simp_all add: nvic_new_def)
  ultimately show "nvic_ok (nvic a)" by (simp add: n(2) nvic_ok_def nvic_held_reset)
  show "level (vectors (nvic a) k) = 0" by (simp add: n(2) nvic_reset_vectors)
qed

lemma uart_power_on:
  assumes "uart_realize uart_init = Inr u" and "uart_reset u = Inr u'"
  shows "uart_irq.coherent u'" and "line_level (UartState.irq u') = 0"
proof -
  show coh: "uart_irq.coherent u'" using assms(2) by (rule uart_coherent_uart_reset)
  have "UartState.control u' = 0" using assms(2) by (auto simp: uart_reset_def Let_def dest!: update_params_frame(2))
  then have "\<not> has_flag (UartState.control u') (UartState.status u')" by (simp add: has_flag_def)
  with coh show "line_level (UartState.irq u') = 0" by (simp add: uart_irq.coherent_def)
qed

lemma can_reset_coherent: "can_irq.coherent (can_reset s)" "line_level (CanState.irq (can_reset s)) = 0"
  by (simp_all add: can_irq.coherent_def can_reset_def rx_pending_def Let_def)

lemma power_on_ok:
  assumes "nxps32k3_realize now = Inr (Some m)"
  shows "board_ok m"
proof -
  from assms obtain a u u' where a: "armv7m_realize board_cpu now = Inr (Some a)" and u: "uart_realize uart_init = Inr u" "uart_reset u = Inr u'"
    and m: "m = \<lparr>armv7m = (\<lambda>_. a), uart0 = u', cans = upd_dev 1 can_reset (upd_dev 0 can_reset (can_power_on (\<lambda>_. Some 0) 2))\<rparr>"
    by (auto simp: nxps32k3_realize_def res_bind_eq_Inr split: option.splits)
  have "can_irq.coherent (can_init b)" for b by (simp add: can_irq.coherent_def can_init_def rx_pending_def)
  then show ?thesis
    using armv7m_realize_ok [OF a] uart_power_on [OF u]
    by (simp add: m board_ok_def tied_def can_reset_coherent)
qed

section \<open>Interrupt requests\<close>

text \<open>The interrupt inputs of CPU 0 and whether their devices ask for an interrupt.\<close>

definition irq_requests :: "NXPS32K3McuState \<Rightarrow> (nat \<times> bool) list" where
  "irq_requests m =
     [(UART0_IRQn, has_flag (UartState.control (uart0 m)) (UartState.status (uart0 m))),
      (CAN0_IRQn, rx_pending (dev (cans m) 0)), (CAN1_IRQn, rx_pending (dev (cans m) 1))]"

lemma request_seen:
  assumes "board_ok m" and "(k, b) \<in> set (irq_requests m)"
  defines "v \<equiv> vectors (nvic_of m 0) (k + NVIC_FIRST_IRQ)"
  shows "level v = (if b then 1 else 0)" and "b \<longrightarrow> pending v \<or> active v" and "k < 241"
proof -
  show "k < 241" using assms(2) irq_numbers by (auto simp: irq_requests_def)
  have "uint (level v) = (if b then 1 else 0)"
    using assms(1,2) by (auto simp: v_def irq_requests_def board_ok_def tied_def uart_irq.coherent_def can_irq.coherent_def)
  then show l: "level v = (if b then 1 else 0)" by (auto simp: word_uint_eq_iff split: if_splits)
  have "vec_held (False, k + NVIC_FIRST_IRQ) (vec_at (nvic_of m 0) (False, k + NVIC_FIRST_IRQ))"
    using assms(1) by (intro nvic_held_vec) (simp add: board_ok_def nvic_ok_def)
  then show "b \<longrightarrow> pending v \<or> active v" using l by (auto simp: vec_held_def vec_at_def v_def)
qed

text \<open>
  C1.  Whatever the CPUs, the host and the timers do after power-on, each interrupt input of CPU 0 that
  is wired to the UART or to a CAN controller has the level that the device asks for, and while the device
  asks for an interrupt, the exception is pending or being served.
\<close>

theorem board_interrupts_not_lost:
  assumes "nxps32k3_realize t = Inr (Some m0)" and "board_run es \<lparr>ram_block = ram, devs = m0\<rparr> = Inr s"
  shows "\<forall>(k, b)\<in>set (irq_requests (devs s)).
    let v = vectors (nvic_of (devs s) 0) (k + NVIC_FIRST_IRQ)
    in level v = (if b then 1 else 0) \<and> (b \<longrightarrow> pending v \<or> active v)"
proof -
  have "board_ok (devs s)" using board_run_keep [OF assms(2)] power_on_ok [OF assms(1)] by simp
  from request_seen [OF this] show ?thesis by (auto simp: Let_def)
qed

text \<open>
  C2.  A device of the board that asks for an interrupt gets it as soon as the CPU may take it: when the
  interrupt is enabled and more urgent than what the CPU executes, the controller of CPU 0 offers an
  exception that is at least as urgent.
\<close>

theorem board_interrupt_offered:
  assumes "nxps32k3_realize t = Inr (Some m0)" and "board_run es \<lparr>ram_block = ram, devs = m0\<rparr> = Inr s"
    and "(k, True) \<in> set (irq_requests (devs s))" and "enabled (vectors (nvic_of (devs s) 0) (k + NVIC_FIRST_IRQ))"
    and "urgency (nvic_of (devs s) 0) (False, k + NVIC_FIRST_IRQ) < nvic_exec_prio (nvic_of (devs s) 0)"
  shows "armv7m_nvic_can_take_pending_exception (nvic_of (devs s) 0) \<and>
    vectpending_prio (nvic_of (devs s) 0) \<le> urgency (nvic_of (devs s) 0) (False, k + NVIC_FIRST_IRQ)"
proof -
  let ?n = "nvic_of (devs s) 0" and ?e = "(False, k + NVIC_FIRST_IRQ)"
  have ok: "board_ok (devs s)" using board_run_keep [OF assms(2)] power_on_ok [OF assms(1)] by simp
  note seen = request_seen [OF ok assms(3)]
  have n: "nvic_wf ?n" "nvic_recompute_state ?n = ?n" "num_irq ?n = 257" using ok by (simp_all add: board_ok_def nvic_ok_def nvic_inv_def)
  have imp: "implemented ?n ?e" using seen(3) n(3) by (simp add: implemented_def)
  have "\<not> active (vec_at ?n ?e)"
    using exception_prio_le [OF n(1) imp] n(2) nvic_exec_prio_le [of ?n] assms(5) by auto
  then have "vectpending_prio ?n \<le> urgency ?n ?e"
    using vectpending_prio_le [OF n(1) imp] assms(4) seen(2) n(2) by (auto simp: vec_at_def)
  then show ?thesis using assms(5) by (simp add: armv7m_nvic_can_take_pending_exception_def nvic_pending_prio_def)
qed


section \<open>A run\<close>

text \<open>The interrupt of the UART is enabled in the controller and in the device, and a byte arrives.\<close>

definition demo_events :: "(int \<times> board_event) list" where
  "demo_events = [(0, Store 0 4 (0xe000e000 + 0x110) 0x2000 False), (0, Store 0 4 (UART0_BA + 0xc) 0x80 False),
     (0, Host_Byte 0x41), (10 ^ 9, Uart_Rx)]"

definition demo_devices :: "NXPS32K3McuState \<Rightarrow> NXPS32K3McuState res" where
  "demo_devices m =
     res_bind (nvic_sysreg_write 0x110 0x2000 4 (guest_attrs False) (nvic_of m 0)) (\<lambda>(r, n).
     let m = set_nvic 0 n m
     in res_bind (uart_write 0 0xc 0x80 (uart0 m)) (\<lambda>u. res_bind (put_uart u m) (\<lambda>m.
        res_bind (uart_step 0 (BackendByte 0x41) m) (uart_step (10 ^ 9) RxExpire))))"

lemma board_demo_run: "board_run demo_events \<lparr>ram_block = ram, devs = m\<rparr> = res_bind (demo_devices m) (\<lambda>m. Inr \<lparr>ram_block = ram, devs = m\<rparr>)"
proof -
  have a: "aligned 0x110 4" "aligned 0xc 4" by code_simp+
  have tb: "take_bit (4 * 8) (0x2000 :: u64) = 0x2000" "take_bit (4 * 8) (0x80 :: u64) = 0x80" by simp_all
  show ?thesis
    unfolding demo_events_def demo_devices_def board_run.simps fst_conv snd_conv board_exec.simps
    using nvic_store [of 0 "0x110" 4 0 "0x2000" False "\<lparr>ram_block = ram, devs = m\<rparr>"] uart_access(2) [of 0 "0xc" 4 0 "0x80" False]
    by (simp add: a tb res_bind_assoc split_def on_devs_def Let_def)
qed

definition irq_due :: "NXPS32K3McuState \<Rightarrow> nat \<Rightarrow> bool" where
  "irq_due m k \<longleftrightarrow> enabled (vectors (nvic_of m 0) (k + NVIC_FIRST_IRQ)) \<and>
     urgency (nvic_of m 0) (False, k + NVIC_FIRST_IRQ) < nvic_exec_prio (nvic_of m 0)"

lemma demo_state:
  obtains m0 s where "nxps32k3_realize 0 = Inr (Some m0)" and "board_run demo_events \<lparr>ram_block = (\<lambda>_ _. 0), devs = m0\<rparr> = Inr s"
    and "(UART0_IRQn, True) \<in> set (irq_requests (devs s))" and "irq_due (devs s) UART0_IRQn"
proof -
  have "case nxps32k3_realize 0 of Inr (Some m0) \<Rightarrow>
      (case demo_devices m0 of Inl _ \<Rightarrow> False | Inr m \<Rightarrow> (UART0_IRQn, True) \<in> set (irq_requests m) \<and> irq_due m UART0_IRQn)
    | _ \<Rightarrow> False" by code_simp
  then obtain m0 where m0: "nxps32k3_realize 0 = Inr (Some m0)"
    "case demo_devices m0 of Inl _ \<Rightarrow> False | Inr m \<Rightarrow> (UART0_IRQn, True) \<in> set (irq_requests m) \<and> irq_due m UART0_IRQn"
    by (cases "nxps32k3_realize 0") (auto split: option.splits)
  from m0(2) obtain m where "demo_devices m0 = Inr m" "(UART0_IRQn, True) \<in> set (irq_requests m)" "irq_due m UART0_IRQn"
    by (cases "demo_devices m0") auto
  with m0(1) show thesis by (intro that [of m0 "\<lparr>ram_block = (\<lambda>_ _. 0), devs = m\<rparr>"]) (simp_all add: board_demo_run)
qed

theorem board_interrupts_not_lost_witness:
  "\<exists>m0 s. nxps32k3_realize 0 = Inr (Some m0) \<and> board_run demo_events \<lparr>ram_block = (\<lambda>_ _. 0), devs = m0\<rparr> = Inr s \<and>
     level (vectors (nvic_of (devs s) 0) (141 + 16)) = 1 \<and>
     (pending (vectors (nvic_of (devs s) 0) (141 + 16)) \<or> active (vectors (nvic_of (devs s) 0) (141 + 16)))"
proof -
  obtain m0 s where s: "nxps32k3_realize 0 = Inr (Some m0)" "board_run demo_events \<lparr>ram_block = (\<lambda>_ _. 0), devs = m0\<rparr> = Inr s"
    "(UART0_IRQn, True) \<in> set (irq_requests (devs s))" by (rule demo_state)
  with board_interrupts_not_lost [OF s(1,2)] show ?thesis by (fastforce simp: UART0_IRQn_def Let_def)
qed

theorem board_interrupt_offered_witness:
  "\<exists>m0 s. nxps32k3_realize 0 = Inr (Some m0) \<and> board_run demo_events \<lparr>ram_block = (\<lambda>_ _. 0), devs = m0\<rparr> = Inr s \<and>
     armv7m_nvic_can_take_pending_exception (nvic_of (devs s) 0)"
proof -
  obtain m0 s where s: "nxps32k3_realize 0 = Inr (Some m0)" "board_run demo_events \<lparr>ram_block = (\<lambda>_ _. 0), devs = m0\<rparr> = Inr s"
    "(UART0_IRQn, True) \<in> set (irq_requests (devs s))" "irq_due (devs s) UART0_IRQn" by (rule demo_state)
  with board_interrupt_offered [OF s(1-3)] show ?thesis by (auto simp: irq_due_def)
qed

end
