(* ===== verification/Soc_Tick.thy ===== *)
theory Soc_Tick
  imports Soc_Run
begin

text \<open>
  The tick of a CPU: the timer expires, pulses its line, and the interrupt controller of the same CPU makes
  the SysTick exception pending.
\<close>

lemma systick_pended:
  assumes "nvic_inv n"
  obtains n' where "drive (nvic_systick_trigger False) [1, 0] n = Inr n'" and "pending (vectors n' ARMV7M_EXCP_SYSTICK)"
proof -
  have "num_irq n > ARMV7M_EXCP_SYSTICK" using num_irq_wf [OF nvic_inv_wf [OF assms]] by simp
  then have n': "armv7m_nvic_set_pending ARMV7M_EXCP_SYSTICK False n = Inr (set_pending_vec (False, ARMV7M_EXCP_SYSTICK) n)"
    by (simp add: armv7m_nvic_set_pending_def do_armv7m_nvic_set_pending_def)
  have "pending (vec_at (set_pending_vec p n) p)" for p
    by (simp add: set_pending_vec_def vec_upd_at)
  then have "pending (vectors (set_pending_vec (False, ARMV7M_EXCP_SYSTICK) n) ARMV7M_EXCP_SYSTICK)"
    by (simp add: vec_at_def del: split_paired_All) (metis fst_conv snd_conv)
  with n' show thesis by (intro that) (simp_all add: nvic_systick_trigger_def)
qed

lemma put_systick_pulse:
  assumes "nvic_inv (nvic_of m i)" and "st_irq (fst ds) = st_irq (fst (systick_ns (armv7m m i))) @ [1, 0]"
  obtains n' where "put_systick i ds m = Inr (m\<lparr>armv7m := (armv7m m)(i := \<lparr>nvic = n', systick_ns = ds\<rparr>)\<rparr>)"
    and "pending (vectors n' ARMV7M_EXCP_SYSTICK)"
proof -
  from systick_pended [OF assms(1)] obtain n' where n': "drive (nvic_systick_trigger False) [1, 0] (nvic_of m i) = Inr n'"
    "pending (vectors n' ARMV7M_EXCP_SYSTICK)" .
  have eq: "r\<lparr>systick_ns := ds, nvic := n'\<rparr> = \<lparr>nvic = n', systick_ns = ds\<rparr>" for r :: ARMv7MState by (cases r) simp
  from n' show thesis using assms(2) by (intro that [of n']) (simp_all add: put_systick_def deliver_def set_nvic_def eq)
qed


definition demo_ticking_board :: board where
  "demo_ticking_board = demo_board\<lparr>devs := (devs demo_board)\<lparr>armv7m := (\<lambda>_. \<lparr>nvic = nvic_m7, systick_ns = (demo_dev 7, demo_ticking)\<rparr>)\<rparr>\<rparr>"


end
