(* ===== verification/Spec2Isabelle.thy ===== *)
theory Spec2Isabelle
  imports Soc_Tick
begin

text \<open>
  Verification of the emulated NXP S32K3X8EVB board: a QEMU machine with a Cortex-M7
  microcontroller, a UART, two CAN controllers on one CAN bus, and a demo application.

  Theories:
  \<^item> \<open>Emu_Prelude\<close>: machine words, masked registers, the error type.
  \<^item> \<open>Irq_Line\<close>: QEMU's interrupt lines.
  \<^item> \<open>Uart_Device\<close>: the UART.
\<close>

end
